(* ===== verification/Dmucs_Prelude.thy ===== *)
theory Dmucs_Prelude
  imports Main "HOL-Library.Word" "HOL-Library.Char_ord" "HOL-Library.List_Lexorder"
    "HOL-Library.Monad_Syntax"
begin

text \<open>
  The types every component of the model names, the collections of simplification rules the
  component proofs share, and the facts on lists, options and association lists they need.

  A result of type \<open>'a option\<close> is used for C and C++ code whose behaviour may be undefined:
  \<open>None\<close> stands for undefined behaviour (an iterator at the end that is dereferenced, a
  buffer that is overrun) or for a crash, and \<open>Some\<close> for a call that returns.  Exceptions the
  code throws and catches are values of a sum type.
\<close>

type_synonym ip = "32 word"          \<comment> \<open>\<open>struct in_addr\<close>: the \<open>s_addr\<close> word\<close>
type_synonym sock = nat              \<comment> \<open>a \<open>Socket *\<close>: pointers are compared and ordered only\<close>
type_synonym dprop = string          \<comment> \<open>\<open>typedef std::string DmucsDprop\<close>\<close>
type_synonym hptr = nat              \<comment> \<open>a \<open>DmucsHost *\<close>\<close>

named_theorems stl_simps \<open>what the operations of the ordered containers return\<close>
named_theorems frame_simps \<open>fields an operation leaves alone\<close>

subsection \<open>Lists\<close>

lemma removeAll_count: "length (removeAll x xs) + count_list xs x = length xs"
  by (induction xs) auto

lemma length_removeAll_count: "length (removeAll x xs) = length xs - count_list xs x"
  using removeAll_count [of x xs] by simp

lemma count_list_replicate [simp]: "count_list (replicate n x) y = (if x = y then n else 0)"
  by (induction n) auto

lemma count_list_removeAll [simp]:
  "count_list (removeAll x xs) y = (if x = y then 0 else count_list xs y)"
  by (induction xs) auto

lemma count_list_take_drop:
  "n < length xs \<Longrightarrow>
    count_list (take n xs @ drop (Suc n) xs) y = count_list xs y - (if xs ! n = y then 1 else 0)"
proof -
  assume n: "n < length xs"
  have "count_list xs y = count_list (take n xs @ xs ! n # drop (Suc n) xs) y"
    using id_take_nth_drop [OF n] by simp
  then show ?thesis by simp
qed

lemma set_take_drop_subset: "set (take n xs @ drop m xs) \<subseteq> set xs"
  by (auto dest: in_set_takeD in_set_dropD)

lemma sorted_wrt_less_distinct:
  fixes xs :: "'a::linorder list"
  shows "sorted_wrt (<) xs \<Longrightarrow> distinct xs"
  by (simp add: strict_sorted_iff)

subsection \<open>Options\<close>

lemma bind_eq_SomeI: "m = Some x \<Longrightarrow> f x = Some y \<Longrightarrow> Option.bind m f = Some y"
  by simp

lemma not_None_Some: "x \<noteq> None \<Longrightarrow> \<exists>y. x = Some y"
  by simp

end
