(* ===== verification/C_Float.thy ===== *)
theory C_Float
  imports Dmucs_Prelude Complex_Main
begin

text \<open>
  The C floating point arithmetic the load averages go through: IEEE 754 binary values with
  rounding to nearest, ties to even.  A value is a rational, an infinity or a NaN; the sign of a
  zero is not kept, since the code only divides by a converted \<open>int\<close> (whose zero is
  positive) and compares with \<open><\<close>, neither of which can tell the two zeros apart.
  \<open>float\<close> is binary32, \<open>double\<close> (the type of the constants \<open>0.9\<close>, \<open>0.7\<close>
  and \<open>0.8\<close>, to which a float operand is promoted exactly) is binary64.
\<close>

datatype cfloat = Fin rat | PInf | NInf | NaN

subsection \<open>Rounding\<close>

fun ilog2_nat :: "nat \<Rightarrow> nat" where
  "ilog2_nat n = (if n < 2 then 0 else Suc (ilog2_nat (n div 2)))"

declare ilog2_nat.simps [simp del]

definition pow2 :: "int \<Rightarrow> rat" where
  "pow2 k = (if 0 \<le> k then of_int (2 ^ nat k) else 1 / of_int (2 ^ nat (- k)))"

definition ilog2 :: "rat \<Rightarrow> int" where
  \<comment> \<open>the exponent of a positive rational: \<open>pow2 (ilog2 q) \<le> q < pow2 (ilog2 q + 1)\<close>\<close>
  "ilog2 q = (case quotient_of q of (n, d) \<Rightarrow>
     (let k = int (ilog2_nat (nat n)) - int (ilog2_nat (nat d))
      in if pow2 k \<le> q then k else k - 1))"

definition round_half_even :: "rat \<Rightarrow> int" where
  "round_half_even q =
     (let f = \<lfloor>q\<rfloor>; r = q - of_int f
      in if r < 1 / 2 then f else if 1 / 2 < r then f + 1 else if even f then f else f + 1)"

definition fround :: "int \<Rightarrow> int \<Rightarrow> int \<Rightarrow> rat \<Rightarrow> cfloat" where
  \<comment> \<open>precision, least and greatest exponent of a normal number\<close>
  "fround p emin emax q =
     (if q = 0 then Fin 0
      else
        let a = \<bar>q\<bar>;
            u = pow2 (max (ilog2 a) emin - (p - 1));
            v = of_int (round_half_even (a / u)) * u
        in if pow2 (emax + 1) \<le> v then (if q < 0 then NInf else PInf)
           else Fin (if q < 0 then - v else v))"

definition to_float :: "rat \<Rightarrow> cfloat" where
  "to_float q = fround 24 (-126) 127 q"

definition to_double :: "rat \<Rightarrow> cfloat" where
  "to_double q = fround 53 (-1022) 1023 q"

subsection \<open>The operations used\<close>

fun fdiv :: "cfloat \<Rightarrow> cfloat \<Rightarrow> cfloat" where
  "fdiv (Fin a) (Fin b) =
     (if b = 0 then (if a = 0 then NaN else if 0 < a then PInf else NInf) else to_float (a / b))"
| "fdiv PInf (Fin b) = (if 0 \<le> b then PInf else NInf)"
| "fdiv NInf (Fin b) = (if 0 \<le> b then NInf else PInf)"
| "fdiv (Fin a) PInf = Fin 0"
| "fdiv (Fin a) NInf = Fin 0"
| "fdiv _ _ = NaN"

fun fless :: "cfloat \<Rightarrow> cfloat \<Rightarrow> bool" where
  "fless (Fin a) (Fin b) = (a < b)"
| "fless NInf (Fin b) = True"
| "fless NInf PInf = True"
| "fless (Fin a) PInf = True"
| "fless _ _ = False"

definition float_of_int :: "int \<Rightarrow> cfloat" where
  "float_of_int n = to_float (of_int n)"

subsection \<open>Facts on rounding\<close>

lemma to_float_0 [simp]: "to_float 0 = Fin 0"
  by (simp add: to_float_def fround_def)

lemma float_of_int_0 [simp]: "float_of_int 0 = Fin 0"
  by (simp add: float_of_int_def)

lemma pow2_pos: "0 < pow2 k"
  by (simp add: pow2_def)

lemma fless_irrefl [simp]: "\<not> fless x x"
  by (cases x) auto

lemma fless_trans: "fless x y \<Longrightarrow> fless y z \<Longrightarrow> fless x z"
  by (cases x; cases y; cases z) auto

lemma fless_NaN [simp]: "\<not> fless NaN x" "\<not> fless x NaN"
  by (cases x; simp)+

lemma round_half_even_of_int [simp]: "round_half_even (of_int n) = n"
  by (simp add: round_half_even_def)

lemma round_half_even_mono: "x \<le> y \<Longrightarrow> round_half_even x \<le> round_half_even y"
proof -
  assume xy: "x \<le> y"
  then have f: "\<lfloor>x\<rfloor> \<le> \<lfloor>y\<rfloor>" by (rule floor_mono)
  show ?thesis
  proof (cases "\<lfloor>x\<rfloor> = \<lfloor>y\<rfloor>")
    case True
    with xy show ?thesis by (auto simp: round_half_even_def Let_def)
  next
    case False
    with f have "\<lfloor>x\<rfloor> + 1 \<le> \<lfloor>y\<rfloor>" by simp
    then show ?thesis by (auto simp: round_half_even_def Let_def)
  qed
qed

lemma round_half_even_nonneg: "0 \<le> x \<Longrightarrow> 0 \<le> round_half_even x"
  using round_half_even_mono [of 0 x] round_half_even_of_int [of 0] by simp

end
