(* ===== verification/C_Text.thy ===== *)
theory C_Text
  imports C_Float
begin

text \<open>
  The text functions of the C library that the programs use, on NUL-free strings: character
  classes, prefix comparison, \<open>sscanf\<close> with the directives that occur (\<open>%s\<close>, \<open>%d\<close>,
  \<open>%f\<close>, \<open>%c\<close>, blanks and literal characters), decimal output, and the conversions between an IPv4
  address and its dotted text.  An address is the \<open>s_addr\<close> word as a little-endian machine
  sees it: octet \<open>i\<close> of the dotted text is bits \<open>8 * i\<close> to \<open>8 * i + 7\<close>.
\<close>

subsection \<open>Characters and prefixes\<close>

definition c_isspace :: "char \<Rightarrow> bool" where
  "c_isspace c = (c = CHR '' '' \<or> (9 \<le> (of_char c :: int) \<and> (of_char c :: int) \<le> 13))"

definition c_isdigit :: "char \<Rightarrow> bool" where
  "c_isdigit c = (48 \<le> (of_char c :: int) \<and> (of_char c :: int) \<le> 57)"

definition digit_val :: "char \<Rightarrow> int" where
  "digit_val c = of_char c - 48"

definition hex_val :: "char \<Rightarrow> int option" where
  "hex_val c = (let n = (of_char c :: int)
     in if 48 \<le> n \<and> n \<le> 57 then Some (n - 48)
        else if 97 \<le> n \<and> n \<le> 102 then Some (n - 87)
        else if 65 \<le> n \<and> n \<le> 70 then Some (n - 55) else None)"

definition strprefix :: "string \<Rightarrow> string \<Rightarrow> bool" where
  \<comment> \<open>\<open>strncmp (x, y, strlen (x)) == 0\<close>\<close>
  "strprefix x y = (take (length x) y = x)"

definition strequ :: "string \<Rightarrow> string \<Rightarrow> bool" where
  "strequ x y = strprefix x y"

definition c_str :: "string \<Rightarrow> string" where
  "c_str s = takeWhile (\<lambda>c. c \<noteq> CHR 0x00) s"

definition skip_ws :: "string \<Rightarrow> string" where
  "skip_ws s = dropWhile c_isspace s"

definition skip_word :: "string \<Rightarrow> string" where
  "skip_word s = dropWhile (\<lambda>c. \<not> c_isspace c) s"

definition take_word :: "string \<Rightarrow> string" where
  "take_word s = takeWhile (\<lambda>c. \<not> c_isspace c) s"

subsection \<open>Numbers in text\<close>

fun digits_val :: "int \<Rightarrow> string \<Rightarrow> int" where
  "digits_val a [] = a"
| "digits_val a (c # cs) = digits_val (10 * a + digit_val c) cs"

definition digit_char :: "int \<Rightarrow> char" where
  "digit_char d = char_of (48 + d)"

function digits10 :: "int \<Rightarrow> string" where
  \<comment> \<open>of a number that is not negative\<close>
  "digits10 n = (if n < 10 then [digit_char n] else digits10 (n div 10) @ [digit_char (n mod 10)])"
  by pat_completeness auto
termination
  by (relation "measure nat") auto

declare digits10.simps [simp del]

definition string_of_int :: "int \<Rightarrow> string" where
  "string_of_int i = (if i < 0 then CHR ''-'' # digits10 (- i) else digits10 i)"

definition split_sign :: "string \<Rightarrow> bool \<times> string" where
  \<comment> \<open>whether the number is negative, and the text after the sign\<close>
  "split_sign s = (case s of [] \<Rightarrow> (False, [])
     | c # cs \<Rightarrow> if c = CHR ''-'' then (True, cs) else if c = CHR ''+'' then (False, cs) else (False, s))"

definition to_int32 :: "int \<Rightarrow> int" where
  \<comment> \<open>the \<open>long\<close> that \<open>strtol\<close> returns, stored in an \<open>int\<close>\<close>
  "to_int32 i = (let l = max (- (2 ^ 63)) (min (2 ^ 63 - 1) i) in (l + 2 ^ 31) mod 2 ^ 32 - 2 ^ 31)"

definition scan_int :: "string \<Rightarrow> (int \<times> string) option" where
  "scan_int s = (case split_sign (skip_ws s) of (neg, t) \<Rightarrow>
     (let ds = takeWhile c_isdigit t
      in if ds = [] then None
         else Some (to_int32 ((if neg then - 1 else 1) * digits_val 0 ds), dropWhile c_isdigit t)))"

definition atoi :: "string \<Rightarrow> int" where
  "atoi s = (case scan_int s of None \<Rightarrow> 0 | Some (i, _) \<Rightarrow> i)"

subsection \<open>The %f directive\<close>

definition pow10 :: "int \<Rightarrow> rat" where
  "pow10 k = (if 0 \<le> k then of_int (10 ^ nat k) else 1 / of_int (10 ^ nat (- k)))"

definition lower :: "char \<Rightarrow> char" where
  "lower c = (let n = (of_char c :: int) in if 65 \<le> n \<and> n \<le> 90 then char_of (n + 32) else c)"

definition scan_exponent :: "char \<Rightarrow> string \<Rightarrow> (int \<times> string) option" where
  \<comment> \<open>an exponent part introduced by \<open>e\<close> (or \<open>p\<close>): once introduced it must have digits\<close>
  "scan_exponent e s = (case s of [] \<Rightarrow> Some (0, [])
     | c # cs \<Rightarrow> if lower c \<noteq> e then Some (0, s)
        else (case split_sign cs of (neg, t) \<Rightarrow>
          (let ds = takeWhile c_isdigit t
           in if ds = [] then None
              else Some ((if neg then - 1 else 1) * digits_val 0 ds, dropWhile c_isdigit t))))"

definition scan_fraction :: "(char \<Rightarrow> bool) \<Rightarrow> string \<Rightarrow> string \<times> string \<times> string" where
  \<comment> \<open>the digits before the point, after it, and the rest\<close>
  "scan_fraction d s = (let i = takeWhile d s; r = dropWhile d s
     in case r of [] \<Rightarrow> (i, [], [])
        | c # cs \<Rightarrow> if c = CHR ''.'' then (i, takeWhile d cs, dropWhile d cs) else (i, [], r))"

fun hex_digits_val :: "int \<Rightarrow> string \<Rightarrow> int" where
  "hex_digits_val a [] = a"
| "hex_digits_val a (c # cs) = hex_digits_val (16 * a + (case hex_val c of None \<Rightarrow> 0 | Some v \<Rightarrow> v)) cs"

definition scan_decimal :: "string \<Rightarrow> (rat \<times> string) option" where
  "scan_decimal s = (case scan_fraction c_isdigit s of (i, f, r) \<Rightarrow>
     if i @ f = [] then None
     else (case scan_exponent (CHR ''e'') r of None \<Rightarrow> None
       | Some (e, r') \<Rightarrow> Some (of_int (digits_val 0 (i @ f)) * pow10 (e - int (length f)), r')))"

definition scan_hex :: "string \<Rightarrow> (rat \<times> string) option" where
  "scan_hex s = (case scan_fraction (\<lambda>c. hex_val c \<noteq> None) s of (i, f, r) \<Rightarrow>
     if i @ f = [] then None
     else (case scan_exponent (CHR ''p'') r of None \<Rightarrow> None
       | Some (e, r') \<Rightarrow>
           Some (of_int (hex_digits_val 0 (i @ f)) * pow2 (e - 4 * int (length f)), r')))"

definition scan_real :: "(rat \<Rightarrow> cfloat) \<Rightarrow> string \<Rightarrow> (cfloat \<times> string) option" where
  \<comment> \<open>with the rounding of the type that is stored\<close>
  "scan_real rnd s = (case split_sign (skip_ws s) of (neg, t) \<Rightarrow>
     (let sg = (\<lambda>q. if neg then - q else q);
          w = map lower t
      in if strprefix ''infinity'' w then Some (if neg then NInf else PInf, drop 8 t)
         else if strprefix ''inf'' w \<and> \<not> strprefix ''infi'' w then Some (if neg then NInf else PInf, drop 3 t)
         else if strprefix ''nan'' w then Some (NaN, drop 3 t)
         else if strprefix ''0x'' w
           then map_option (\<lambda>(q, r). (rnd (sg q), r)) (scan_hex (drop 2 t))
         else map_option (\<lambda>(q, r). (rnd (sg q), r)) (scan_decimal t)))"

definition scan_float :: "string \<Rightarrow> (cfloat \<times> string) option" where
  "scan_float = scan_real to_float"

definition scan_double :: "string \<Rightarrow> (cfloat \<times> string) option" where
  "scan_double = scan_real to_double"

definition print_float2 :: "cfloat \<Rightarrow> string" where
  \<comment> \<open>the \<open>%2.2f\<close> of \<open>printf\<close>\<close>
  "print_float2 x = (case x of
     Fin q \<Rightarrow> (let n = round_half_even (\<bar>q\<bar> * 100)
       in (if q < 0 then ''-'' else '''') @ digits10 (n div 100) @ ''.'' @
          [digit_char (n mod 100 div 10), digit_char (n mod 10)])
   | PInf \<Rightarrow> ''inf'' | NInf \<Rightarrow> ''-inf'' | NaN \<Rightarrow> ''nan'')"

subsection \<open>sscanf\<close>

datatype directive = DBlank | DLit char | DStr | DInt | DFloat | DDouble | DChar

datatype conv = CStr string | CInt int | CFlt cfloat | CDbl cfloat | CChr char

fun parse_format :: "string \<Rightarrow> directive list" where
  "parse_format [] = []"
| "parse_format (c # cs) =
     (if c = CHR ''%'' then
        (case cs of [] \<Rightarrow> []
         | d # ds \<Rightarrow> if d = CHR ''l'' \<and> take 1 ds = ''f'' then DDouble # parse_format (drop 1 ds)
             else (if d = CHR ''s'' then DStr else if d = CHR ''d'' then DInt
             else if d = CHR ''f'' then DFloat else if d = CHR ''c'' then DChar else DLit d) # parse_format ds)
      else (if c_isspace c then DBlank else DLit c) # parse_format cs)"

fun run_format :: "directive list \<Rightarrow> string \<Rightarrow> conv list" where
  "run_format [] s = []"
| "run_format (DBlank # ds) s = run_format ds (skip_ws s)"
| "run_format (DLit c # ds) s = (case s of [] \<Rightarrow> [] | x # xs \<Rightarrow> if x = c then run_format ds xs else [])"
| "run_format (DStr # ds) s = (let t = skip_ws s
     in if t = [] then [] else CStr (take_word t) # run_format ds (skip_word t))"
| "run_format (DInt # ds) s =
     (case scan_int s of None \<Rightarrow> [] | Some (i, t) \<Rightarrow> CInt i # run_format ds t)"
| "run_format (DFloat # ds) s =
     (case scan_float s of None \<Rightarrow> [] | Some (x, t) \<Rightarrow> CFlt x # run_format ds t)"
| "run_format (DDouble # ds) s =
     (case scan_double s of None \<Rightarrow> [] | Some (x, t) \<Rightarrow> CDbl x # run_format ds t)"
| "run_format (DChar # ds) s = (case s of [] \<Rightarrow> [] | x # xs \<Rightarrow> CChr x # run_format ds xs)"

definition sscanf :: "string \<Rightarrow> string \<Rightarrow> conv list" where
  \<comment> \<open>the conversions made, in order: their number is the return value, where the code's tests
     take 0 and \<open>EOF\<close> alike\<close>
  "sscanf buf fmt = run_format (parse_format fmt) buf"

subsection \<open>Dotted IPv4 addresses\<close>

definition octet :: "nat \<Rightarrow> ip \<Rightarrow> int" where
  "octet i a = (uint a div 256 ^ i) mod 256"

definition inet_ntoa :: "ip \<Rightarrow> string" where
  "inet_ntoa a = digits10 (octet 0 a) @ ''.'' @ digits10 (octet 1 a) @ ''.'' @
     digits10 (octet 2 a) @ ''.'' @ digits10 (octet 3 a)"

definition INADDR_NONE :: ip where
  "INADDR_NONE = 4294967295"

definition is_octal :: "char \<Rightarrow> bool" where
  "is_octal c = (c_isdigit c \<and> digit_val c < 8)"

fun octal_val :: "int \<Rightarrow> string \<Rightarrow> int" where
  "octal_val a [] = a"
| "octal_val a (c # cs) = octal_val (8 * a + digit_val c) cs"

definition strtoul0 :: "string \<Rightarrow> int \<times> string" where
  \<comment> \<open>\<open>strtoul\<close> with base 0 on text that starts with a digit\<close>
  "strtoul0 s =
     (let x = drop 2 s; h = takeWhile (\<lambda>c. hex_val c \<noteq> None) x
      in if strprefix ''0x'' (map lower (take 2 s)) \<and> h \<noteq> []
           then (hex_digits_val 0 h, drop (length h) x)
         else if strprefix ''0'' s then (octal_val 0 (takeWhile is_octal s), dropWhile is_octal s)
         else (digits_val 0 (takeWhile c_isdigit s), dropWhile c_isdigit s))"

function inet_parts :: "int list \<Rightarrow> string \<Rightarrow> int list option" where
  \<comment> \<open>the parts read so far, in order; at most four\<close>
  "inet_parts ps s =
     (case s of [] \<Rightarrow> None
      | c # cs \<Rightarrow>
          if \<not> c_isdigit c then None
          else (case strtoul0 s of (v, r) \<Rightarrow>
            if 4294967295 < v then None
            else (case r of [] \<Rightarrow> Some (ps @ [v])
              | d # ds \<Rightarrow>
                  if d = CHR ''.'' then (if 3 \<le> length ps \<or> 255 < v then None else inet_parts (ps @ [v]) ds)
                  else if c_isspace d then Some (ps @ [v]) else None)))"
  by pat_completeness auto
termination
  by (relation "measure (\<lambda>(ps, s). 4 - length ps)") auto

declare inet_parts.simps [simp del]

definition inet_word :: "int list \<Rightarrow> int option" where
  \<comment> \<open>the last part fills the bytes that are left, most significant first\<close>
  "inet_word ps = (case ps of
     [d] \<Rightarrow> Some (d div 16777216 + d div 65536 mod 256 * 256 + d div 256 mod 256 * 65536 + d mod 256 * 16777216)
   | [a, d] \<Rightarrow> if d \<le> 16777215
       then Some (a + d div 65536 * 256 + d div 256 mod 256 * 65536 + d mod 256 * 16777216) else None
   | [a, b, d] \<Rightarrow> if d \<le> 65535
       then Some (a + b * 256 + d div 256 * 65536 + d mod 256 * 16777216) else None
   | [a, b, c, d] \<Rightarrow> if d \<le> 255 then Some (a + b * 256 + c * 65536 + d * 16777216) else None
   | _ \<Rightarrow> None)"

definition inet_addr :: "string \<Rightarrow> ip" where
  "inet_addr s = (case Option.bind (inet_parts [] s) inet_word of
     None \<Rightarrow> INADDR_NONE | Some n \<Rightarrow> word_of_int n)"

end
