(* ===== verification/Stl.thy ===== *)
theory Stl
  imports Dmucs_Prelude
begin

text \<open>
  The ordered containers of the C++ standard library that the server uses: \<open>std::set\<close> with a
  comparator (the host sets of \<open>dmucs_db.h\<close>) and \<open>std::map\<close> (the tiers, the assigned cpus, the
  databases by distinguishing property, the hosts-info table).  Both are sorted sequences without
  equal keys, kept here as the list an iterator would visit.  \<open>insert\<close> leaves an element with an
  equal key alone and reports it, as the standard says.

  The locale \<open>assoc_store\<close> is the contract the databases rely on; the sorted lists provide it.
\<close>

subsection \<open>std::set with a key comparator\<close>

fun kfind :: "('a \<Rightarrow> 'k) \<Rightarrow> 'k \<Rightarrow> 'a list \<Rightarrow> 'a option" where
  "kfind key k [] = None"
| "kfind key k (x # xs) = (if key x = k then Some x else kfind key k xs)"

fun kinsert :: "('a \<Rightarrow> 'k::linorder) \<Rightarrow> 'a \<Rightarrow> 'a list \<Rightarrow> 'a list \<times> bool" where
  "kinsert key x [] = ([x], True)"
| "kinsert key x (y # ys) =
     (if key x < key y then (x # y # ys, True)
      else if key x = key y then (y # ys, False)
      else (case kinsert key x ys of (zs, b) \<Rightarrow> (y # zs, b)))"

definition kerase :: "('a \<Rightarrow> 'k) \<Rightarrow> 'k \<Rightarrow> 'a list \<Rightarrow> 'a list" where
  "kerase key k xs = filter (\<lambda>x. key x \<noteq> k) xs"

definition ksorted :: "('a \<Rightarrow> 'k::linorder) \<Rightarrow> 'a list \<Rightarrow> bool" where
  "ksorted key xs = sorted_wrt (<) (map key xs)"

lemma ksorted_Nil [simp]: "ksorted key []"
  by (simp add: ksorted_def)

lemma ksorted_Cons: "ksorted key (x # xs) \<longleftrightarrow> (\<forall>y\<in>set xs. key x < key y) \<and> ksorted key xs"
  by (auto simp: ksorted_def)

lemma ksorted_inj: "ksorted key xs \<Longrightarrow> x \<in> set xs \<Longrightarrow> y \<in> set xs \<Longrightarrow> key x = key y \<Longrightarrow> x = y"
  by (auto simp: ksorted_def strict_sorted_iff distinct_map dest: inj_onD)

lemma ksorted_distinct: "ksorted key xs \<Longrightarrow> distinct xs"
  by (simp add: ksorted_def strict_sorted_iff distinct_map)

lemma kfind_None [stl_simps]: "kfind key k xs = None \<longleftrightarrow> k \<notin> key ` set xs"
  by (induction xs) auto

lemma kfind_SomeD: "kfind key k xs = Some x \<Longrightarrow> x \<in> set xs \<and> key x = k"
  by (induction xs) (auto split: if_splits)

lemma kfind_Some [stl_simps]:
  "ksorted key xs \<Longrightarrow> kfind key k xs = Some x \<longleftrightarrow> x \<in> set xs \<and> key x = k"
  by (induction xs) (auto simp: ksorted_Cons)

lemma kfind_cong: "(\<And>x. x \<in> set xs \<Longrightarrow> key x = key' x) \<Longrightarrow> kfind key k xs = kfind key' k xs"
  by (induction xs) auto

lemma kinsert_cong:
  "key x = key' x \<Longrightarrow> (\<And>y. y \<in> set xs \<Longrightarrow> key y = key' y) \<Longrightarrow> kinsert key x xs = kinsert key' x xs"
  by (induction xs) auto

lemma kerase_cong: "(\<And>y. y \<in> set xs \<Longrightarrow> key y = key' y) \<Longrightarrow> kerase key k xs = kerase key' k xs"
  by (auto simp: kerase_def intro: filter_cong)

lemma ksorted_cong: "(\<And>y. y \<in> set xs \<Longrightarrow> key y = key' y) \<Longrightarrow> ksorted key xs = ksorted key' xs"
  by (induction xs) (auto simp: ksorted_Cons)

lemma set_kinsert_subset: "set (fst (kinsert key x xs)) \<subseteq> insert x (set xs)"
  by (induction xs) (auto split: prod.splits if_splits)

lemma kinsert_status [stl_simps]:
  "ksorted key xs \<Longrightarrow> snd (kinsert key x xs) \<longleftrightarrow> key x \<notin> key ` set xs"
  by (induction xs) (auto simp: ksorted_Cons split: prod.splits)

lemma set_kinsert [stl_simps]:
  "ksorted key xs \<Longrightarrow>
    set (fst (kinsert key x xs)) = (if key x \<in> key ` set xs then set xs else insert x (set xs))"
  by (induction xs) (auto simp: ksorted_Cons split: prod.splits)

lemma ksorted_kinsert [stl_simps]: "ksorted key xs \<Longrightarrow> ksorted key (fst (kinsert key x xs))"
proof (induction xs)
  case Nil
  then show ?case by (simp add: ksorted_def)
next
  case (Cons y ys)
  from Cons.prems have y: "\<forall>z\<in>set ys. key y < key z" and ys: "ksorted key ys"
    by (auto simp: ksorted_Cons)
  have "key x > key y \<Longrightarrow> \<forall>z\<in>set (fst (kinsert key x ys)). key y < key z"
    using y set_kinsert_subset [of key x ys] by auto
  with Cons.IH [OF ys] y ys show ?case
    by (cases "kinsert key x ys") (auto simp: ksorted_Cons)
qed

lemma set_kerase [stl_simps, simp]: "set (kerase key k xs) = {x \<in> set xs. key x \<noteq> k}"
  by (auto simp: kerase_def)

lemma ksorted_kerase [stl_simps]: "ksorted key xs \<Longrightarrow> ksorted key (kerase key k xs)"
  by (induction xs) (auto simp: kerase_def ksorted_Cons)

subsection \<open>std::map\<close>

type_synonym ('k, 'v) smap = "('k \<times> 'v) list"

definition map_find :: "'k \<Rightarrow> ('k, 'v) smap \<Rightarrow> 'v option" where
  "map_find k m = map_option snd (kfind fst k m)"

definition map_insert :: "'k::linorder \<Rightarrow> 'v \<Rightarrow> ('k, 'v) smap \<Rightarrow> ('k, 'v) smap" where
  "map_insert k v m = fst (kinsert fst (k, v) m)"

definition map_erase :: "'k \<Rightarrow> ('k, 'v) smap \<Rightarrow> ('k, 'v) smap" where
  "map_erase k m = kerase fst k m"

definition map_update :: "'k \<Rightarrow> ('v \<Rightarrow> 'v) \<Rightarrow> ('k, 'v) smap \<Rightarrow> ('k, 'v) smap" where
  \<comment> \<open>assignment through an iterator at key \<open>k\<close>\<close>
  "map_update k f m = map (\<lambda>(j, v). if j = k then (j, f v) else (j, v)) m"

definition msorted :: "('k::linorder, 'v) smap \<Rightarrow> bool" where
  "msorted m = ksorted fst m"

lemma msorted_Nil [simp]: "msorted []"
  by (simp add: msorted_def)

lemma map_find_Nil [simp]: "map_find k [] = None"
  by (simp add: map_find_def)

lemma map_find_Cons [simp]: "map_find k ((j, v) # m) = (if j = k then Some v else map_find k m)"
  by (simp add: map_find_def)

lemma map_find_in_set: "map_find k m = Some v \<Longrightarrow> (k, v) \<in> set m"
  by (auto simp: map_find_def dest: kfind_SomeD)

lemma map_find_iff [stl_simps]: "msorted m \<Longrightarrow> map_find k m = Some v \<longleftrightarrow> (k, v) \<in> set m"
  by (auto simp: map_find_def msorted_def kfind_Some)

lemma map_find_None: "map_find k m = None \<longleftrightarrow> k \<notin> fst ` set m"
  by (simp add: map_find_def kfind_None)

lemma msorted_Cons: "msorted ((k, v) # m) \<longleftrightarrow> (\<forall>(j, u)\<in>set m. k < j) \<and> msorted m"
  by (auto simp: msorted_def ksorted_Cons)

lemma msorted_insert [stl_simps]: "msorted m \<Longrightarrow> msorted (map_insert k v m)"
  by (simp add: msorted_def map_insert_def ksorted_kinsert)

lemma set_map_insert:
  "msorted m \<Longrightarrow>
    set (map_insert k v m) = (if map_find k m = None then insert (k, v) (set m) else set m)"
  by (simp add: map_insert_def msorted_def set_kinsert map_find_None)

lemma map_find_insert:
  assumes m: "msorted m"
  shows "map_find j (map_insert k v m) =
    (if j = k then (case map_find k m of None \<Rightarrow> Some v | Some u \<Rightarrow> Some u) else map_find j m)"
proof (cases "map_find k m")
  case None
  with m have "map_find j (map_insert k v m) = Some u \<longleftrightarrow> (j, u) \<in> insert (k, v) (set m)" for u
    by (simp add: map_find_iff msorted_insert set_map_insert)
  moreover from None have "(k, u) \<notin> set m" for u
    by (force simp: map_find_None)
  ultimately have "map_find j (map_insert k v m) = Some u \<longleftrightarrow>
      (if j = k then Some v else map_find j m) = Some u" for u
    using m by (auto simp: map_find_iff)
  with None show ?thesis by (metis not_Some_eq option.case(1))
next
  case (Some w)
  with m have "set (map_insert k v m) = set m"
    by (simp add: set_map_insert)
  with m have "map_find j (map_insert k v m) = Some u \<longleftrightarrow> map_find j m = Some u" for u
    by (simp add: map_find_iff msorted_insert set_map_insert)
  with Some show ?thesis by (metis not_Some_eq option.case(2))
qed

lemma map_find_erase: "map_find j (map_erase k m) = (if j = k then None else map_find j m)"
  by (induction m) (auto simp: map_erase_def kerase_def)

lemma msorted_erase [stl_simps]: "msorted m \<Longrightarrow> msorted (map_erase k m)"
  by (simp add: msorted_def map_erase_def ksorted_kerase)

lemma map_find_update: "map_find j (map_update k f m) = (if j = k then map_option f (map_find k m) else map_find j m)"
  by (induction m) (auto simp: map_update_def)

lemma keys_update [simp]: "map fst (map_update k f m) = map fst m"
  by (induction m) (auto simp: map_update_def)

lemma msorted_update [stl_simps]: "msorted m \<Longrightarrow> msorted (map_update k f m)"
  by (simp add: msorted_def ksorted_def)

lemma map_update_comp: "map_update k g (map_update k f m) = map_update k (\<lambda>x. g (f x)) m"
  by (induction m) (auto simp: map_update_def)

lemma map_update_id: "map_find k m = None \<Longrightarrow> map_update k f m = m"
  by (induction m) (auto simp: map_update_def split: if_splits)

lemma map_update_same: "msorted m \<Longrightarrow> map_find k m = Some v \<Longrightarrow> map_update k (\<lambda>_. v) m = m"
proof (induction m)
  case (Cons x m)
  obtain j u where x: "x = (j, u)" by (cases x)
  show ?case
  proof (cases "j = k")
    case True
    with Cons.prems(1) x have "map_find k m = None"
      by (force simp: msorted_Cons map_find_None)
    then show ?thesis
      using True Cons.prems(2) x map_update_id [of k m] by (simp add: map_update_def)
  next
    case False
    with Cons x show ?thesis by (simp add: map_update_def msorted_Cons)
  qed
qed simp

lemma keys_insert_subset: "fst ` set (map_insert k v m) \<subseteq> insert k (fst ` set m)"
  using set_kinsert_subset [of fst "(k, v)" m] by (auto simp: map_insert_def)

subsection \<open>The contract of a store that is looked up by key\<close>

locale assoc_store =
  fixes find_k :: "'k \<Rightarrow> 'c \<Rightarrow> 'v option"
    and insert_k :: "'k \<Rightarrow> 'v \<Rightarrow> 'c \<Rightarrow> 'c"
    and erase_k :: "'k \<Rightarrow> 'c \<Rightarrow> 'c"
    and update_k :: "'k \<Rightarrow> ('v \<Rightarrow> 'v) \<Rightarrow> 'c \<Rightarrow> 'c"
    and inv :: "'c \<Rightarrow> bool"
  assumes find_insert: "inv c \<Longrightarrow> find_k j (insert_k k v c) =
      (if j = k then (case find_k k c of None \<Rightarrow> Some v | Some u \<Rightarrow> Some u) else find_k j c)"
    and find_erase: "inv c \<Longrightarrow> find_k j (erase_k k c) = (if j = k then None else find_k j c)"
    and find_update: "inv c \<Longrightarrow> find_k j (update_k k f c) =
      (if j = k then map_option f (find_k k c) else find_k j c)"
    and inv_insert: "inv c \<Longrightarrow> inv (insert_k k v c)"
    and inv_erase: "inv c \<Longrightarrow> inv (erase_k k c)"
    and inv_update: "inv c \<Longrightarrow> inv (update_k k f c)"
begin

text \<open>
  Finding an entry and making it first when it is not there: the idiom of
  \<open>addCpusToTier\<close> and \<open>addNewHost\<close>.
\<close>

lemma find_insert_default:
  "inv c \<Longrightarrow> find_k k (insert_k k d c) = Some (case find_k k c of None \<Rightarrow> d | Some u \<Rightarrow> u)"
  by (simp add: find_insert split: option.split)

lemma insert_keeps: "inv c \<Longrightarrow> find_k j c = Some u \<Longrightarrow> find_k j (insert_k k v c) = Some u"
  by (auto simp: find_insert)

lemma update_insert:
  "inv c \<Longrightarrow> find_k k (update_k k f (insert_k k d c)) =
    Some (f (case find_k k c of None \<Rightarrow> d | Some u \<Rightarrow> u))"
  by (simp add: find_update inv_insert find_insert_default)

lemma update_insert_other:
  "inv c \<Longrightarrow> j \<noteq> k \<Longrightarrow> find_k j (update_k k f (insert_k k d c)) = find_k j c"
  by (simp add: find_update inv_insert find_insert)

lemma erase_insert_fresh:
  "inv c \<Longrightarrow> find_k k c = None \<Longrightarrow> find_k j (erase_k k (insert_k k v c)) = find_k j c"
  by (auto simp: find_erase inv_insert find_insert)

end

interpretation smap: assoc_store map_find map_insert map_erase map_update msorted
  by unfold_locales
    (simp_all add: map_find_insert map_find_erase map_find_update stl_simps)

lemmas smap_finds = map_find_insert map_find_erase map_find_update

subsection \<open>std::list\<close>

definition list_erase_nth :: "nat \<Rightarrow> 'a list \<Rightarrow> 'a list" where
  "list_erase_nth n xs = take n xs @ drop (Suc n) xs"

lemma length_list_erase_nth: "n < length xs \<Longrightarrow> length (list_erase_nth n xs) = length xs - 1"
  by (simp add: list_erase_nth_def)

lemma count_list_erase_nth:
  "n < length xs \<Longrightarrow> count_list (list_erase_nth n xs) y = count_list xs y - (if xs ! n = y then 1 else 0)"
  by (simp only: list_erase_nth_def count_list_take_drop)

lemma set_list_erase_nth: "set (list_erase_nth n xs) \<subseteq> set xs"
  by (simp only: list_erase_nth_def set_take_drop_subset)

end
