(* ===== verification/Dmucs_Host.thy ===== *)
theory Dmucs_Host
  imports C_Text Stl
begin

text \<open>
  \<open>dmucs_host.h\<close>, the parts of \<open>dmucs_host.cc\<close> that touch one host object only, and
  \<open>dmucs_resolve.cc\<close>: the host record, its tier as a function of its load averages, its age,
  and its name.  \<open>env\<close> is what the outside world answers while one request is handled: the
  clock, \<open>random()\<close>, the name service and the hosts-info file.
\<close>

record env =
  now :: int                                         \<comment> \<open>\<open>time(0)\<close>\<close>
  rnd :: nat                                         \<comment> \<open>\<open>random()\<close>\<close>
  gethostbyaddr :: "nat \<Rightarrow> ip \<Rightarrow> (string \<times> ip) option"
                                                     \<comment> \<open>given the length; \<open>h_name\<close>, \<open>h_addr_list[0]\<close>\<close>
  gethostbyname :: "string \<Rightarrow> (string \<times> ip) option"
  hosts_text :: "string option"                      \<comment> \<open>the hosts-info file; \<open>None\<close>: it cannot be opened\<close>
  hosts_ctime :: "int option"                        \<comment> \<open>its \<open>st_ctime\<close>; \<open>None\<close>: \<open>stat\<close> fails\<close>

datatype host_status_t =
    STATUS_UNKNOWN | STATUS_AVAILABLE | STATUS_UNAVAILABLE | STATUS_OVERLOADED | STATUS_SILENT

fun status_int :: "host_status_t \<Rightarrow> int" where
  "status_int STATUS_UNKNOWN = 0"
| "status_int STATUS_AVAILABLE = 1"
| "status_int STATUS_UNAVAILABLE = 2"
| "status_int STATUS_OVERLOADED = 3"
| "status_int STATUS_SILENT = 4"

text \<open>The four singletons a host's \<open>state_\<close> pointer can point to.\<close>

datatype DmucsHostState = StateAvail | StateUnavail | StateSilent | StateOverloaded

fun state_asInt :: "DmucsHostState \<Rightarrow> host_status_t" where
  "state_asInt StateAvail = STATUS_AVAILABLE"
| "state_asInt StateUnavail = STATUS_UNAVAILABLE"
| "state_asInt StateSilent = STATUS_SILENT"
| "state_asInt StateOverloaded = STATUS_OVERLOADED"

record host =
  h_state :: DmucsHostState
  h_ip :: ip
  h_dprop :: dprop
  h_name :: string
  h_ncpus :: int
  h_pindex :: int
  h_ldavg1 :: cfloat
  h_ldavg5 :: cfloat
  h_ldavg10 :: cfloat
  h_lastUpdate :: int

definition DMUCS_HOST_SILENT_TIME :: int where
  "DMUCS_HOST_SILENT_TIME = 60"

definition DmucsHost_new :: "ip \<Rightarrow> dprop \<Rightarrow> int \<Rightarrow> int \<Rightarrow> host" where
  "DmucsHost_new ip d numCpus powerIndex =
     \<lparr>h_state = StateAvail, h_ip = ip, h_dprop = d, h_name = '''', h_ncpus = numCpus,
      h_pindex = powerIndex, h_ldavg1 = Fin 0, h_ldavg5 = Fin 0, h_ldavg10 = Fin 0,
      h_lastUpdate = 0\<rparr>"

definition calcTier :: "cfloat \<Rightarrow> cfloat \<Rightarrow> cfloat \<Rightarrow> int \<Rightarrow> int" where
  "calcTier ldavg1 ldavg5 ldavg10 pindex =
     (if fless ldavg1 (to_double (9/10)) then pindex
      else if fless ldavg5 (to_double (7/10)) then pindex
      else if fless ldavg10 (to_double (8/10)) then pindex - 1
      else 0)"

definition getTier :: "host \<Rightarrow> int" where
  "getTier h = calcTier (h_ldavg1 h) (h_ldavg5 h) (h_ldavg10 h) (h_pindex h)"

definition getStateAsInt :: "host \<Rightarrow> host_status_t" where
  "getStateAsInt h = state_asInt (h_state h)"

definition seemsDown :: "int \<Rightarrow> host \<Rightarrow> bool" where
  "seemsDown t h = (DMUCS_HOST_SILENT_TIME < t - h_lastUpdate h)"

definition isUnavailable :: "host \<Rightarrow> bool" where
  "isUnavailable h = (state_asInt (h_state h) = STATUS_UNAVAILABLE)"

definition isSilent :: "host \<Rightarrow> bool" where
  "isSilent h = (state_asInt (h_state h) = STATUS_SILENT)"

definition isOverloaded :: "host \<Rightarrow> bool" where
  "isOverloaded h = (state_asInt (h_state h) = STATUS_OVERLOADED)"

definition getHostName :: "env \<Rightarrow> ip \<Rightarrow> string" where
  \<comment> \<open>the name is copied through a buffer of 128 characters\<close>
  "getHostName e ip = (case gethostbyaddr e 4 ip of None \<Rightarrow> inet_ntoa ip | Some (nm, _) \<Rightarrow> take 127 nm)"

definition DmucsHost_getName :: "env \<Rightarrow> host \<Rightarrow> string \<times> host" where
  \<comment> \<open>the resolved name is kept in the host object\<close>
  "DmucsHost_getName e h =
     (if h_name h \<noteq> '''' then (h_name h, h)
      else (let nm = getHostName e (h_ip h) in (nm, h\<lparr>h_name := nm\<rparr>)))"

subsection \<open>Tiers\<close>

lemma calcTier_range: "calcTier a b c p \<in> {p, p - 1, 0}"
  by (simp add: calcTier_def)

lemma calcTier_NaN: "calcTier NaN NaN NaN p = 0"
  by (simp add: calcTier_def)

text \<open>A load that grows never raises the tier of a host with a positive power index.\<close>

lemma calcTier_antimono:
  assumes "0 < p"
    and "\<not> fless a' a" and "\<not> fless b' b" and "\<not> fless c' c"
    and "a \<noteq> NaN" and "b \<noteq> NaN" and "c \<noteq> NaN"
  shows "calcTier a' b' c' p \<le> calcTier a b c p"
proof -
  have keep: "fless x k" if "fless x' k" "\<not> fless x' x" "x \<noteq> NaN" for x x' k
    using that by (cases x; cases x'; cases k) auto
  show ?thesis
    using assms by (auto simp: calcTier_def dest: keep)
qed

lemma getTier_new [simp]: "getTier (DmucsHost_new ip d n p) = p"
proof -
  have "to_double (9/10) = Fin (8106479329266893 / 9007199254740992)"
    by code_simp
  then show ?thesis by (simp add: getTier_def calcTier_def DmucsHost_new_def)
qed

lemma DmucsHost_new_simps [simp]:
  "h_state (DmucsHost_new ip d n p) = StateAvail" "h_ip (DmucsHost_new ip d n p) = ip"
  "h_dprop (DmucsHost_new ip d n p) = d" "h_ncpus (DmucsHost_new ip d n p) = n"
  "h_lastUpdate (DmucsHost_new ip d n p) = 0"
  by (simp_all add: DmucsHost_new_def)

text \<open>Looking a name up changes nothing but the cached name.\<close>

lemma getName_frame [frame_simps]:
  "h_state (snd (DmucsHost_getName e h)) = h_state h"
  "h_ip (snd (DmucsHost_getName e h)) = h_ip h"
  "h_dprop (snd (DmucsHost_getName e h)) = h_dprop h"
  "h_ncpus (snd (DmucsHost_getName e h)) = h_ncpus h"
  "getTier (snd (DmucsHost_getName e h)) = getTier h"
  "h_lastUpdate (snd (DmucsHost_getName e h)) = h_lastUpdate h"
  by (simp_all add: DmucsHost_getName_def Let_def getTier_def)

lemma getName_idem:
  "fst (DmucsHost_getName e h) \<noteq> '''' \<Longrightarrow>
    DmucsHost_getName e' (snd (DmucsHost_getName e h)) = DmucsHost_getName e h"
  by (auto simp: DmucsHost_getName_def Let_def)

end
