(* ===== verification/Dmucs_Db.thy ===== *)
theory Dmucs_Db
  imports Dmucs_Host
begin

text \<open>
  \<open>dmucs_db.h\<close> and \<open>dmucs_db.cc\<close>: the database of one distinguishing property
  (\<open>DmucsDpropDb\<close>) and the database of databases (\<open>DmucsDb\<close>).

  Host objects are shared by the sets that point to them, so they live in a store (\<open>hosts\<close>),
  and a host set is the list of pointers an iterator visits, in the order of the addresses of the
  hosts pointed to.  A call through an iterator that may be \<open>end()\<close> (\<open>dbDb_.find(d)->second\<close>)
  is \<open>None\<close> when the key is missing.  Every method of \<open>DmucsDb\<close> but \<open>releaseCpu\<close>
  runs under the recursive mutex, so a method is one atomic step.
\<close>

datatype exn = DmucsNoMoreHosts | DmucsHostNotFound

record dprop_db =
  db_dprop :: dprop
  allHosts :: "hptr list"
  availHosts :: "hptr list"
  unavailHosts :: "hptr list"
  silentHosts :: "hptr list"
  overloadedHosts :: "hptr list"
  availCpus :: "(int, ip list) smap"
  assignedCpus :: "(sock, ip) smap"
  numAssignedCpus :: int
  numConcurrentAssigned :: int

record world =
  hosts :: "hptr \<Rightarrow> host"
  nexthost :: hptr
  dbDb :: "(dprop, dprop_db) smap"
  sock2DpropDb :: "(sock, dprop) smap"

definition DpropDb_new :: "dprop \<Rightarrow> dprop_db" where
  "DpropDb_new d = \<lparr>db_dprop = d, allHosts = [], availHosts = [], unavailHosts = [],
     silentHosts = [], overloadedHosts = [], availCpus = [], assignedCpus = [],
     numAssignedCpus = 0, numConcurrentAssigned = 0\<rparr>"

definition DmucsDb_new :: world where
  "DmucsDb_new = \<lparr>hosts = (\<lambda>_. DmucsHost_new 0 '''' 0 0), nexthost = 0, dbDb = [], sock2DpropDb = []\<rparr>"

subsection \<open>DmucsDpropDb\<close>

text \<open>\<open>DmucsHostCompare\<close> orders the pointers of a host set by the addresses of the hosts.\<close>

definition host_key :: "(hptr \<Rightarrow> host) \<Rightarrow> hptr \<Rightarrow> ip" where
  "host_key H p = h_ip (H p)"

definition DpropDb_getHost :: "(hptr \<Rightarrow> host) \<Rightarrow> ip \<Rightarrow> dprop_db \<Rightarrow> exn + hptr" where
  "DpropDb_getHost H ip db = (case kfind (host_key H) ip (allHosts db) of
     None \<Rightarrow> Inl DmucsHostNotFound | Some p \<Rightarrow> Inr p)"

definition DpropDb_haveHost :: "(hptr \<Rightarrow> host) \<Rightarrow> ip \<Rightarrow> dprop_db \<Rightarrow> bool" where
  "DpropDb_haveHost H ip db = (kfind (host_key H) ip (allHosts db) \<noteq> None)"

fun best_tier :: "nat \<Rightarrow> (int \<times> ip list) list \<Rightarrow> (int \<times> nat \<times> ip) option" where
  \<comment> \<open>the loop over \<open>availCpus_\<close> from its end: the tier, the index drawn and the address there\<close>
  "best_tier r [] = None"
| "best_tier r ((t, cpus) # rest) =
     (if cpus = [] then best_tier r rest
      else (let n = r mod length cpus in Some (t, n, cpus ! n)))"

definition DpropDb_getBestAvailCpu :: "nat \<Rightarrow> dprop_db \<Rightarrow> (exn + ip) \<times> dprop_db" where
  "DpropDb_getBestAvailCpu r db = (case best_tier r (rev (availCpus db)) of
     None \<Rightarrow> (Inl DmucsNoMoreHosts, db)
   | Some (t, n, result) \<Rightarrow>
       (Inr result, db\<lparr>availCpus := map_update t (list_erase_nth n) (availCpus db)\<rparr>))"

definition DpropDb_assignCpuToClient :: "ip \<Rightarrow> sock \<Rightarrow> dprop_db \<Rightarrow> dprop_db" where
  "DpropDb_assignCpuToClient hostIp sk db =
     (let a = map_insert sk hostIp (assignedCpus db); t = int (length a)
      in db\<lparr>assignedCpus := a, numAssignedCpus := numAssignedCpus db + 1,
            numConcurrentAssigned :=
              (if numConcurrentAssigned db < t then t else numConcurrentAssigned db)\<rparr>)"

definition addToHostSet :: "(hptr \<Rightarrow> host) \<Rightarrow> hptr \<Rightarrow> hptr list \<Rightarrow> hptr list" where
  "addToHostSet H p S = fst (kinsert (host_key H) p S)"

definition delFromHostSet :: "(hptr \<Rightarrow> host) \<Rightarrow> hptr \<Rightarrow> hptr list \<Rightarrow> hptr list" where
  "delFromHostSet H p S =
     (if kfind (host_key H) (host_key H p) S = None then S
      else kerase (host_key H) (host_key H p) S)"

definition addCpusToTier :: "int \<Rightarrow> ip \<Rightarrow> int \<Rightarrow> dprop_db \<Rightarrow> dprop_db option" where
  \<comment> \<open>a negative count becomes a huge \<open>size_type\<close>, which the list cannot allocate\<close>
  "addCpusToTier tierNum ip numCpus db =
     (let m = (case map_find tierNum (availCpus db) of
                 None \<Rightarrow> map_insert tierNum [] (availCpus db) | Some _ \<Rightarrow> availCpus db)
      in if numCpus < 0 then None
         else Some (db\<lparr>availCpus :=
           map_update tierNum (\<lambda>l. l @ replicate (nat numCpus) ip) m\<rparr>))"

fun erase_cpus :: "ip \<Rightarrow> ip list \<Rightarrow> ip list \<times> int" where
  \<comment> \<open>the loop of \<open>delCpusFromTier\<close>\<close>
  "erase_cpus ip [] = ([], 0)"
| "erase_cpus ip (x # xs) = (case erase_cpus ip xs of (ys, n) \<Rightarrow>
     if x = ip then (ys, n + 1) else (x # ys, n))"

definition DpropDb_delCpusFromTier :: "int \<Rightarrow> ip \<Rightarrow> dprop_db \<Rightarrow> int \<times> dprop_db" where
  "DpropDb_delCpusFromTier tier ip db = (case map_find tier (availCpus db) of
     None \<Rightarrow> (0, db)
   | Some l \<Rightarrow> (snd (erase_cpus ip l),
       db\<lparr>availCpus := map_update tier (\<lambda>l. fst (erase_cpus ip l)) (availCpus db)\<rparr>))"

definition DpropDb_moveCpus :: "(hptr \<Rightarrow> host) \<Rightarrow> hptr \<Rightarrow> int \<Rightarrow> int \<Rightarrow> dprop_db \<Rightarrow> dprop_db option" where
  "DpropDb_moveCpus H p oldTier newTier db =
     (case DpropDb_delCpusFromTier oldTier (h_ip (H p)) db of (numCpusDel, db') \<Rightarrow>
        addCpusToTier newTier (h_ip (H p)) numCpusDel db')"

definition DpropDb_addToAvailDb :: "(hptr \<Rightarrow> host) \<Rightarrow> hptr \<Rightarrow> dprop_db \<Rightarrow> dprop_db option" where
  "DpropDb_addToAvailDb H p db =
     addCpusToTier (getTier (H p)) (h_ip (H p)) (h_ncpus (H p))
       (db\<lparr>availHosts := addToHostSet H p (availHosts db)\<rparr>)"

definition DpropDb_delFromAvailDb :: "(hptr \<Rightarrow> host) \<Rightarrow> hptr \<Rightarrow> dprop_db \<Rightarrow> dprop_db option" where
  "DpropDb_delFromAvailDb H p db = (case map_find (getTier (H p)) (availCpus db) of
     None \<Rightarrow> Some db
   | Some _ \<Rightarrow> Some (db\<lparr>
       availCpus := map_update (getTier (H p)) (removeAll (h_ip (H p))) (availCpus db),
       availHosts := delFromHostSet H p (availHosts db)\<rparr>))"

definition DpropDb_addToOverloadedDb :: "(hptr \<Rightarrow> host) \<Rightarrow> hptr \<Rightarrow> dprop_db \<Rightarrow> dprop_db option" where
  "DpropDb_addToOverloadedDb H p db = Some (db\<lparr>overloadedHosts := addToHostSet H p (overloadedHosts db)\<rparr>)"

definition DpropDb_delFromOverloadedDb :: "(hptr \<Rightarrow> host) \<Rightarrow> hptr \<Rightarrow> dprop_db \<Rightarrow> dprop_db option" where
  "DpropDb_delFromOverloadedDb H p db = Some (db\<lparr>overloadedHosts := delFromHostSet H p (overloadedHosts db)\<rparr>)"

definition DpropDb_addToSilentDb :: "(hptr \<Rightarrow> host) \<Rightarrow> hptr \<Rightarrow> dprop_db \<Rightarrow> dprop_db option" where
  "DpropDb_addToSilentDb H p db = Some (db\<lparr>silentHosts := addToHostSet H p (silentHosts db)\<rparr>)"

definition DpropDb_delFromSilentDb :: "(hptr \<Rightarrow> host) \<Rightarrow> hptr \<Rightarrow> dprop_db \<Rightarrow> dprop_db option" where
  "DpropDb_delFromSilentDb H p db = Some (db\<lparr>silentHosts := delFromHostSet H p (silentHosts db)\<rparr>)"

definition DpropDb_addToUnavailDb :: "(hptr \<Rightarrow> host) \<Rightarrow> hptr \<Rightarrow> dprop_db \<Rightarrow> dprop_db option" where
  "DpropDb_addToUnavailDb H p db = Some (db\<lparr>unavailHosts := addToHostSet H p (unavailHosts db)\<rparr>)"

definition DpropDb_delFromUnavailDb :: "(hptr \<Rightarrow> host) \<Rightarrow> hptr \<Rightarrow> dprop_db \<Rightarrow> dprop_db option" where
  "DpropDb_delFromUnavailDb H p db = Some (db\<lparr>unavailHosts := delFromHostSet H p (unavailHosts db)\<rparr>)"

definition DpropDb_addNewHost :: "(hptr \<Rightarrow> host) \<Rightarrow> hptr \<Rightarrow> dprop_db \<Rightarrow> dprop_db option" where
  "DpropDb_addNewHost H p db =
     DpropDb_addToAvailDb H p (db\<lparr>allHosts := addToHostSet H p (allHosts db)\<rparr>)"

definition DpropDb_releaseCpu ::
    "env \<Rightarrow> sock \<Rightarrow> (hptr \<Rightarrow> host) \<Rightarrow> dprop_db \<Rightarrow> ((hptr \<Rightarrow> host) \<times> dprop_db) option" where
  "DpropDb_releaseCpu e sk H db = (case map_find sk (assignedCpus db) of
     None \<Rightarrow> Some (H, db)
   | Some hostIp \<Rightarrow>
       (let db1 = db\<lparr>assignedCpus := map_erase sk (assignedCpus db)\<rparr>
        in case DpropDb_getHost H hostIp db1 of
             Inl _ \<Rightarrow> Some (H, db1)
           | Inr p \<Rightarrow>
               (let H1 = H(p := snd (DmucsHost_getName e (H p)))
                in if getStateAsInt (H1 p) = STATUS_AVAILABLE
                   then map_option (Pair H1) (addCpusToTier (getTier (H1 p)) hostIp 1 db1)
                   else Some (H1, db1))))"

definition DpropDb_getStatsFromDb :: "dprop_db \<Rightarrow> (int \<times> int \<times> int) \<times> dprop_db" where
  "DpropDb_getStatsFromDb db =
     ((numAssignedCpus db, numConcurrentAssigned db,
       sum_list (map (\<lambda>(t, l). int (length l)) (availCpus db)) + int (length (assignedCpus db))),
      db\<lparr>numAssignedCpus := 0, numConcurrentAssigned := 0\<rparr>)"

subsection \<open>DmucsDb\<close>

definition on_db :: "dprop \<Rightarrow> (dprop_db \<Rightarrow> dprop_db option) \<Rightarrow> world \<Rightarrow> world option" where
  \<comment> \<open>\<open>dbDb_.find(d)->second.f(...)\<close>\<close>
  "on_db d f w = do {
     db \<leftarrow> map_find d (dbDb w);
     db' \<leftarrow> f db;
     Some (w\<lparr>dbDb := map_update d (\<lambda>_. db') (dbDb w)\<rparr>) }"

definition DmucsDb_getHost :: "ip \<Rightarrow> dprop \<Rightarrow> world \<Rightarrow> exn + hptr" where
  "DmucsDb_getHost ip d w = (case map_find d (dbDb w) of
     None \<Rightarrow> Inl DmucsHostNotFound | Some db \<Rightarrow> DpropDb_getHost (hosts w) ip db)"

definition DmucsDb_haveHost :: "ip \<Rightarrow> dprop \<Rightarrow> world \<Rightarrow> bool" where
  "DmucsDb_haveHost ip d w = (case map_find d (dbDb w) of
     None \<Rightarrow> False | Some db \<Rightarrow> DpropDb_haveHost (hosts w) ip db)"

definition DmucsDb_getBestAvailCpu :: "nat \<Rightarrow> dprop \<Rightarrow> world \<Rightarrow> (exn + ip) \<times> world" where
  "DmucsDb_getBestAvailCpu r d w = (case map_find d (dbDb w) of
     None \<Rightarrow> (Inr 0, w)
   | Some db \<Rightarrow> (case DpropDb_getBestAvailCpu r db of (res, db') \<Rightarrow>
       (res, w\<lparr>dbDb := map_update d (\<lambda>_. db') (dbDb w)\<rparr>)))"

definition DmucsDb_assignCpuToClient :: "ip \<Rightarrow> dprop \<Rightarrow> sock \<Rightarrow> world \<Rightarrow> world option" where
  "DmucsDb_assignCpuToClient clientIp d sk w =
     on_db d (\<lambda>db. Some (DpropDb_assignCpuToClient clientIp sk db))
       (w\<lparr>sock2DpropDb := map_insert sk d (sock2DpropDb w)\<rparr>)"

definition DmucsDb_releaseCpu :: "env \<Rightarrow> sock \<Rightarrow> world \<Rightarrow> world option" where
  "DmucsDb_releaseCpu e sk w = (case map_find sk (sock2DpropDb w) of
     None \<Rightarrow> Some w
   | Some d \<Rightarrow> do {
       let w1 = w\<lparr>sock2DpropDb := map_erase sk (sock2DpropDb w)\<rparr>;
       db \<leftarrow> map_find d (dbDb w1);
       (H', db') \<leftarrow> DpropDb_releaseCpu e sk (hosts w1) db;
       Some (w1\<lparr>hosts := H', dbDb := map_update d (\<lambda>_. db') (dbDb w1)\<rparr>) })"

definition DmucsDb_moveCpus :: "hptr \<Rightarrow> int \<Rightarrow> int \<Rightarrow> world \<Rightarrow> world option" where
  "DmucsDb_moveCpus p oldTier newTier w =
     on_db (h_dprop (hosts w p)) (DpropDb_moveCpus (hosts w) p oldTier newTier) w"

definition DmucsDb_delCpusFromTier :: "hptr \<Rightarrow> int \<Rightarrow> ip \<Rightarrow> world \<Rightarrow> world option" where
  \<comment> \<open>the callers of this method drop the count it returns\<close>
  "DmucsDb_delCpusFromTier p tier ip w =
     on_db (h_dprop (hosts w p)) (\<lambda>db. Some (snd (DpropDb_delCpusFromTier tier ip db))) w"

definition DmucsDb_addNewHost :: "hptr \<Rightarrow> world \<Rightarrow> world option" where
  "DmucsDb_addNewHost p w =
     (let d = h_dprop (hosts w p);
          w1 = (case map_find d (dbDb w) of
                  None \<Rightarrow> w\<lparr>dbDb := map_insert d (DpropDb_new d) (dbDb w)\<rparr> | Some _ \<Rightarrow> w)
      in on_db d (DpropDb_addNewHost (hosts w1) p) w1)"

definition DmucsDb_addToAvailDb :: "hptr \<Rightarrow> world \<Rightarrow> world option" where
  "DmucsDb_addToAvailDb p w = on_db (h_dprop (hosts w p)) (DpropDb_addToAvailDb (hosts w) p) w"

definition DmucsDb_delFromAvailDb :: "hptr \<Rightarrow> world \<Rightarrow> world option" where
  "DmucsDb_delFromAvailDb p w = on_db (h_dprop (hosts w p)) (DpropDb_delFromAvailDb (hosts w) p) w"

definition DmucsDb_addToOverloadedDb :: "hptr \<Rightarrow> world \<Rightarrow> world option" where
  "DmucsDb_addToOverloadedDb p w = on_db (h_dprop (hosts w p)) (DpropDb_addToOverloadedDb (hosts w) p) w"

definition DmucsDb_delFromOverloadedDb :: "hptr \<Rightarrow> world \<Rightarrow> world option" where
  "DmucsDb_delFromOverloadedDb p w = on_db (h_dprop (hosts w p)) (DpropDb_delFromOverloadedDb (hosts w) p) w"

definition DmucsDb_addToSilentDb :: "hptr \<Rightarrow> world \<Rightarrow> world option" where
  "DmucsDb_addToSilentDb p w = on_db (h_dprop (hosts w p)) (DpropDb_addToSilentDb (hosts w) p) w"

definition DmucsDb_delFromSilentDb :: "hptr \<Rightarrow> world \<Rightarrow> world option" where
  "DmucsDb_delFromSilentDb p w = on_db (h_dprop (hosts w p)) (DpropDb_delFromSilentDb (hosts w) p) w"

definition DmucsDb_addToUnavailDb :: "hptr \<Rightarrow> world \<Rightarrow> world option" where
  "DmucsDb_addToUnavailDb p w = on_db (h_dprop (hosts w p)) (DpropDb_addToUnavailDb (hosts w) p) w"

definition DmucsDb_delFromUnavailDb :: "hptr \<Rightarrow> world \<Rightarrow> world option" where
  "DmucsDb_delFromUnavailDb p w = on_db (h_dprop (hosts w p)) (DpropDb_delFromUnavailDb (hosts w) p) w"

fun stats_loop :: "(dprop, dprop_db) smap \<Rightarrow> (int \<times> int \<times> int) \<times> (dprop, dprop_db) smap" where
  "stats_loop [] = ((0, 0, 0), [])"
| "stats_loop ((d, db) # m) =
     (case DpropDb_getStatsFromDb db of ((s, x, t), db') \<Rightarrow>
      case stats_loop m of ((s', x', t'), m') \<Rightarrow> ((s + s', x + x', t + t'), (d, db') # m'))"

definition DmucsDb_getStatsFromDb :: "world \<Rightarrow> (int \<times> int \<times> int) \<times> world" where
  "DmucsDb_getStatsFromDb w = (case stats_loop (dbDb w) of (r, m) \<Rightarrow> (r, w\<lparr>dbDb := m\<rparr>))"

end
