(* ===== verification/Dmucs_Host_State.thy ===== *)
theory Dmucs_Host_State
  imports Dmucs_Db
begin

text \<open>
  \<open>dmucs_host_state.cc\<close>: the four states of a host, each with the events it reacts to (an event
  a class does not override is the empty method of the base class), and the methods of
  \<open>DmucsHost\<close> and \<open>DmucsDpropDb\<close> that go through them: \<open>avail\<close>, \<open>unavail\<close>,
  \<open>silent\<close>, \<open>overloaded\<close>, \<open>changeState\<close>, \<open>updateTier\<close> and the sweep for
  silent hosts.  States and databases call each other, so these methods take and return the world.
\<close>

definition upd_host :: "hptr \<Rightarrow> (host \<Rightarrow> host) \<Rightarrow> world \<Rightarrow> world" where
  "upd_host p f w = w\<lparr>hosts := (hosts w)(p := f (hosts w p))\<rparr>"

subsection \<open>addToDb and removeFromDb of each state\<close>

definition StateAvail_addToDb :: "hptr \<Rightarrow> world \<Rightarrow> world option" where [simp]:
  "StateAvail_addToDb = DmucsDb_addToAvailDb"

definition StateAvail_removeFromDb :: "hptr \<Rightarrow> world \<Rightarrow> world option" where [simp]:
  "StateAvail_removeFromDb = DmucsDb_delFromAvailDb"

definition StateUnavail_addToDb :: "hptr \<Rightarrow> world \<Rightarrow> world option" where [simp]:
  "StateUnavail_addToDb = DmucsDb_addToUnavailDb"

definition StateUnavail_removeFromDb :: "hptr \<Rightarrow> world \<Rightarrow> world option" where [simp]:
  "StateUnavail_removeFromDb = DmucsDb_delFromUnavailDb"

definition StateSilent_addToDb :: "hptr \<Rightarrow> world \<Rightarrow> world option" where [simp]:
  "StateSilent_addToDb = DmucsDb_addToSilentDb"

definition StateSilent_removeFromDb :: "hptr \<Rightarrow> world \<Rightarrow> world option" where [simp]:
  "StateSilent_removeFromDb = DmucsDb_delFromSilentDb"

definition StateOverloaded_addToDb :: "hptr \<Rightarrow> world \<Rightarrow> world option" where [simp]:
  "StateOverloaded_addToDb = DmucsDb_addToOverloadedDb"

definition StateOverloaded_removeFromDb :: "hptr \<Rightarrow> world \<Rightarrow> world option" where [simp]:
  "StateOverloaded_removeFromDb = DmucsDb_delFromOverloadedDb"

text \<open>The virtual calls \<open>state_->addToDb(this)\<close> and \<open>removeFromDb(host)\<close>.\<close>

fun addToDb :: "DmucsHostState \<Rightarrow> hptr \<Rightarrow> world \<Rightarrow> world option" where
  "addToDb StateAvail p w = StateAvail_addToDb p w"
| "addToDb StateUnavail p w = StateUnavail_addToDb p w"
| "addToDb StateSilent p w = StateSilent_addToDb p w"
| "addToDb StateOverloaded p w = StateOverloaded_addToDb p w"

fun removeFromDb :: "DmucsHostState \<Rightarrow> hptr \<Rightarrow> world \<Rightarrow> world option" where
  "removeFromDb StateAvail p w = StateAvail_removeFromDb p w"
| "removeFromDb StateUnavail p w = StateUnavail_removeFromDb p w"
| "removeFromDb StateSilent p w = StateSilent_removeFromDb p w"
| "removeFromDb StateOverloaded p w = StateOverloaded_removeFromDb p w"

definition changeState :: "hptr \<Rightarrow> DmucsHostState \<Rightarrow> world \<Rightarrow> world option" where
  "changeState p st w = addToDb st p (upd_host p (h_state_update (\<lambda>_. st)) w)"

subsection \<open>The events of each state\<close>

definition StateAvail_unavail :: "hptr \<Rightarrow> world \<Rightarrow> world option" where
  "StateAvail_unavail p w = do {
     w1 \<leftarrow> DmucsDb_delCpusFromTier p (getTier (hosts w p)) (h_ip (hosts w p)) w;
     w2 \<leftarrow> removeFromDb StateAvail p w1;
     changeState p StateUnavail w2 }"

definition StateAvail_silent :: "hptr \<Rightarrow> world \<Rightarrow> world option" where
  "StateAvail_silent p w = do {
     w1 \<leftarrow> DmucsDb_delCpusFromTier p (getTier (hosts w p)) (h_ip (hosts w p)) w;
     w2 \<leftarrow> removeFromDb StateAvail p w1;
     changeState p StateSilent w2 }"

definition StateAvail_overloaded :: "hptr \<Rightarrow> world \<Rightarrow> world option" where
  "StateAvail_overloaded p w = do {
     w1 \<leftarrow> DmucsDb_delCpusFromTier p (getTier (hosts w p)) (h_ip (hosts w p)) w;
     w2 \<leftarrow> removeFromDb StateAvail p w1;
     changeState p StateOverloaded w2 }"

definition StateUnavail_avail :: "hptr \<Rightarrow> world \<Rightarrow> world option" where
  "StateUnavail_avail p w = do {
     w1 \<leftarrow> removeFromDb StateUnavail p w;
     let tier = getTier (hosts w1 p);
     if tier = 0 then changeState p StateOverloaded w1 else changeState p StateAvail w1 }"

definition StateSilent_avail :: "hptr \<Rightarrow> world \<Rightarrow> world option" where
  "StateSilent_avail p w = do {
     w1 \<leftarrow> removeFromDb StateSilent p w;
     changeState p StateAvail w1 }"

definition StateSilent_unavail :: "hptr \<Rightarrow> world \<Rightarrow> world option" where
  "StateSilent_unavail p w = do {
     w1 \<leftarrow> removeFromDb StateSilent p w;
     changeState p StateUnavail w1 }"

definition StateOverloaded_avail :: "hptr \<Rightarrow> world \<Rightarrow> world option" where
  "StateOverloaded_avail p w = do {
     w1 \<leftarrow> removeFromDb StateOverloaded p w;
     changeState p StateAvail w1 }"

definition StateOverloaded_unavail :: "hptr \<Rightarrow> world \<Rightarrow> world option" where
  "StateOverloaded_unavail p w = do {
     w1 \<leftarrow> removeFromDb StateOverloaded p w;
     changeState p StateUnavail w1 }"

definition StateOverloaded_silent :: "hptr \<Rightarrow> world \<Rightarrow> world option" where
  "StateOverloaded_silent p w = do {
     w1 \<leftarrow> removeFromDb StateOverloaded p w;
     changeState p StateSilent w1 }"

subsection \<open>DmucsHost\<close>

definition DmucsHost_avail :: "hptr \<Rightarrow> world \<Rightarrow> world option" where
  "DmucsHost_avail p w = (case h_state (hosts w p) of
     StateAvail \<Rightarrow> Some w
   | StateUnavail \<Rightarrow> StateUnavail_avail p w
   | StateSilent \<Rightarrow> StateSilent_avail p w
   | StateOverloaded \<Rightarrow> StateOverloaded_avail p w)"

definition DmucsHost_unavail :: "hptr \<Rightarrow> world \<Rightarrow> world option" where
  "DmucsHost_unavail p w = (case h_state (hosts w p) of
     StateAvail \<Rightarrow> StateAvail_unavail p w
   | StateUnavail \<Rightarrow> Some w
   | StateSilent \<Rightarrow> StateSilent_unavail p w
   | StateOverloaded \<Rightarrow> StateOverloaded_unavail p w)"

definition DmucsHost_silent :: "hptr \<Rightarrow> world \<Rightarrow> world option" where
  "DmucsHost_silent p w = (case h_state (hosts w p) of
     StateAvail \<Rightarrow> StateAvail_silent p w
   | StateUnavail \<Rightarrow> Some w
   | StateSilent \<Rightarrow> Some w
   | StateOverloaded \<Rightarrow> StateOverloaded_silent p w)"

definition DmucsHost_overloaded :: "hptr \<Rightarrow> world \<Rightarrow> world option" where
  "DmucsHost_overloaded p w = (case h_state (hosts w p) of
     StateAvail \<Rightarrow> StateAvail_overloaded p w
   | StateUnavail \<Rightarrow> Some w
   | StateSilent \<Rightarrow> Some w
   | StateOverloaded \<Rightarrow> Some w)"

definition set_ldavgs :: "cfloat \<Rightarrow> cfloat \<Rightarrow> cfloat \<Rightarrow> host \<Rightarrow> host" where
  "set_ldavgs a b c h = h\<lparr>h_ldavg1 := a, h_ldavg5 := b, h_ldavg10 := c\<rparr>"

definition updateTier :: "int \<Rightarrow> hptr \<Rightarrow> cfloat \<Rightarrow> cfloat \<Rightarrow> cfloat \<Rightarrow> world \<Rightarrow> world option" where
  "updateTier t p ldAvg1 ldAvg5 ldAvg10 w =
     (let h = hosts w p;
          n = float_of_int (h_ncpus h);
          a = fdiv ldAvg1 n; b = fdiv ldAvg5 n; c = fdiv ldAvg10 n;
          newTier = calcTier a b c (h_pindex h);
          oldTier = getTier h
      in do {
        w1 \<leftarrow> (if newTier \<noteq> oldTier then
                 (if newTier = 0 then
                    map_option (upd_host p (set_ldavgs a b c)) (DmucsHost_overloaded p w)
                  else map_option (upd_host p (set_ldavgs a b c)) (DmucsDb_moveCpus p oldTier newTier w))
               else Some (upd_host p (set_ldavgs a b c) w));
        Some (upd_host p (h_lastUpdate_update (\<lambda>_. t)) w1) })"

subsection \<open>The sweep for silent hosts\<close>

fun silent_loop :: "int \<Rightarrow> hptr list \<Rightarrow> world \<Rightarrow> world option" where
  "silent_loop t [] w = Some w"
| "silent_loop t (p # ps) w =
     (if seemsDown t (hosts w p)
      then Option.bind (DmucsHost_silent p w) (silent_loop t ps)
      else silent_loop t ps w)"

definition DpropDb_handleSilentHosts :: "int \<Rightarrow> dprop \<Rightarrow> world \<Rightarrow> world option" where
  "DpropDb_handleSilentHosts t d w = do {
     db \<leftarrow> map_find d (dbDb w);
     silent_loop t (allHosts db) w }"

fun sweep_loop :: "int \<Rightarrow> dprop list \<Rightarrow> world \<Rightarrow> world option" where
  "sweep_loop t [] w = Some w"
| "sweep_loop t (d # ds) w = Option.bind (DpropDb_handleSilentHosts t d w) (sweep_loop t ds)"

definition DmucsDb_handleSilentHosts :: "int \<Rightarrow> world \<Rightarrow> world option" where
  "DmucsDb_handleSilentHosts t w = sweep_loop t (map fst (dbDb w)) w"

end
