(* ===== verification/Dmucs_Db_Inv.thy ===== *)
theory Dmucs_Db_Inv
  imports Dmucs_Host_State
begin

text \<open>
  The invariant of the databases and the proof that the operations of \<open>Dmucs_Db\<close> and
  \<open>Dmucs_Host_State\<close> keep it.

  \<open>dinv X H n d db\<close>: in the database \<open>db\<close> of property \<open>d\<close>, with the host objects
  \<open>H\<close>, every set is in order, the four state sets divide the known hosts by their state, every
  unassigned cpu belongs to an available host and lies in that host's present tier, and the tier of
  every available host exists.  The hosts in \<open>X\<close> are between two states: they are in none of
  the four sets.  \<open>winv\<close> is the invariant of all databases together.
\<close>

fun state_set :: "DmucsHostState \<Rightarrow> dprop_db \<Rightarrow> hptr list" where
  "state_set StateAvail db = availHosts db"
| "state_set StateUnavail db = unavailHosts db"
| "state_set StateSilent db = silentHosts db"
| "state_set StateOverloaded db = overloadedHosts db"

definition hosts_ok :: "(hptr \<Rightarrow> host) \<Rightarrow> hptr \<Rightarrow> dprop \<Rightarrow> dprop_db \<Rightarrow> bool" where
  "hosts_ok H n d db \<longleftrightarrow>
     db_dprop db = d \<and> ksorted (host_key H) (allHosts db) \<and>
     (\<forall>p\<in>set (allHosts db). p < n \<and> h_dprop (H p) = d \<and> 0 \<le> h_ncpus (H p))"

definition sets_ok :: "hptr set \<Rightarrow> (hptr \<Rightarrow> host) \<Rightarrow> dprop_db \<Rightarrow> bool" where
  "sets_ok X H db \<longleftrightarrow> (\<forall>st. ksorted (host_key H) (state_set st db) \<and>
     set (state_set st db) = {p \<in> set (allHosts db). h_state (H p) = st} - X)"

definition cpus_ok :: "(hptr \<Rightarrow> host) \<Rightarrow> dprop_db \<Rightarrow> bool" where
  "cpus_ok H db \<longleftrightarrow>
     msorted (availCpus db) \<and> msorted (assignedCpus db) \<and>
     (\<forall>t l x. map_find t (availCpus db) = Some l \<longrightarrow> x \<in> set l \<longrightarrow>
        (\<exists>p\<in>set (availHosts db). h_ip (H p) = x \<and> getTier (H p) = t)) \<and>
     (\<forall>p\<in>set (availHosts db). map_find (getTier (H p)) (availCpus db) \<noteq> None)"

definition dinv :: "hptr set \<Rightarrow> (hptr \<Rightarrow> host) \<Rightarrow> hptr \<Rightarrow> dprop \<Rightarrow> dprop_db \<Rightarrow> bool" where
  "dinv X H n d db \<longleftrightarrow> hosts_ok H n d db \<and> sets_ok X H db \<and> cpus_ok H db"

definition winv :: "world \<Rightarrow> bool" where
  "winv w \<longleftrightarrow> msorted (dbDb w) \<and> msorted (sock2DpropDb w) \<and>
     (\<forall>d db. map_find d (dbDb w) = Some db \<longrightarrow> dinv {} (hosts w) (nexthost w) d db) \<and>
     (\<forall>s d. map_find s (sock2DpropDb w) = Some d \<longrightarrow>
        (\<exists>db. map_find d (dbDb w) = Some db \<and> map_find s (assignedCpus db) \<noteq> None))"

lemmas dinv_defs = dinv_def hosts_ok_def sets_ok_def cpus_ok_def

subsection \<open>Frames\<close>

lemma sets_ok_D:
  assumes "sets_ok X H db"
  shows "ksorted (host_key H) (state_set st db)"
    and "p \<in> set (state_set st db) \<longleftrightarrow> p \<in> set (allHosts db) \<and> h_state (H p) = st \<and> p \<notin> X"
  using assms by (auto simp: sets_ok_def)

lemma avail_iff:
  "sets_ok X H db \<Longrightarrow> p \<in> set (availHosts db) \<longleftrightarrow>
    p \<in> set (allHosts db) \<and> h_state (H p) = StateAvail \<and> p \<notin> X"
  using sets_ok_D(2) [of X H db p StateAvail] by simp

lemma hosts_ok_cong:
  assumes ok: "hosts_ok H n d db" and db: "allHosts db' = allHosts db" "db_dprop db' = db_dprop db"
    and keep: "\<And>p. p \<in> set (allHosts db) \<Longrightarrow>
      h_ip (H' p) = h_ip (H p) \<and> h_dprop (H' p) = h_dprop (H p) \<and> h_ncpus (H' p) = h_ncpus (H p)"
    and n: "n \<le> n'"
  shows "hosts_ok H' n' d db'"
proof -
  have "ksorted (host_key H') (allHosts db) = ksorted (host_key H) (allHosts db)"
    using keep by (intro ksorted_cong) (simp add: host_key_def)
  with ok db keep n show ?thesis
    by (auto simp: hosts_ok_def)
qed

lemma sets_ok_cong:
  assumes ok: "sets_ok X H db" and sets: "\<And>st. state_set st db' = state_set st db"
    and all: "allHosts db' = allHosts db"
    and keep: "\<And>p. p \<in> set (allHosts db) \<Longrightarrow> h_ip (H' p) = h_ip (H p) \<and>
      (p \<notin> X \<longrightarrow> h_state (H' p) = h_state (H p))"
  shows "sets_ok X H' db'"
proof -
  have "ksorted (host_key H') (state_set st db) = ksorted (host_key H) (state_set st db)" for st
    using keep sets_ok_D(2) [OF ok] by (intro ksorted_cong) (simp add: host_key_def)
  with ok sets all keep show ?thesis
    by (auto simp: sets_ok_def)
qed

lemma cpus_ok_cong:
  assumes ok: "cpus_ok H db" and db: "availCpus db' = availCpus db" "assignedCpus db' = assignedCpus db"
    "availHosts db' = availHosts db"
    and keep: "\<And>p. p \<in> set (availHosts db) \<Longrightarrow> h_ip (H' p) = h_ip (H p) \<and> getTier (H' p) = getTier (H p)"
  shows "cpus_ok H' db'"
proof -
  have "(\<exists>p\<in>set (availHosts db). h_ip (H' p) = x \<and> getTier (H' p) = t) \<longleftrightarrow>
      (\<exists>p\<in>set (availHosts db). h_ip (H p) = x \<and> getTier (H p) = t)" for x t
    using keep by metis
  with ok db keep show ?thesis
    by (simp add: cpus_ok_def)
qed

text \<open>
  Host objects may change as long as addresses, properties and cpu counts stay, and the state and
  the tier stay for the hosts outside \<open>X\<close>.
\<close>

lemma dinv_hosts_cong:
  assumes ok: "dinv X H n d db"
    and ids: "\<And>p. p \<in> set (allHosts db) \<Longrightarrow>
      h_ip (H' p) = h_ip (H p) \<and> h_dprop (H' p) = h_dprop (H p) \<and> h_ncpus (H' p) = h_ncpus (H p)"
    and st: "\<And>p. p \<in> set (allHosts db) \<Longrightarrow> p \<notin> X \<Longrightarrow>
      h_state (H' p) = h_state (H p) \<and> (h_state (H p) = StateAvail \<longrightarrow> getTier (H' p) = getTier (H p))"
    and n: "n \<le> n'"
  shows "dinv X H' n' d db"
proof -
  have parts: "hosts_ok H n d db" "sets_ok X H db" "cpus_ok H db"
    using ok by (simp_all add: dinv_def)
  have "hosts_ok H' n' d db"
    by (rule hosts_ok_cong [OF parts(1)]) (use ids n in simp_all)
  moreover have "sets_ok X H' db"
    by (rule sets_ok_cong [OF parts(2)]) (use ids st in simp_all)
  moreover have "cpus_ok H' db"
    by (rule cpus_ok_cong [OF parts(3)]) (use ids st avail_iff [OF parts(2)] in auto)
  ultimately show ?thesis by (simp add: dinv_def)
qed

subsection \<open>Tiers\<close>

lemma erase_cpus_eq: "erase_cpus ip xs = (removeAll ip xs, int (count_list xs ip))"
  by (induction xs) auto

lemma DpropDb_new_dinv: "dinv {} H n d (DpropDb_new d)"
proof -
  have "state_set st (DpropDb_new d) = []" for st
    by (cases st) (simp_all add: DpropDb_new_def)
  then show ?thesis
    by (simp add: dinv_defs DpropDb_new_def)
qed

text \<open>What a tier holds after copies of an address are added to it.\<close>

definition tier_cpus :: "int \<Rightarrow> dprop_db \<Rightarrow> ip list" where
  "tier_cpus t db = (case map_find t (availCpus db) of None \<Rightarrow> [] | Some l \<Rightarrow> l)"

lemma addCpusToTier_Some:
  assumes "msorted (availCpus db)" and "0 \<le> n"
  obtains m where "addCpusToTier t ip n db = Some (db\<lparr>availCpus := m\<rparr>)" and "msorted m"
    and "\<And>s. map_find s m = (if s = t then Some (tier_cpus t db @ replicate (nat n) ip)
                else map_find s (availCpus db))"
proof (cases "map_find t (availCpus db)")
  case None
  let ?m = "map_update t (\<lambda>l. l @ replicate (nat n) ip) (map_insert t [] (availCpus db))"
  have "addCpusToTier t ip n db = Some (db\<lparr>availCpus := ?m\<rparr>)"
    using assms(2) None by (simp add: addCpusToTier_def)
  moreover have "msorted ?m"
    using assms(1) by (simp add: stl_simps)
  moreover have "map_find s ?m = (if s = t then Some (tier_cpus t db @ replicate (nat n) ip)
                else map_find s (availCpus db))" for s
    using assms(1) None by (simp add: tier_cpus_def smap.update_insert smap.update_insert_other)
  ultimately show ?thesis by (rule that)
next
  case (Some l)
  let ?m = "map_update t (\<lambda>l. l @ replicate (nat n) ip) (availCpus db)"
  have "addCpusToTier t ip n db = Some (db\<lparr>availCpus := ?m\<rparr>)"
    using assms(2) Some by (simp add: addCpusToTier_def)
  moreover have "msorted ?m"
    using assms(1) by (simp add: stl_simps)
  moreover have "map_find s ?m = (if s = t then Some (tier_cpus t db @ replicate (nat n) ip)
                else map_find s (availCpus db))" for s
    using Some by (simp add: tier_cpus_def map_find_update)
  ultimately show ?thesis by (rule that)
qed

lemma delCpusFromTier_eq:
  "DpropDb_delCpusFromTier t ip db =
    (int (count_list (tier_cpus t db) ip),
     db\<lparr>availCpus := map_update t (removeAll ip) (availCpus db)\<rparr>)"
  by (auto simp: DpropDb_delCpusFromTier_def erase_cpus_eq tier_cpus_def map_update_id split: option.split)

subsection \<open>Leaving and entering a state set\<close>

fun upd_state_set :: "DmucsHostState \<Rightarrow> (hptr list \<Rightarrow> hptr list) \<Rightarrow> dprop_db \<Rightarrow> dprop_db" where
  "upd_state_set StateAvail f db = db\<lparr>availHosts := f (availHosts db)\<rparr>"
| "upd_state_set StateUnavail f db = db\<lparr>unavailHosts := f (unavailHosts db)\<rparr>"
| "upd_state_set StateSilent f db = db\<lparr>silentHosts := f (silentHosts db)\<rparr>"
| "upd_state_set StateOverloaded f db = db\<lparr>overloadedHosts := f (overloadedHosts db)\<rparr>"

lemma upd_state_set_simps [simp]:
  "state_set st' (upd_state_set st f db) = (if st' = st then f (state_set st db) else state_set st' db)"
  "allHosts (upd_state_set st f db) = allHosts db"
  "db_dprop (upd_state_set st f db) = db_dprop db"
  "availCpus (upd_state_set st f db) = availCpus db"
  "assignedCpus (upd_state_set st f db) = assignedCpus db"
  "numAssignedCpus (upd_state_set st f db) = numAssignedCpus db"
  "numConcurrentAssigned (upd_state_set st f db) = numConcurrentAssigned db"
  by (cases st; cases st'; simp) (cases st; simp)+

lemma state_set_availCpus [simp]:
  "state_set st (db\<lparr>availCpus := m\<rparr>) = state_set st db"
  "state_set st (db\<lparr>assignedCpus := a\<rparr>) = state_set st db"
  "state_set st (db\<lparr>numAssignedCpus := i\<rparr>) = state_set st db"
  "state_set st (db\<lparr>numConcurrentAssigned := i\<rparr>) = state_set st db"
  by (cases st; simp)+

lemma state_set_availHosts: "availHosts db = state_set StateAvail db"
  by simp

lemma host_key_inj:
  "hosts_ok H n d db \<Longrightarrow> p \<in> set (allHosts db) \<Longrightarrow> q \<in> set (allHosts db) \<Longrightarrow>
    h_ip (H p) = h_ip (H q) \<Longrightarrow> p = q"
  using ksorted_inj [of "host_key H" "allHosts db" p q] by (simp add: hosts_ok_def host_key_def)

lemma delFromHostSet_eq: "delFromHostSet H p S = kerase (host_key H) (host_key H p) S"
  by (auto simp: delFromHostSet_def kerase_def kfind_None intro!: filter_True [symmetric])
    (metis image_eqI)

lemma delFromHostSet_set:
  assumes "hosts_ok H n d db" and "sets_ok X H db" and "p \<in> set (allHosts db)"
  shows "set (delFromHostSet H p (state_set st db)) = set (state_set st db) - {p}"
proof -
  have "q = p" if "q \<in> set (state_set st db)" "h_ip (H q) = h_ip (H p)" for q
    using that host_key_inj [OF assms(1) _ assms(3), of q] sets_ok_D(2) [OF assms(2), of q st] by simp
  then show ?thesis by (auto simp: delFromHostSet_eq host_key_def)
qed

lemma addToHostSet_set:
  assumes "hosts_ok H n d db" and "sets_ok X H db" and "p \<in> set (allHosts db)" and "p \<in> X"
  shows "set (addToHostSet H p (state_set st db)) = insert p (set (state_set st db))"
proof -
  have "host_key H p \<notin> host_key H ` set (state_set st db)"
    using host_key_inj [OF assms(1) assms(3)] sets_ok_D(2) [OF assms(2), of _ st] assms(4)
    by (auto simp: host_key_def)
  then show ?thesis
    using sets_ok_D(1) [OF assms(2)] by (simp add: addToHostSet_def set_kinsert)
qed

lemma ksorted_delFromHostSet: "ksorted (host_key H) S \<Longrightarrow> ksorted (host_key H) (delFromHostSet H p S)"
  by (simp add: delFromHostSet_eq ksorted_kerase)

lemma ksorted_addToHostSet: "ksorted (host_key H) S \<Longrightarrow> ksorted (host_key H) (addToHostSet H p S)"
  by (simp add: addToHostSet_def ksorted_kinsert)

lemma sets_ok_leave:
  assumes "hosts_ok H n d db" and "sets_ok {} H db" and "p \<in> set (allHosts db)" and "h_state (H p) = st"
  shows "sets_ok {p} H (upd_state_set st (delFromHostSet H p) db)"
  using assms sets_ok_D(1) [OF assms(2)] sets_ok_D(2) [OF assms(2)]
  by (auto simp: sets_ok_def delFromHostSet_set [OF assms(1-3)] ksorted_delFromHostSet)

lemma sets_ok_enter:
  assumes "hosts_ok H n d db" and "sets_ok {p} H db" and "p \<in> set (allHosts db)" and "h_state (H p) = st"
  shows "sets_ok {} H (upd_state_set st (addToHostSet H p) db)"
  using assms sets_ok_D(1) [OF assms(2)] sets_ok_D(2) [OF assms(2)]
  by (auto simp: sets_ok_def addToHostSet_set [OF assms(1-3)] ksorted_addToHostSet)

text \<open>
  \<open>leave_db\<close> is what an event does to the database before the state changes, \<open>enter_db\<close> what
  it does after.
\<close>

definition leave_db :: "DmucsHostState \<Rightarrow> (hptr \<Rightarrow> host) \<Rightarrow> hptr \<Rightarrow> dprop_db \<Rightarrow> dprop_db option" where
  "leave_db st H p db = (case st of
     StateAvail \<Rightarrow> DpropDb_delFromAvailDb H p (snd (DpropDb_delCpusFromTier (getTier (H p)) (h_ip (H p)) db))
   | StateUnavail \<Rightarrow> DpropDb_delFromUnavailDb H p db
   | StateSilent \<Rightarrow> DpropDb_delFromSilentDb H p db
   | StateOverloaded \<Rightarrow> DpropDb_delFromOverloadedDb H p db)"

definition enter_db :: "DmucsHostState \<Rightarrow> (hptr \<Rightarrow> host) \<Rightarrow> hptr \<Rightarrow> dprop_db \<Rightarrow> dprop_db option" where
  "enter_db st H p db = (case st of
     StateAvail \<Rightarrow> DpropDb_addToAvailDb H p db
   | StateUnavail \<Rightarrow> DpropDb_addToUnavailDb H p db
   | StateSilent \<Rightarrow> DpropDb_addToSilentDb H p db
   | StateOverloaded \<Rightarrow> DpropDb_addToOverloadedDb H p db)"

lemma leave_other:
  "st \<noteq> StateAvail \<Longrightarrow> leave_db st H p db = Some (upd_state_set st (delFromHostSet H p) db)"
  by (cases st) (simp_all add: leave_db_def DpropDb_delFromUnavailDb_def DpropDb_delFromSilentDb_def
      DpropDb_delFromOverloadedDb_def)

lemma enter_other:
  "st \<noteq> StateAvail \<Longrightarrow> enter_db st H p db = Some (upd_state_set st (addToHostSet H p) db)"
  by (cases st) (simp_all add: enter_db_def DpropDb_addToUnavailDb_def DpropDb_addToSilentDb_def
      DpropDb_addToOverloadedDb_def)

text \<open>What a change of state leaves alone.\<close>

definition same_rest :: "dprop_db \<Rightarrow> dprop_db \<Rightarrow> bool" where
  "same_rest db db' \<longleftrightarrow> allHosts db' = allHosts db \<and> assignedCpus db' = assignedCpus db \<and>
     numAssignedCpus db' = numAssignedCpus db \<and> numConcurrentAssigned db' = numConcurrentAssigned db"

lemma same_rest_refl [simp]: "same_rest db db"
  by (simp add: same_rest_def)

lemma same_rest_trans: "same_rest a b \<Longrightarrow> same_rest b c \<Longrightarrow> same_rest a c"
  by (simp add: same_rest_def)

lemma same_rest_upd [simp]: "same_rest db (upd_state_set st f db)" "same_rest db (db\<lparr>availCpus := m\<rparr>)"
  by (simp_all add: same_rest_def)

lemma leave_avail:
  assumes "cpus_ok H db" and "p \<in> set (availHosts db)"
  shows "leave_db StateAvail H p db =
    Some ((upd_state_set StateAvail (delFromHostSet H p) db)
      \<lparr>availCpus := map_update (getTier (H p)) (removeAll (h_ip (H p))) (availCpus db)\<rparr>)"
proof -
  have "map_find (getTier (H p)) (availCpus db) \<noteq> None"
    using assms by (simp add: cpus_ok_def)
  then obtain l where "map_find (getTier (H p)) (availCpus db) = Some l" by blast
  then show ?thesis
    by (simp add: leave_db_def delCpusFromTier_eq DpropDb_delFromAvailDb_def map_find_update
        map_update_comp removeAll_filter_not_eq)
qed

lemma cpus_ok_D:
  assumes "cpus_ok H db"
  shows "msorted (availCpus db)" and "msorted (assignedCpus db)"
    and "x \<in> set (tier_cpus t db) \<Longrightarrow> \<exists>p\<in>set (availHosts db). h_ip (H p) = x \<and> getTier (H p) = t"
    and "p \<in> set (availHosts db) \<Longrightarrow> map_find (getTier (H p)) (availCpus db) \<noteq> None"
  using assms unfolding cpus_ok_def tier_cpus_def by (force split: option.splits)+

text \<open>The cpu conditions in terms of \<open>tier_cpus\<close>.\<close>

lemma cpus_okI:
  assumes "msorted (availCpus db)" and "msorted (assignedCpus db)"
    and "\<And>x t. x \<in> set (tier_cpus t db) \<Longrightarrow> \<exists>p\<in>set (availHosts db). h_ip (H p) = x \<and> getTier (H p) = t"
    and "\<And>p. p \<in> set (availHosts db) \<Longrightarrow> map_find (getTier (H p)) (availCpus db) \<noteq> None"
  shows "cpus_ok H db"
  unfolding cpus_ok_def
proof (intro conjI allI impI ballI)
  fix t l x assume "map_find t (availCpus db) = Some l" "x \<in> set l"
  then show "\<exists>p\<in>set (availHosts db). h_ip (H p) = x \<and> getTier (H p) = t"
    by (intro assms(3)) (simp add: tier_cpus_def)
qed (use assms in auto)

lemma tier_cpus_availCpus [simp]:
  "tier_cpus t (upd_state_set st f db) = tier_cpus t db"
  "tier_cpus t (db\<lparr>availCpus := map_update s (removeAll x) (availCpus db)\<rparr>) =
    (if t = s then removeAll x (tier_cpus t db) else tier_cpus t db)"
  by (simp_all add: tier_cpus_def map_find_update split: option.split)

lemma leave_ok:
  assumes inv: "dinv {} H n d db" and p: "p \<in> set (allHosts db)" "h_state (H p) = st"
  obtains db1 where "leave_db st H p db = Some db1" and "dinv {p} H n d db1" and "same_rest db db1"
proof -
  have hok: "hosts_ok H n d db" and sok: "sets_ok {} H db" and cok: "cpus_ok H db"
    using inv by (simp_all add: dinv_def)
  let ?u = "upd_state_set st (delFromHostSet H p) db"
  have hok': "hosts_ok H n d ?u" using hok by (simp add: hosts_ok_def)
  have sok': "sets_ok {p} H ?u" by (rule sets_ok_leave [OF hok sok p])
  have av: "set (availHosts ?u) = set (availHosts db) - {p}"
    using delFromHostSet_set [OF hok sok p(1), of StateAvail] p(2) avail_iff [OF sok, of p]
    by (cases st) auto
  show ?thesis
  proof (cases "st = StateAvail")
    case False
    have "cpus_ok H ?u"
    proof (rule cpus_okI)
      fix x t assume "x \<in> set (tier_cpus t ?u)"
      then obtain q where "q \<in> set (availHosts db)" "h_ip (H q) = x" "getTier (H q) = t"
        using cpus_ok_D(3) [OF cok] by auto
      moreover from this(1) have "q \<noteq> p"
        using False p(2) avail_iff [OF sok] by auto
      ultimately show "\<exists>q\<in>set (availHosts ?u). h_ip (H q) = x \<and> getTier (H q) = t"
        using av by auto
    qed (use cpus_ok_D [OF cok] av in auto)
    with hok' sok' show ?thesis
      by (intro that [of ?u]) (simp_all add: leave_other [OF False] dinv_def)
  next
    case True
    let ?v = "?u\<lparr>availCpus := map_update (getTier (H p)) (removeAll (h_ip (H p))) (availCpus db)\<rparr>"
    have pav: "p \<in> set (availHosts db)" using p True avail_iff [OF sok] by simp
    have tc: "tier_cpus t ?v =
        (if t = getTier (H p) then removeAll (h_ip (H p)) (tier_cpus t db) else tier_cpus t db)" for t
      by (simp add: tier_cpus_def map_find_update split: option.split)
    have "cpus_ok H ?v"
    proof (rule cpus_okI)
      fix x t assume x: "x \<in> set (tier_cpus t ?v)"
      then obtain q where q: "q \<in> set (availHosts db)" "h_ip (H q) = x" "getTier (H q) = t"
        using cpus_ok_D(3) [OF cok, of x t] by (auto simp: tc split: if_splits)
      with x have "q \<noteq> p" by (auto simp: tc)
      with q av show "\<exists>q\<in>set (availHosts ?v). h_ip (H q) = x \<and> getTier (H q) = t" by auto
    next
      fix q assume "q \<in> set (availHosts ?v)"
      then have "q \<in> set (availHosts db)" using av by simp
      then show "map_find (getTier (H q)) (availCpus ?v) \<noteq> None"
        using cpus_ok_D(4) [OF cok, of q] by (auto simp: map_find_update)
    qed (use cpus_ok_D [OF cok] in \<open>simp_all add: stl_simps\<close>)
    moreover have "hosts_ok H n d ?v" using hok' by (simp add: hosts_ok_def)
    moreover have "sets_ok {p} H ?v" using sok' by (simp add: sets_ok_def)
    moreover have "leave_db st H p db = Some ?v"
      unfolding True by (rule leave_avail [OF cok pav])
    moreover have "same_rest db ?v" by (simp add: same_rest_def)
    ultimately show ?thesis by (intro that [of ?v]) (simp_all add: dinv_def)
  qed
qed

lemma enter_ok:
  assumes inv: "dinv {p} H n d db" and p: "p \<in> set (allHosts db)" "h_state (H p) = st"
  obtains db1 where "enter_db st H p db = Some db1" and "dinv {} H n d db1" and "same_rest db db1"
proof -
  have hok: "hosts_ok H n d db" and sok: "sets_ok {p} H db" and cok: "cpus_ok H db"
    using inv by (simp_all add: dinv_def)
  let ?u = "upd_state_set st (addToHostSet H p) db"
  have hok': "hosts_ok H n d ?u" using hok by (simp add: hosts_ok_def)
  have sok': "sets_ok {} H ?u" by (rule sets_ok_enter [OF hok sok p])
  show ?thesis
  proof (cases "st = StateAvail")
    case False
    then have "availHosts ?u = availHosts db" by (cases st) simp_all
    then have "cpus_ok H ?u" by (intro cpus_ok_cong [OF cok]) simp_all
    with hok' sok' show ?thesis
      by (intro that [of ?u]) (simp_all add: enter_other [OF False] dinv_def)
  next
    case True
    have nn: "0 \<le> h_ncpus (H p)" using hok p(1) by (simp add: hosts_ok_def)
    have av: "set (availHosts ?u) = insert p (set (availHosts db))"
      using addToHostSet_set [OF hok sok p(1), of StateAvail] True by simp
    obtain m where add: "addCpusToTier (getTier (H p)) (h_ip (H p)) (h_ncpus (H p)) ?u
          = Some (?u\<lparr>availCpus := m\<rparr>)"
      and m: "msorted m" and find: "\<And>s. map_find s m = (if s = getTier (H p)
          then Some (tier_cpus s ?u @ replicate (nat (h_ncpus (H p))) (h_ip (H p)))
          else map_find s (availCpus ?u))"
      by (rule addCpusToTier_Some [of ?u "h_ncpus (H p)" "getTier (H p)" "h_ip (H p)"])
        (use cpus_ok_D(1) [OF cok] nn in auto)
    let ?v = "?u\<lparr>availCpus := m\<rparr>"
    have tc: "tier_cpus s ?v = (if s = getTier (H p)
        then tier_cpus s db @ replicate (nat (h_ncpus (H p))) (h_ip (H p)) else tier_cpus s db)" for s
      using find [of s] by (simp add: tier_cpus_def)
    have "cpus_ok H ?v"
    proof (rule cpus_okI)
      fix x t assume "x \<in> set (tier_cpus t ?v)"
      then show "\<exists>q\<in>set (availHosts ?v). h_ip (H q) = x \<and> getTier (H q) = t"
        using cpus_ok_D(3) [OF cok, of x t] av by (auto simp: tc split: if_splits)
    next
      fix q assume "q \<in> set (availHosts ?v)"
      then show "map_find (getTier (H q)) (availCpus ?v) \<noteq> None"
        using cpus_ok_D(4) [OF cok, of q] av by (auto simp: find)
    qed (use cpus_ok_D [OF cok] m in simp_all)
    moreover have "hosts_ok H n d ?v" using hok' by (simp add: hosts_ok_def)
    moreover have "sets_ok {} H ?v" using sok' by (simp add: sets_ok_def)
    moreover have "enter_db st H p db = Some ?v"
      using add True by (simp add: enter_db_def DpropDb_addToAvailDb_def)
    moreover have "same_rest db ?v" by (simp add: same_rest_def)
    ultimately show ?thesis by (intro that [of ?v]) (simp_all add: dinv_def)
  qed
qed

subsection \<open>Moving a host's cpus to its new tier\<close>

lemma moveCpus_ok:
  assumes inv: "dinv {} H n d db" and p: "p \<in> set (allHosts db)"
    and h': "h_ip h' = h_ip (H p)" "h_dprop h' = h_dprop (H p)" "h_ncpus h' = h_ncpus (H p)"
      "h_state h' = h_state (H p)"
  obtains db1 where "DpropDb_moveCpus H p (getTier (H p)) (getTier h') db = Some db1"
    and "dinv {} (H(p := h')) n d db1" and "same_rest db db1"
proof -
  let ?old = "getTier (H p)" and ?new = "getTier h'" and ?ip = "h_ip (H p)" and ?H = "H(p := h')"
  let ?u = "db\<lparr>availCpus := map_update ?old (removeAll ?ip) (availCpus db)\<rparr>"
  let ?n = "int (count_list (tier_cpus ?old db) ?ip)"
  have hok: "hosts_ok H n d db" and sok: "sets_ok {} H db" and cok: "cpus_ok H db"
    using inv by (simp_all add: dinv_def)
  obtain m where add: "addCpusToTier ?new ?ip ?n ?u = Some (?u\<lparr>availCpus := m\<rparr>)"
    and m: "msorted m" and find: "\<And>s. map_find s m = (if s = ?new
        then Some (tier_cpus s ?u @ replicate (nat ?n) ?ip) else map_find s (availCpus ?u))"
    by (rule addCpusToTier_Some [of ?u ?n ?new ?ip])
      (use cpus_ok_D(1) [OF cok] in \<open>auto simp: stl_simps\<close>)
  let ?v = "db\<lparr>availCpus := m\<rparr>"
  have tc: "tier_cpus s ?v = (let l = (if s = ?old then removeAll ?ip (tier_cpus s db) else tier_cpus s db)
      in if s = ?new then l @ replicate (nat ?n) ?ip else l)" for s
  proof -
    have "tier_cpus s ?v = (case map_find s m of None \<Rightarrow> [] | Some l \<Rightarrow> l)"
      by (simp add: tier_cpus_def)
    also have "\<dots> = (if s = ?new then tier_cpus s ?u @ replicate (nat ?n) ?ip else tier_cpus s ?u)"
      by (simp only: find) (simp add: tier_cpus_def)
    finally show ?thesis by simp
  qed
  have owner: "\<exists>q\<in>set (availHosts db). h_ip (H q) = x \<and> getTier (H q) = t"
    if "x \<in> set (tier_cpus t db)" for x t
    using that by (rule cpus_ok_D(3) [OF cok])
  have mine: "q = p" if "q \<in> set (availHosts db)" "h_ip (H q) = ?ip" for q
    using that host_key_inj [OF hok _ p, of q] avail_iff [OF sok] by simp
  have "cpus_ok ?H ?v"
  proof (rule cpus_okI)
    fix x t assume x: "x \<in> set (tier_cpus t ?v)"
    show "\<exists>q\<in>set (availHosts ?v). h_ip (?H q) = x \<and> getTier (?H q) = t"
    proof (cases "x = ?ip")
      case True
      from x True have "t = ?new \<and> count_list (tier_cpus ?old db) ?ip \<noteq> 0
          \<or> t \<noteq> ?old \<and> ?ip \<in> set (tier_cpus t db)"
        by (auto simp: tc Let_def split: if_splits)
      then show ?thesis
      proof
        assume a: "t = ?new \<and> count_list (tier_cpus ?old db) ?ip \<noteq> 0"
        then have "?ip \<in> set (tier_cpus ?old db)"
          by (simp add: count_list_0_iff)
        then have "p \<in> set (availHosts db)" using owner mine by blast
        with a True h' show ?thesis by (intro bexI [of _ p]) simp_all
      next
        assume "t \<noteq> ?old \<and> ?ip \<in> set (tier_cpus t db)"
        then show ?thesis using owner mine by blast
      qed
    next
      case False
      from x False have "x \<in> set (tier_cpus t db)"
        by (auto simp: tc Let_def split: if_splits)
      then obtain q where "q \<in> set (availHosts db)" "h_ip (H q) = x" "getTier (H q) = t"
        using owner by blast
      with False show ?thesis by (intro bexI [of _ q]) auto
    qed
  next
    fix q assume "q \<in> set (availHosts ?v)"
    then show "map_find (getTier (?H q)) (availCpus ?v) \<noteq> None"
      using cpus_ok_D(4) [OF cok, of q] by (auto simp: find map_find_update)
  qed (use cpus_ok_D [OF cok] m in simp_all)
  moreover have "hosts_ok ?H n d ?v"
    by (rule hosts_ok_cong [OF hok]) (use h' in auto)
  moreover have "sets_ok {} ?H ?v"
    by (rule sets_ok_cong [OF sok]) (use h' in auto)
  moreover have "DpropDb_moveCpus H p ?old ?new db = Some ?v"
    using add by (simp add: DpropDb_moveCpus_def delCpusFromTier_eq)
  moreover have "same_rest db ?v" by (simp add: same_rest_def)
  ultimately show ?thesis by (intro that [of ?v]) (simp_all add: dinv_def)
qed

subsection \<open>The world\<close>

definition put_db :: "dprop \<Rightarrow> dprop_db \<Rightarrow> world \<Rightarrow> world" where
  "put_db d db w = w\<lparr>dbDb := map_update d (\<lambda>_. db) (dbDb w)\<rparr>"

lemma put_db_simps [simp]:
  "hosts (put_db d db w) = hosts w" "nexthost (put_db d db w) = nexthost w"
  "sock2DpropDb (put_db d db w) = sock2DpropDb w"
  "put_db d db' (put_db d db w) = put_db d db' w"
  "upd_host p f (put_db d db w) = put_db d db (upd_host p f w)"
  by (simp_all add: put_db_def map_update_comp upd_host_def)

lemma upd_host_simps [simp]:
  "dbDb (upd_host p f w) = dbDb w" "nexthost (upd_host p f w) = nexthost w"
  "sock2DpropDb (upd_host p f w) = sock2DpropDb w"
  "hosts (upd_host p f w) = (hosts w)(p := f (hosts w p))"
  "upd_host p g (upd_host p f w) = upd_host p (\<lambda>h. g (f h)) w"
  by (simp_all add: upd_host_def)

lemma put_db_find [simp]:
  "map_find d (dbDb w) = Some db \<Longrightarrow> map_find d (dbDb (put_db d db' w)) = Some db'"
  by (simp add: put_db_def map_find_update)

lemma put_db_find_other: "d' \<noteq> d \<Longrightarrow> map_find d' (dbDb (put_db d db w)) = map_find d' (dbDb w)"
  by (simp add: put_db_def map_find_update)

lemma on_db_put:
  "map_find d (dbDb w) = Some db \<Longrightarrow> on_db d f w = map_option (\<lambda>db'. put_db d db' w) (f db)"
  by (cases "f db") (simp_all add: on_db_def put_db_def)

lemma winv_D:
  assumes "winv w"
  shows "msorted (dbDb w)" and "msorted (sock2DpropDb w)"
    and "map_find d (dbDb w) = Some db \<Longrightarrow> dinv {} (hosts w) (nexthost w) d db"
    and "map_find s (sock2DpropDb w) = Some d \<Longrightarrow>
      \<exists>db. map_find d (dbDb w) = Some db \<and> map_find s (assignedCpus db) \<noteq> None"
  using assms by (auto simp: winv_def)

text \<open>A host known to a database belongs to that database's property.\<close>

lemma dinv_host:
  "dinv X H n d db \<Longrightarrow> p \<in> set (allHosts db) \<Longrightarrow> h_dprop (H p) = d \<and> p < n \<and> 0 \<le> h_ncpus (H p)"
  by (simp add: dinv_def hosts_ok_def)

text \<open>
  Replacing one database, and host objects of that database only, keeps the invariant of the rest.
\<close>

lemma winv_put:
  assumes w: "winv w" and d: "map_find d (dbDb w) = Some db"
    and db': "dinv {} H (nexthost w) d db'"
    and H: "\<And>q. h_dprop (hosts w q) \<noteq> d \<Longrightarrow> H q = hosts w q"
    and a: "\<And>s. map_find s (sock2DpropDb w) = Some d \<Longrightarrow> map_find s (assignedCpus db') \<noteq> None"
  shows "winv (put_db d db' (w\<lparr>hosts := H\<rparr>))"
  unfolding winv_def
proof (intro conjI allI impI)
  fix d2 db2 assume f: "map_find d2 (dbDb (put_db d db' (w\<lparr>hosts := H\<rparr>))) = Some db2"
  show "dinv {} (hosts (put_db d db' (w\<lparr>hosts := H\<rparr>))) (nexthost (put_db d db' (w\<lparr>hosts := H\<rparr>))) d2 db2"
  proof (cases "d2 = d")
    case True
    with f d db' show ?thesis by simp
  next
    case False
    with f have "map_find d2 (dbDb w) = Some db2" by (simp add: put_db_find_other)
    then have i: "dinv {} (hosts w) (nexthost w) d2 db2" by (rule winv_D(3) [OF w])
    show ?thesis
      using dinv_host [OF i] H False by (auto intro!: dinv_hosts_cong [OF i])
  qed
next
  fix s d2 assume f: "map_find s (sock2DpropDb (put_db d db' (w\<lparr>hosts := H\<rparr>))) = Some d2"
  show "\<exists>db2. map_find d2 (dbDb (put_db d db' (w\<lparr>hosts := H\<rparr>))) = Some db2 \<and>
      map_find s (assignedCpus db2) \<noteq> None"
  proof (cases "d2 = d")
    case True
    with f d a show ?thesis by simp
  next
    case False
    with f winv_D(4) [OF w, of s d2] show ?thesis by (simp add: put_db_find_other)
  qed
qed (use winv_D [OF w] in \<open>simp_all add: put_db_def stl_simps\<close>)

end
