(* ===== verification/Dmucs_Events.thy ===== *)
theory Dmucs_Events
  imports Dmucs_Db_Inv
begin

text \<open>
  The events of a host as changes of the world: each either does nothing or moves the host from the
  set of its state to the set of another, and always keeps the invariant.  \<open>knows w p\<close> says that
  a pointer was handed out by the database.
\<close>

definition knows :: "world \<Rightarrow> hptr \<Rightarrow> bool" where
  "knows w p \<longleftrightarrow> (\<exists>db. map_find (h_dprop (hosts w p)) (dbDb w) = Some db \<and> p \<in> set (allHosts db))"

definition dprop_db_of :: "world \<Rightarrow> hptr \<Rightarrow> dprop_db" where
  "dprop_db_of w p = the (map_find (h_dprop (hosts w p)) (dbDb w))"

subsection \<open>What an event does to the rest of the world\<close>

text \<open>
  \<open>world_frame p w w'\<close>: only the host \<open>p\<close> and its database may differ, and of the host not
  its identity; no host is added or dropped and no assignment is touched.
\<close>

definition world_frame :: "hptr \<Rightarrow> world \<Rightarrow> world \<Rightarrow> bool" where
  "world_frame p w w' \<longleftrightarrow> nexthost w' = nexthost w \<and> sock2DpropDb w' = sock2DpropDb w \<and>
     map fst (dbDb w') = map fst (dbDb w) \<and>
     (\<forall>q. q \<noteq> p \<longrightarrow> hosts w' q = hosts w q) \<and>
     h_ip (hosts w' p) = h_ip (hosts w p) \<and> h_dprop (hosts w' p) = h_dprop (hosts w p) \<and>
     h_ncpus (hosts w' p) = h_ncpus (hosts w p) \<and> h_pindex (hosts w' p) = h_pindex (hosts w p) \<and>
     h_name (hosts w' p) = h_name (hosts w p) \<and>
     (\<forall>d. d \<noteq> h_dprop (hosts w p) \<longrightarrow> map_find d (dbDb w') = map_find d (dbDb w)) \<and>
     (\<forall>db. map_find (h_dprop (hosts w p)) (dbDb w) = Some db \<longrightarrow>
        (\<exists>db'. map_find (h_dprop (hosts w p)) (dbDb w') = Some db' \<and> same_rest db db'))"

lemma world_frame_refl [simp]: "world_frame p w w"
  by (auto simp: world_frame_def)

lemma world_frame_trans:
  assumes "world_frame p a b" and "world_frame p b c"
  shows "world_frame p a c"
proof -
  have "\<exists>db'. map_find (h_dprop (hosts a p)) (dbDb c) = Some db' \<and> same_rest db db'"
    if db: "map_find (h_dprop (hosts a p)) (dbDb a) = Some db" for db
  proof -
    obtain db1 where 1: "map_find (h_dprop (hosts a p)) (dbDb b) = Some db1" "same_rest db db1"
      using assms(1) db by (auto simp: world_frame_def)
    then obtain db2 where "map_find (h_dprop (hosts a p)) (dbDb c) = Some db2" "same_rest db1 db2"
      using assms by (auto simp: world_frame_def)
    with 1 show ?thesis by (auto intro: same_rest_trans)
  qed
  with assms show ?thesis by (simp add: world_frame_def)
qed

lemma knows_frame: "world_frame p w w' \<Longrightarrow> knows w p \<Longrightarrow> knows w' p"
  unfolding knows_def world_frame_def same_rest_def by fastforce

lemma world_frame_put:
  assumes "map_find (h_dprop (hosts w p)) (dbDb w) = Some db" and "same_rest db db'"
    and "h_ip h' = h_ip (hosts w p)" "h_dprop h' = h_dprop (hosts w p)"
      "h_ncpus h' = h_ncpus (hosts w p)" "h_pindex h' = h_pindex (hosts w p)" "h_name h' = h_name (hosts w p)"
  shows "world_frame p w (put_db (h_dprop (hosts w p)) db' (w\<lparr>hosts := (hosts w)(p := h')\<rparr>))"
  using assms by (auto simp: world_frame_def put_db_find_other) (simp add: put_db_def)

subsection \<open>Moving between states\<close>

definition leave_state :: "DmucsHostState \<Rightarrow> hptr \<Rightarrow> world \<Rightarrow> world option" where
  "leave_state st p w = on_db (h_dprop (hosts w p)) (leave_db st (hosts w) p) w"

lemma addToDb_on_db: "addToDb st p w = on_db (h_dprop (hosts w p)) (enter_db st (hosts w) p) w"
  by (cases st) (simp_all add: enter_db_def [abs_def] DmucsDb_addToAvailDb_def DmucsDb_addToUnavailDb_def
      DmucsDb_addToSilentDb_def DmucsDb_addToOverloadedDb_def)

lemma removeFromDb_leave: "st \<noteq> StateAvail \<Longrightarrow> removeFromDb st p w = leave_state st p w"
  by (cases st) (simp_all add: leave_state_def leave_db_def [abs_def] DmucsDb_delFromUnavailDb_def
      DmucsDb_delFromSilentDb_def DmucsDb_delFromOverloadedDb_def)

lemma delCpus_leave:
  "map_find (h_dprop (hosts w p)) (dbDb w) = Some db \<Longrightarrow>
   Option.bind (DmucsDb_delCpusFromTier p (getTier (hosts w p)) (h_ip (hosts w p)) w)
     (\<lambda>w1. Option.bind (removeFromDb StateAvail p w1) f) = Option.bind (leave_state StateAvail p w) f"
  by (simp add: DmucsDb_delCpusFromTier_def DmucsDb_delFromAvailDb_def on_db_put leave_state_def
      leave_db_def bind_map_option comp_def split: option.split)

text \<open>What a change of state does to the unassigned cpus.\<close>

lemma tier_cpus_addCpus:
  assumes "addCpusToTier t ip n db = Some db1" and "msorted (availCpus db)"
  shows "tier_cpus s db1 = (if s = t then tier_cpus s db @ replicate (nat n) ip else tier_cpus s db)"
proof -
  have "0 \<le> n" using assms(1) by (simp add: addCpusToTier_def Let_def split: if_splits)
  with assms(2) obtain m where "addCpusToTier t ip n db = Some (db\<lparr>availCpus := m\<rparr>)"
    and "\<And>s. map_find s m = (if s = t then Some (tier_cpus t db @ replicate (nat n) ip)
                else map_find s (availCpus db))"
    by (rule addCpusToTier_Some) blast
  with assms(1) show ?thesis by (auto simp: tier_cpus_def)
qed

lemma leave_counts:
  assumes "leave_db st H p db = Some db1" and "x \<noteq> h_ip (H p)"
  shows "count_list (tier_cpus t db1) x = count_list (tier_cpus t db) x"
proof (cases "st = StateAvail")
  case False
  with assms(1) show ?thesis by (auto simp: leave_other)
next
  case True
  have tc: "tier_cpus t (snd (DpropDb_delCpusFromTier (getTier (H p)) (h_ip (H p)) db)) =
      (if t = getTier (H p) then removeAll (h_ip (H p)) (tier_cpus t db) else tier_cpus t db)"
    by (simp add: delCpusFromTier_eq)
  let ?d = "snd (DpropDb_delCpusFromTier (getTier (H p)) (h_ip (H p)) db)"
  have "db1 = ?d \<or> (\<exists>S. db1 = ?d\<lparr>availCpus := map_update (getTier (H p)) (removeAll (h_ip (H p)))
      (availCpus ?d), availHosts := S\<rparr>)"
    using assms(1) True by (auto simp: leave_db_def DpropDb_delFromAvailDb_def split: option.splits)
  then have "tier_cpus t db1 = tier_cpus t ?d \<or> tier_cpus t db1 = removeAll (h_ip (H p)) (tier_cpus t ?d)"
    by (elim disjE exE) (auto simp: tier_cpus_def map_find_update split: option.split if_splits)
  with assms(2) show ?thesis by (auto simp: tc)
qed

lemma enter_counts:
  assumes "enter_db st H p db = Some db1" and "msorted (availCpus db)"
  shows "count_list (tier_cpus t db1) x = count_list (tier_cpus t db) x +
    (if st = StateAvail \<and> t = getTier (H p) \<and> x = h_ip (H p) then nat (h_ncpus (H p)) else 0)"
proof (cases "st = StateAvail")
  case False
  with assms(1) show ?thesis by (auto simp: enter_other)
next
  case True
  let ?u = "db\<lparr>availHosts := addToHostSet H p (availHosts db)\<rparr>"
  have "addCpusToTier (getTier (H p)) (h_ip (H p)) (h_ncpus (H p)) ?u = Some db1"
    using assms(1) True by (simp add: enter_db_def DpropDb_addToAvailDb_def)
  from tier_cpus_addCpus [OF this, of t] assms(2) True show ?thesis
    by (simp add: tier_cpus_def)
qed

lemma no_cpus_outside:
  assumes "dinv X H n d db" and "p \<in> set (allHosts db)" and "p \<notin> set (availHosts db)"
  shows "count_list (tier_cpus t db) (h_ip (H p)) = 0"
proof -
  have hok: "hosts_ok H n d db" and sok: "sets_ok X H db" and cok: "cpus_ok H db"
    using assms(1) by (simp_all add: dinv_def)
  have "q \<notin> set (availHosts db)" if "h_ip (H q) = h_ip (H p)" for q
    using host_key_inj [OF hok assms(2), of q] that assms(3) avail_iff [OF sok, of q] by auto
  then show ?thesis using cpus_ok_D(3) [OF cok, of "h_ip (H p)" t] by (auto simp: count_list_0_iff)
qed

text \<open>
  \<open>moved p st w w'\<close>: the host \<open>p\<close> has gone to state \<open>st\<close> and nothing else of it has
  changed; if it is available now then all its cpus are in its tier, otherwise it has none; the
  cpus of the other hosts and the rest of the world are as before.
\<close>

definition moved :: "hptr \<Rightarrow> DmucsHostState \<Rightarrow> world \<Rightarrow> world \<Rightarrow> bool" where
  "moved p st w w' \<longleftrightarrow> winv w' \<and> world_frame p w w' \<and>
     hosts w' = (hosts w)(p := (hosts w p)\<lparr>h_state := st\<rparr>) \<and>
     (\<forall>t x. count_list (tier_cpus t (dprop_db_of w' p)) x =
        (if x = h_ip (hosts w p)
         then (if st = StateAvail \<and> t = getTier (hosts w p) then nat (h_ncpus (hosts w p)) else 0)
         else count_list (tier_cpus t (dprop_db_of w p)) x))"

lemma move_state:
  assumes w: "winv w" and k: "knows w p" and st: "h_state (hosts w p) = st"
  shows "\<exists>w'. Option.bind (leave_state st p w) (changeState p st') = Some w' \<and> moved p st' w w'"
proof -
  let ?d = "h_dprop (hosts w p)" and ?h = "(hosts w p)\<lparr>h_state := st'\<rparr>"
  let ?H = "(hosts w)(p := ?h)"
  obtain db where db: "map_find ?d (dbDb w) = Some db" and p: "p \<in> set (allHosts db)"
    using k by (auto simp: knows_def)
  have inv: "dinv {} (hosts w) (nexthost w) ?d db" by (rule winv_D(3) [OF w db])
  obtain db1 where l: "leave_db st (hosts w) p db = Some db1"
    and inv1: "dinv {p} (hosts w) (nexthost w) ?d db1" and r1: "same_rest db db1"
    by (rule leave_ok [OF inv p st])
  have p1: "p \<in> set (allHosts db1)" using p r1 by (simp add: same_rest_def)
  have inv2: "dinv {p} ?H (nexthost w) ?d db1"
    by (rule dinv_hosts_cong [OF inv1]) auto
  obtain db2 where e: "enter_db st' ?H p db1 = Some db2"
    and inv3: "dinv {} ?H (nexthost w) ?d db2" and r2: "same_rest db1 db2"
    by (rule enter_ok [OF inv2 p1, of st']) simp
  let ?w = "put_db ?d db2 (w\<lparr>hosts := ?H\<rparr>)"
  have r: "same_rest db db2" by (rule same_rest_trans [OF r1 r2])
  have "Option.bind (leave_state st p w) (changeState p st') = Some ?w"
    using db l e by (simp add: leave_state_def on_db_put changeState_def addToDb_on_db)
      (simp add: put_db_def upd_host_def)
  moreover have "winv ?w"
  proof (rule winv_put [OF w db inv3])
    fix s assume "map_find s (sock2DpropDb w) = Some ?d"
    then show "map_find s (assignedCpus db2) \<noteq> None"
      using winv_D(4) [OF w] db r by (fastforce simp: same_rest_def)
  qed auto
  moreover have "world_frame p w ?w"
    by (rule world_frame_put [OF db r]) simp_all
  moreover have "count_list (tier_cpus t db2) x =
        (if x = h_ip (hosts w p)
         then (if st' = StateAvail \<and> t = getTier (hosts w p) then nat (h_ncpus (hosts w p)) else 0)
         else count_list (tier_cpus t db) x)" for t x
  proof -
    have sok1: "sets_ok {p} (hosts w) db1" and cok1: "cpus_ok (hosts w) db1"
      using inv1 by (simp_all add: dinv_def)
    have "p \<notin> set (availHosts db1)" using avail_iff [OF sok1, of p] by simp
    then have z: "count_list (tier_cpus t db1) (h_ip (hosts w p)) = 0"
      by (rule no_cpus_outside [OF inv1 p1])
    have "getTier ?h = getTier (hosts w p)" by (simp add: getTier_def)
    with enter_counts [OF e cpus_ok_D(1) [OF cok1], of t x] leave_counts [OF l, of x t] z
    show ?thesis by auto
  qed
  then have "\<forall>t x. count_list (tier_cpus t (dprop_db_of ?w p)) x =
        (if x = h_ip (hosts w p)
         then (if st' = StateAvail \<and> t = getTier (hosts w p) then nat (h_ncpus (hosts w p)) else 0)
         else count_list (tier_cpus t (dprop_db_of w p)) x)"
    using db put_db_find [of ?d "w\<lparr>hosts := ?H\<rparr>" db db2] by (simp add: dprop_db_of_def)
  ultimately show ?thesis by (intro exI [of _ ?w]) (simp add: moved_def)
qed

lemma moved_D:
  assumes "moved p st w w'"
  shows "winv w'" and "world_frame p w w'" and "h_state (hosts w' p) = st"
    and "getTier (hosts w' p) = getTier (hosts w p)"
    and "h_lastUpdate (hosts w' p) = h_lastUpdate (hosts w p)"
    and "hosts w' p = (hosts w p)\<lparr>h_state := st\<rparr>"
  using assms by (auto simp: moved_def getTier_def)

subsection \<open>The four events\<close>

text \<open>The state each event leads to; \<open>None\<close> if the event is ignored.\<close>

fun avail_target :: "DmucsHostState \<Rightarrow> int \<Rightarrow> DmucsHostState option" where
  "avail_target StateAvail t = None"
| "avail_target StateUnavail t = Some (if t = 0 then StateOverloaded else StateAvail)"
| "avail_target StateSilent t = Some StateAvail"
| "avail_target StateOverloaded t = Some StateAvail"

fun unavail_target :: "DmucsHostState \<Rightarrow> DmucsHostState option" where
  "unavail_target StateUnavail = None"
| "unavail_target _ = Some StateUnavail"

fun silent_target :: "DmucsHostState \<Rightarrow> DmucsHostState option" where
  "silent_target StateAvail = Some StateSilent"
| "silent_target StateOverloaded = Some StateSilent"
| "silent_target _ = None"

fun overloaded_target :: "DmucsHostState \<Rightarrow> DmucsHostState option" where
  "overloaded_target StateAvail = Some StateOverloaded"
| "overloaded_target _ = None"

text \<open>What an event with target \<open>o\<close> returns.\<close>

definition event_result :: "DmucsHostState option \<Rightarrow> hptr \<Rightarrow> world \<Rightarrow> world option \<Rightarrow> bool" where
  "event_result tgt p w res = (case tgt of
     None \<Rightarrow> res = Some w | Some st \<Rightarrow> (\<exists>w'. res = Some w' \<and> moved p st w w'))"

lemma leave_state_tier:
  "leave_state st p w = Some w1 \<Longrightarrow> hosts w1 = hosts w"
  by (auto simp: leave_state_def on_db_def bind_eq_Some_conv)

lemma knows_db: "knows w p \<Longrightarrow> \<exists>db. map_find (h_dprop (hosts w p)) (dbDb w) = Some db"
  by (auto simp: knows_def)

lemma avail_event:
  assumes "winv w" and "knows w p"
  shows "event_result (avail_target (h_state (hosts w p)) (getTier (hosts w p))) p w (DmucsHost_avail p w)"
proof (cases "h_state (hosts w p)")
  case StateUnavail
  let ?st = "if getTier (hosts w p) = 0 then StateOverloaded else StateAvail"
  have "StateUnavail_avail p w = Option.bind (leave_state StateUnavail p w) (changeState p ?st)"
    by (cases "leave_state StateUnavail p w")
      (auto simp: StateUnavail_avail_def removeFromDb_leave dest: leave_state_tier simp del: removeFromDb.simps)
  with move_state [OF assms StateUnavail, of ?st] StateUnavail show ?thesis
    by (simp add: event_result_def DmucsHost_avail_def)
qed (use assms move_state [OF assms, of _ StateAvail] in
    \<open>simp_all add: event_result_def DmucsHost_avail_def StateSilent_avail_def
      StateOverloaded_avail_def removeFromDb_leave del: removeFromDb.simps\<close>)

lemma unavail_event:
  assumes "winv w" and "knows w p"
  shows "event_result (unavail_target (h_state (hosts w p))) p w (DmucsHost_unavail p w)"
  using move_state [OF assms, of _ StateUnavail] knows_db [OF assms(2)]
  by (cases "h_state (hosts w p)")
    (auto simp: event_result_def DmucsHost_unavail_def StateAvail_unavail_def StateSilent_unavail_def
      StateOverloaded_unavail_def removeFromDb_leave delCpus_leave simp del: removeFromDb.simps)

lemma silent_event:
  assumes "winv w" and "knows w p"
  shows "event_result (silent_target (h_state (hosts w p))) p w (DmucsHost_silent p w)"
  using move_state [OF assms, of _ StateSilent] knows_db [OF assms(2)]
  by (cases "h_state (hosts w p)")
    (auto simp: event_result_def DmucsHost_silent_def StateAvail_silent_def
      StateOverloaded_silent_def removeFromDb_leave delCpus_leave simp del: removeFromDb.simps)

lemma overloaded_event:
  assumes "winv w" and "knows w p"
  shows "event_result (overloaded_target (h_state (hosts w p))) p w (DmucsHost_overloaded p w)"
  using move_state [OF assms, of _ StateOverloaded] knows_db [OF assms(2)]
  by (cases "h_state (hosts w p)")
    (auto simp: event_result_def DmucsHost_overloaded_def StateAvail_overloaded_def
      removeFromDb_leave delCpus_leave simp del: removeFromDb.simps)

text \<open>An event always returns, in a world of the invariant that differs in the one host only.\<close>

lemma event_result_D:
  assumes "event_result tgt p w res" and "winv w"
  obtains w' where "res = Some w'" and "winv w'" and "world_frame p w w'"
    and "hosts w' p = (hosts w p)\<lparr>h_state := (case tgt of None \<Rightarrow> h_state (hosts w p) | Some st \<Rightarrow> st)\<rparr>"
proof (cases tgt)
  case None
  with assms show ?thesis by (intro that [of w]) (simp_all add: event_result_def)
next
  case (Some st)
  with assms obtain w' where "res = Some w'" "moved p st w w'" by (auto simp: event_result_def)
  with Some show ?thesis by (intro that [of w']) (simp_all add: moved_D)
qed

text \<open>Taking an available host out and putting it back restores all its cpus.\<close>

lemma down_up:
  assumes w: "winv w" and k: "knows w p" and st: "h_state (hosts w p) = StateAvail" and t: "getTier (hosts w p) \<noteq> 0"
  obtains w1 w2 where "DmucsHost_unavail p w = Some w1" and "DmucsHost_avail p w1 = Some w2" and "winv w2"
    and "world_frame p w w2" and "hosts w2 p = (hosts w p)\<lparr>h_state := StateAvail\<rparr>"
    and "count_list (tier_cpus (getTier (hosts w p)) (dprop_db_of w2 p)) (h_ip (hosts w p)) = nat (h_ncpus (hosts w p))"
proof -
  obtain w1 where w1: "DmucsHost_unavail p w = Some w1" "moved p StateUnavail w w1"
    using unavail_event [OF w k] st by (auto simp: event_result_def)
  have k1: "knows w1 p" by (rule knows_frame [OF moved_D(2) [OF w1(2)] k])
  obtain w2 where w2: "DmucsHost_avail p w1 = Some w2" "moved p StateAvail w1 w2"
    using avail_event [OF moved_D(1) [OF w1(2)] k1] moved_D(3,4) [OF w1(2)] t
    by (auto simp: event_result_def)
  have h1: "hosts w1 p = (hosts w p)\<lparr>h_state := StateUnavail\<rparr>" by (rule moved_D(6) [OF w1(2)])
  have h2: "hosts w2 p = (hosts w p)\<lparr>h_state := StateAvail\<rparr>" using moved_D(6) [OF w2(2)] h1 by simp
  have fr: "world_frame p w w2"
    using world_frame_trans moved_D(2) [OF w1(2)] moved_D(2) [OF w2(2)] by blast
  have "count_list (tier_cpus (getTier (hosts w p)) (dprop_db_of w2 p)) (h_ip (hosts w p)) = nat (h_ncpus (hosts w p))"
    using w2(2) h1 by (simp add: moved_def getTier_def)
  with w1(1) w2(1) moved_D(1) [OF w2(2)] fr h2 show thesis by (rule that)
qed

text \<open>
  A silent host whose load gives tier 0 is made available all the same when its next report
  comes in, and all its cpus are offered in tier 0 (an unavailable host with such a load becomes
  overloaded instead).
\<close>

lemma silent_host_available_at_tier_0:
  assumes "winv w" and "knows w p" and "h_state (hosts w p) = StateSilent" and "getTier (hosts w p) = 0"
  shows "\<exists>w'. DmucsHost_avail p w = Some w' \<and> h_state (hosts w' p) = StateAvail \<and> getTier (hosts w' p) = 0 \<and>
    count_list (tier_cpus 0 (dprop_db_of w' p)) (h_ip (hosts w p)) = nat (h_ncpus (hosts w p))"
  using avail_event [OF assms(1,2)] assms(3,4) by (auto simp: event_result_def moved_def getTier_def)

end
