(* ===== verification/Dmucs_Load.thy ===== *)
theory Dmucs_Load
  imports Dmucs_Events
begin

text \<open>
  What a load-average report does to a host (\<open>DmucsHost::updateTier\<close>) and what the sweep for
  silent hosts does to all of them.
\<close>

subsection \<open>The cpus of one host\<close>

lemma own_cpus:
  assumes inv: "dinv {} H n d db" and p: "p \<in> set (allHosts db)"
    and "t \<noteq> getTier (H p) \<or> h_state (H p) \<noteq> StateAvail"
  shows "count_list (tier_cpus t db) (h_ip (H p)) = 0"
proof (rule ccontr)
  have hok: "hosts_ok H n d db" and sok: "sets_ok {} H db" and cok: "cpus_ok H db"
    using inv by (simp_all add: dinv_def)
  assume "count_list (tier_cpus t db) (h_ip (H p)) \<noteq> 0"
  then obtain q where q: "q \<in> set (availHosts db)" "h_ip (H q) = h_ip (H p)" "getTier (H q) = t"
    using cpus_ok_D(3) [OF cok, of "h_ip (H p)" t] by (auto simp: count_list_0_iff)
  moreover from q(1) have "q \<in> set (allHosts db)" "h_state (H q) = StateAvail"
    using avail_iff [OF sok] by auto
  ultimately show False
    using host_key_inj [OF hok _ p] assms(3) by blast
qed

lemma moveCpus_tiers:
  assumes "DpropDb_moveCpus H p old new db = Some db1" and "msorted (availCpus db)"
  shows "tier_cpus s db1 =
    (let l = (if s = old then removeAll (h_ip (H p)) (tier_cpus s db) else tier_cpus s db)
     in if s = new then l @ replicate (count_list (tier_cpus old db) (h_ip (H p))) (h_ip (H p)) else l)"
  using assms(1) tier_cpus_addCpus [of new "h_ip (H p)" "int (count_list (tier_cpus old db) (h_ip (H p)))"
      "db\<lparr>availCpus := map_update old (removeAll (h_ip (H p))) (availCpus db)\<rparr>" db1 s] assms(2)
  by (simp add: DpropDb_moveCpus_def delCpusFromTier_eq Let_def stl_simps)

subsection \<open>updateTier\<close>

text \<open>
  \<open>reported\<close>: the host has the new load averages, tier and time; it has the state \<open>st\<close>; all
  its unassigned cpus lie in the new tier if it is available, and it has none otherwise; the
  cpus of the other hosts stay.
\<close>

definition new_avgs :: "host \<Rightarrow> cfloat \<Rightarrow> cfloat" where
  "new_avgs h a = fdiv a (float_of_int (h_ncpus h))"

definition report_tier :: "host \<Rightarrow> cfloat \<Rightarrow> cfloat \<Rightarrow> cfloat \<Rightarrow> int" where
  "report_tier h a b c = calcTier (new_avgs h a) (new_avgs h b) (new_avgs h c) (h_pindex h)"

definition report_state :: "host \<Rightarrow> int \<Rightarrow> DmucsHostState" where
  "report_state h newTier =
     (if newTier = 0 \<and> getTier h \<noteq> 0 \<and> h_state h = StateAvail then StateOverloaded else h_state h)"

definition report_host :: "int \<Rightarrow> cfloat \<Rightarrow> cfloat \<Rightarrow> cfloat \<Rightarrow> host \<Rightarrow> host" where
  "report_host t a b c h = (set_ldavgs (new_avgs h a) (new_avgs h b) (new_avgs h c)
     (h\<lparr>h_state := report_state h (report_tier h a b c)\<rparr>))\<lparr>h_lastUpdate := t\<rparr>"

definition reported :: "int \<Rightarrow> hptr \<Rightarrow> cfloat \<Rightarrow> cfloat \<Rightarrow> cfloat \<Rightarrow> world \<Rightarrow> world \<Rightarrow> bool" where
  "reported t p a b c w w' \<longleftrightarrow> winv w' \<and> world_frame p w w' \<and>
     hosts w' = (hosts w)(p := report_host t a b c (hosts w p)) \<and>
     (\<forall>s x. count_list (tier_cpus s (dprop_db_of w' p)) x =
        (if x = h_ip (hosts w p)
         then (if h_state (hosts w' p) = StateAvail \<and> s = getTier (hosts w' p)
               then count_list (tier_cpus (getTier (hosts w p)) (dprop_db_of w p)) x else 0)
         else count_list (tier_cpus s (dprop_db_of w p)) x))"

lemma report_host_simps [simp]:
  "h_ip (report_host t a b c h) = h_ip h" "h_dprop (report_host t a b c h) = h_dprop h"
  "h_ncpus (report_host t a b c h) = h_ncpus h" "h_pindex (report_host t a b c h) = h_pindex h"
  "h_name (report_host t a b c h) = h_name h" "h_lastUpdate (report_host t a b c h) = t"
  "h_state (report_host t a b c h) = report_state h (report_tier h a b c)"
  "getTier (report_host t a b c h) = report_tier h a b c"
  by (simp_all add: report_host_def set_ldavgs_def getTier_def report_tier_def)

text \<open>Replacing the database and the record of one host, whatever the change is.\<close>

lemma winv_put_host:
  assumes w: "winv w" and db: "map_find (h_dprop (hosts w p)) (dbDb w) = Some db"
    and inv: "dinv {} ((hosts w)(p := h')) (nexthost w) (h_dprop (hosts w p)) db'"
    and r: "same_rest db db'"
  shows "winv (put_db (h_dprop (hosts w p)) db' (w\<lparr>hosts := (hosts w)(p := h')\<rparr>))"
proof (rule winv_put [OF w db inv])
  fix s assume "map_find s (sock2DpropDb w) = Some (h_dprop (hosts w p))"
  then show "map_find s (assignedCpus db') \<noteq> None"
    using winv_D(4) [OF w] db r by (fastforce simp: same_rest_def)
qed auto

lemma put_db_same: "msorted (dbDb w) \<Longrightarrow> map_find d (dbDb w) = Some db \<Longrightarrow> put_db d db w = w"
  by (simp add: put_db_def map_update_same)

text \<open>Neither branch of \<open>updateTier\<close> that keeps the state disturbs the cpus of other hosts.\<close>

lemma reportedI:
  assumes w: "winv w" and db: "map_find (h_dprop (hosts w p)) (dbDb w) = Some db"
    and p: "p \<in> set (allHosts db)"
    and inv: "dinv {} ((hosts w)(p := report_host t a b c (hosts w p))) (nexthost w) (h_dprop (hosts w p)) db'"
    and r: "same_rest db db'"
    and cnt: "\<And>s x. count_list (tier_cpus s db') x =
        (if x = h_ip (hosts w p)
         then (if report_state (hosts w p) (report_tier (hosts w p) a b c) = StateAvail \<and>
                  s = report_tier (hosts w p) a b c
               then count_list (tier_cpus (getTier (hosts w p)) db) x else 0)
         else count_list (tier_cpus s db) x)"
  shows "reported t p a b c w
    (put_db (h_dprop (hosts w p)) db' (w\<lparr>hosts := (hosts w)(p := report_host t a b c (hosts w p))\<rparr>))"
    (is "reported t p a b c w ?w")
proof -
  have "winv ?w" by (rule winv_put_host [OF w db inv r])
  moreover have "world_frame p w ?w" by (rule world_frame_put [OF db r]) simp_all
  moreover have "dprop_db_of ?w p = db'" "dprop_db_of w p = db"
    using db by (simp_all add: dprop_db_of_def)
  ultimately show ?thesis by (simp add: reported_def cnt)
qed

lemma updateTier_move:
  assumes w: "winv w" and db: "map_find (h_dprop (hosts w p)) (dbDb w) = Some db"
    and p: "p \<in> set (allHosts db)"
    and ne: "report_tier (hosts w p) a b c \<noteq> getTier (hosts w p)" "report_tier (hosts w p) a b c \<noteq> 0"
  shows "\<exists>w'. updateTier t p a b c w = Some w' \<and> reported t p a b c w w'"
proof -
  let ?h = "hosts w p" and ?d = "h_dprop (hosts w p)"
  let ?r = "report_host t a b c ?h"
  have inv: "dinv {} (hosts w) (nexthost w) ?d db" by (rule winv_D(3) [OF w db])
  have st: "report_state ?h (report_tier ?h a b c) = h_state ?h"
    using ne by (simp add: report_state_def)
  obtain db1 where mv: "DpropDb_moveCpus (hosts w) p (getTier ?h) (getTier ?r) db = Some db1"
    and inv1: "dinv {} ((hosts w)(p := ?r)) (nexthost w) ?d db1" and r: "same_rest db db1"
    by (rule moveCpus_ok [OF inv p, of ?r]) (use st in simp_all)
  have ms: "msorted (availCpus db)" using inv by (simp add: dinv_def cpus_ok_def)
  have "reported t p a b c w (put_db ?d db1 (w\<lparr>hosts := (hosts w)(p := ?r)\<rparr>))"
  proof (rule reportedI [OF w db p inv1 r])
    fix s x
    show "count_list (tier_cpus s db1) x = (if x = h_ip ?h
         then (if report_state ?h (report_tier ?h a b c) = StateAvail \<and> s = report_tier ?h a b c
               then count_list (tier_cpus (getTier ?h) db) x else 0)
         else count_list (tier_cpus s db) x)"
      using ne own_cpus [OF inv p, of s] own_cpus [OF inv p, of "getTier ?h"] st
      by (auto simp: moveCpus_tiers [OF mv ms] Let_def)
  qed
  moreover have "updateTier t p a b c w = Some (put_db ?d db1 (w\<lparr>hosts := (hosts w)(p := ?r)\<rparr>))"
    using ne mv [simplified] db st
    by (simp add: updateTier_def Let_def report_tier_def new_avgs_def DmucsDb_moveCpus_def on_db_put
        report_host_def [of t a b c]) (simp add: put_db_def upd_host_def set_ldavgs_def new_avgs_def)
  ultimately show ?thesis by blast
qed

lemma updateTier_stay:
  assumes w: "winv w" and db: "map_find (h_dprop (hosts w p)) (dbDb w) = Some db"
    and p: "p \<in> set (allHosts db)"
    and eq: "report_tier (hosts w p) a b c = getTier (hosts w p)"
  shows "\<exists>w'. updateTier t p a b c w = Some w' \<and> reported t p a b c w w'"
proof -
  let ?h = "hosts w p" and ?d = "h_dprop (hosts w p)"
  let ?r = "report_host t a b c ?h"
  have inv: "dinv {} (hosts w) (nexthost w) ?d db" by (rule winv_D(3) [OF w db])
  have st: "report_state ?h (report_tier ?h a b c) = h_state ?h"
    using eq by (simp add: report_state_def)
  have inv1: "dinv {} ((hosts w)(p := ?r)) (nexthost w) ?d db"
    by (rule dinv_hosts_cong [OF inv]) (use st eq in auto)
  have "reported t p a b c w (put_db ?d db (w\<lparr>hosts := (hosts w)(p := ?r)\<rparr>))"
    by (rule reportedI [OF w db p inv1]) (use own_cpus [OF inv p] st eq in auto)
  moreover have "updateTier t p a b c w = Some (put_db ?d db (w\<lparr>hosts := (hosts w)(p := ?r)\<rparr>))"
    using eq db st winv_D(1) [OF w]
    by (simp add: updateTier_def Let_def report_tier_def new_avgs_def put_db_same report_host_def
        upd_host_def set_ldavgs_def)
  ultimately show ?thesis by blast
qed

lemma updateTier_overload:
  assumes w: "winv w" and db: "map_find (h_dprop (hosts w p)) (dbDb w) = Some db"
    and p: "p \<in> set (allHosts db)"
    and z: "report_tier (hosts w p) a b c = 0" and ne: "getTier (hosts w p) \<noteq> 0"
  shows "\<exists>w'. updateTier t p a b c w = Some w' \<and> reported t p a b c w w'"
proof -
  let ?h = "hosts w p" and ?d = "h_dprop (hosts w p)"
  let ?r = "report_host t a b c ?h"
  have k: "knows w p" using db p by (auto simp: knows_def)
  obtain w1 where ov: "DmucsHost_overloaded p w = Some w1"
    and w1: "winv w1" and f1: "world_frame p w w1"
    and h1: "hosts w1 p = ?h\<lparr>h_state := report_state ?h 0\<rparr>"
  proof (rule event_result_D [OF overloaded_event [OF w k] w])
    fix w' assume "DmucsHost_overloaded p w = Some w'" "winv w'" "world_frame p w w'"
      "hosts w' p = ?h\<lparr>h_state := (case overloaded_target (h_state ?h) of None \<Rightarrow> h_state ?h | Some st \<Rightarrow> st)\<rparr>"
    then show thesis using that ne by (cases "h_state ?h") (auto simp: report_state_def)
  qed
  have d1: "h_dprop (hosts w1 p) = ?d" using h1 by simp
  obtain db1 where db1: "map_find ?d (dbDb w1) = Some db1" and r: "same_rest db db1"
    using f1 db by (auto simp: world_frame_def)
  have p1: "p \<in> set (allHosts db1)" using p r by (simp add: same_rest_def)
  have inv1: "dinv {} (hosts w1) (nexthost w1) ?d db1" by (rule winv_D(3) [OF w1 db1])
  have na: "report_state ?h 0 \<noteq> StateAvail" using ne by (auto simp: report_state_def)
  have others: "q \<noteq> p \<Longrightarrow> hosts w1 q = hosts w q" for q using f1 by (simp add: world_frame_def)
  have H1: "(hosts w1)(p := ?r) = (hosts w)(p := ?r)" using others by (auto simp: fun_eq_iff)
  have inv2: "dinv {} ((hosts w)(p := ?r)) (nexthost w1) ?d db1"
    unfolding H1 [symmetric] by (rule dinv_hosts_cong [OF inv1]) (use h1 na z in auto)
  let ?w2 = "w1\<lparr>hosts := (hosts w)(p := ?r)\<rparr>"
  have up: "updateTier t p a b c w = Some ?w2"
    using z ne ov h1 H1
    by (simp add: updateTier_def Let_def report_tier_def new_avgs_def report_host_def
        upd_host_def set_ldavgs_def)
  have "winv ?w2"
    using winv_put_host [OF w1, of p db1 ?r db1] db1 inv2 h1 H1 put_db_same [of ?w2 ?d db1] winv_D(1) [OF w1] by simp
  moreover have "world_frame p w ?w2"
    using f1 by (auto simp: world_frame_def)
  moreover have "count_list (tier_cpus s db1) x =
      (if x = h_ip ?h then 0 else count_list (tier_cpus s db) x)" for s x
  proof (cases "h_state ?h = StateAvail")
    case True
    then have "moved p StateOverloaded w w1"
      using overloaded_event [OF w k] ov by (auto simp: event_result_def)
    then show ?thesis
      using db db1 h1 by (simp add: moved_def dprop_db_of_def)
  next
    case False
    then have "w1 = w"
      using overloaded_event [OF w k] ov by (cases "h_state ?h") (auto simp: event_result_def)
    then show ?thesis
      using db db1 own_cpus [OF inv1 p1, of s] False by auto
  qed
  moreover have "dprop_db_of ?w2 p = db1" "dprop_db_of w p = db"
    using db db1 by (simp_all add: dprop_db_of_def)
  ultimately have "reported t p a b c w ?w2" using na z by (simp add: reported_def)
  with up show ?thesis by blast
qed

lemma updateTier_ok:
  assumes "winv w" and "knows w p"
  shows "\<exists>w'. updateTier t p a b c w = Some w' \<and> reported t p a b c w w'"
proof -
  obtain db where db: "map_find (h_dprop (hosts w p)) (dbDb w) = Some db" "p \<in> set (allHosts db)"
    using assms(2) by (auto simp: knows_def)
  show ?thesis
  proof (cases "report_tier (hosts w p) a b c = getTier (hosts w p)")
    case True
    then show ?thesis by (rule updateTier_stay [OF assms(1) db])
  next
    case False
    then show ?thesis
      using updateTier_move [OF assms(1) db False] updateTier_overload [OF assms(1) db]
      by (cases "report_tier (hosts w p) a b c = 0") simp_all
  qed
qed

end
