(* ===== verification/Dmucs_Sweep.thy ===== *)
theory Dmucs_Sweep
  imports Dmucs_Load
begin

text \<open>
  The sweep for silent hosts over all databases: exactly the known hosts that have not reported for
  more than \<open>DMUCS_HOST_SILENT_TIME\<close> seconds change, and only their state does.
\<close>

definition known_hosts :: "world \<Rightarrow> hptr set" where
  "known_hosts w = (\<Union>(d, db)\<in>set (dbDb w). set (allHosts db))"

definition silenced :: "DmucsHostState \<Rightarrow> DmucsHostState" where
  "silenced st = (case silent_target st of None \<Rightarrow> st | Some s \<Rightarrow> s)"

lemma silenced_simps [simp]:
  "silenced StateAvail = StateSilent" "silenced StateOverloaded = StateSilent"
  "silenced StateSilent = StateSilent" "silenced StateUnavail = StateUnavail"
  by (simp_all add: silenced_def)

lemma silenced_idem [simp]: "silenced (silenced st) = silenced st"
  by (cases st) simp_all

lemma knows_iff:
  assumes "winv w"
  shows "knows w p \<longleftrightarrow> p \<in> known_hosts w"
proof
  assume "knows w p"
  then show "p \<in> known_hosts w"
    using winv_D(1) [OF assms] by (force simp: knows_def known_hosts_def map_find_iff)
next
  assume "p \<in> known_hosts w"
  then obtain d db where d: "(d, db) \<in> set (dbDb w)" "p \<in> set (allHosts db)"
    by (auto simp: known_hosts_def)
  then have f: "map_find d (dbDb w) = Some db"
    using winv_D(1) [OF assms] by (simp add: map_find_iff)
  then have "h_dprop (hosts w p) = d"
    using dinv_host [OF winv_D(3) [OF assms f] d(2)] by simp
  with f d(2) show "knows w p" by (auto simp: knows_def)
qed

text \<open>What the sweep leaves alone.\<close>

definition quiet :: "world \<Rightarrow> world \<Rightarrow> bool" where
  "quiet w w' \<longleftrightarrow> nexthost w' = nexthost w \<and> sock2DpropDb w' = sock2DpropDb w \<and>
     map fst (dbDb w') = map fst (dbDb w) \<and>
     (\<forall>d db. map_find d (dbDb w) = Some db \<longrightarrow>
        (\<exists>db'. map_find d (dbDb w') = Some db' \<and> same_rest db db'))"

lemma quiet_refl [simp]: "quiet w w"
  by (simp add: quiet_def)

lemma quiet_trans: "quiet a b \<Longrightarrow> quiet b c \<Longrightarrow> quiet a c"
  unfolding quiet_def by (metis same_rest_trans)

lemma quiet_frame: "world_frame p w w' \<Longrightarrow> quiet w w'"
  unfolding quiet_def world_frame_def by (metis same_rest_refl)

lemma quiet_find:
  "quiet w w' \<Longrightarrow> map_find d (dbDb w) = Some db \<Longrightarrow>
    \<exists>db'. map_find d (dbDb w') = Some db' \<and> allHosts db' = allHosts db"
  by (fastforce simp: quiet_def same_rest_def)

definition sweep_hosts :: "int \<Rightarrow> hptr set \<Rightarrow> (hptr \<Rightarrow> host) \<Rightarrow> hptr \<Rightarrow> host" where
  "sweep_hosts t A H p =
     (if p \<in> A \<and> seemsDown t (H p) then (H p)\<lparr>h_state := silenced (h_state (H p))\<rparr> else H p)"

lemma sweep_hosts_simps [simp]:
  "h_ip (sweep_hosts t A H p) = h_ip (H p)" "h_dprop (sweep_hosts t A H p) = h_dprop (H p)"
  "h_lastUpdate (sweep_hosts t A H p) = h_lastUpdate (H p)"
  "seemsDown t (sweep_hosts t A H p) = seemsDown t (H p)"
  by (simp_all add: sweep_hosts_def seemsDown_def)

lemma sweep_hosts_empty [simp]: "sweep_hosts t {} H = H"
  by (simp add: sweep_hosts_def fun_eq_iff)

lemma sweep_hosts_Un: "sweep_hosts t B (sweep_hosts t A H) = sweep_hosts t (A \<union> B) H"
  by (auto simp: sweep_hosts_def seemsDown_def fun_eq_iff)

lemma sweep_one: "seemsDown t (H p) \<Longrightarrow>
    H(p := (H p)\<lparr>h_state := silenced (h_state (H p))\<rparr>) = sweep_hosts t {p} H"
  by (auto simp: sweep_hosts_def fun_eq_iff)

lemma sweep_none: "\<not> seemsDown t (H p) \<Longrightarrow> sweep_hosts t {p} H = H"
  by (auto simp: sweep_hosts_def fun_eq_iff)

lemma silent_step:
  assumes "winv w" and "knows w p" and "seemsDown t (hosts w p)"
  shows "\<exists>w'. DmucsHost_silent p w = Some w' \<and> winv w' \<and> quiet w w' \<and> hosts w' = sweep_hosts t {p} (hosts w)"
proof (rule event_result_D [OF silent_event [OF assms(1,2)] assms(1)])
  fix w' assume w': "DmucsHost_silent p w = Some w'" "winv w'" "world_frame p w w'"
    "hosts w' p = (hosts w p)\<lparr>h_state := (case silent_target (h_state (hosts w p)) of
      None \<Rightarrow> h_state (hosts w p) | Some st \<Rightarrow> st)\<rparr>"
  have "hosts w' q = sweep_hosts t {p} (hosts w) q" for q
    using w'(3,4) assms(3) by (cases "q = p") (auto simp: sweep_hosts_def silenced_def world_frame_def)
  with w' show ?thesis by (auto intro: quiet_frame)
qed

lemma silent_loop_ok:
  assumes "winv w" and "map_find d (dbDb w) = Some db" and "set ps \<subseteq> set (allHosts db)"
  shows "\<exists>w'. silent_loop t ps w = Some w' \<and> winv w' \<and> quiet w w' \<and>
    hosts w' = sweep_hosts t (set ps) (hosts w)"
  using assms
proof (induction ps arbitrary: w db)
  case (Cons p ps)
  have "h_dprop (hosts w p) = d"
    using dinv_host [OF winv_D(3) [OF Cons.prems(1,2)], of p] Cons.prems(3) by simp
  then have k: "knows w p" using Cons.prems by (auto simp: knows_def)
  obtain w1 where w1: "(if seemsDown t (hosts w p) then DmucsHost_silent p w else Some w) = Some w1"
    "winv w1" "quiet w w1" "hosts w1 = sweep_hosts t {p} (hosts w)"
    using silent_step [OF Cons.prems(1) k, of t] Cons.prems(1)
    by (cases "seemsDown t (hosts w p)") (auto simp: sweep_none)
  obtain db1 where db1: "map_find d (dbDb w1) = Some db1" "allHosts db1 = allHosts db"
    using quiet_find [OF w1(3) Cons.prems(2)] by blast
  obtain w' where w': "silent_loop t ps w1 = Some w'" "winv w'" "quiet w1 w'"
    "hosts w' = sweep_hosts t (set ps) (hosts w1)"
    using Cons.IH [OF w1(2) db1(1)] db1(2) Cons.prems(3) by auto
  have "silent_loop t (p # ps) w = Some w'"
    using w1(1) w'(1) by (auto split: if_splits)
  with w' w1 show ?case
    using quiet_trans [OF w1(3) w'(3)] by (simp add: sweep_hosts_Un)
qed simp

definition hosts_of_dprops :: "dprop list \<Rightarrow> world \<Rightarrow> hptr set" where
  "hosts_of_dprops ds w = (\<Union>d\<in>set ds. case map_find d (dbDb w) of None \<Rightarrow> {} | Some db \<Rightarrow> set (allHosts db))"

lemma hosts_of_dprops_quiet:
  assumes "quiet w w'"
  shows "hosts_of_dprops ds w' = hosts_of_dprops ds w"
proof -
  have "(case map_find d (dbDb w') of None \<Rightarrow> {} | Some db \<Rightarrow> set (allHosts db)) =
      (case map_find d (dbDb w) of None \<Rightarrow> {} | Some db \<Rightarrow> set (allHosts db))" for d
  proof (cases "map_find d (dbDb w)")
    case None
    moreover have "fst ` set (dbDb w') = fst ` set (dbDb w)"
      using assms by (metis quiet_def set_map)
    ultimately have "map_find d (dbDb w') = None" by (simp add: map_find_None)
    with None show ?thesis by simp
  next
    case (Some db)
    with quiet_find [OF assms Some] show ?thesis by auto
  qed
  then show ?thesis by (simp add: hosts_of_dprops_def)
qed

lemma sweep_loop_ok:
  assumes "winv w" and "set ds \<subseteq> fst ` set (dbDb w)"
  shows "\<exists>w'. sweep_loop t ds w = Some w' \<and> winv w' \<and> quiet w w' \<and>
    hosts w' = sweep_hosts t (hosts_of_dprops ds w) (hosts w)"
  using assms
proof (induction ds arbitrary: w)
  case Nil
  then show ?case by (simp add: hosts_of_dprops_def)
next
  case (Cons d ds)
  have "map_find d (dbDb w) \<noteq> None" using Cons.prems(2) map_find_None [of d "dbDb w"] by auto
  then obtain db where db: "map_find d (dbDb w) = Some db" by blast
  obtain w1 where w1: "silent_loop t (allHosts db) w = Some w1" "winv w1" "quiet w w1"
    "hosts w1 = sweep_hosts t (set (allHosts db)) (hosts w)"
    using silent_loop_ok [OF Cons.prems(1) db order_refl] by blast
  have "fst ` set (dbDb w1) = fst ` set (dbDb w)" using w1(3) by (metis quiet_def set_map)
  with Cons.prems(2) obtain w' where w': "sweep_loop t ds w1 = Some w'" "winv w'" "quiet w1 w'"
    "hosts w' = sweep_hosts t (hosts_of_dprops ds w1) (hosts w1)"
    using Cons.IH [OF w1(2)] by auto
  have "sweep_loop t (d # ds) w = Some w'"
    using db w1(1) w'(1) by (simp add: DpropDb_handleSilentHosts_def)
  moreover have "hosts w' = sweep_hosts t (hosts_of_dprops (d # ds) w) (hosts w)"
    using w'(4) w1(4) db hosts_of_dprops_quiet [OF w1(3)]
    by (simp add: sweep_hosts_Un) (simp add: hosts_of_dprops_def)
  ultimately show ?case
    using w'(2) quiet_trans [OF w1(3) w'(3)] by blast
qed

lemma hosts_of_all: "winv w \<Longrightarrow> hosts_of_dprops (map fst (dbDb w)) w = known_hosts w"
  using winv_D(1) [of w]
  by (force simp: hosts_of_dprops_def known_hosts_def map_find_iff [symmetric])

lemma handleSilentHosts_ok:
  assumes "winv w"
  shows "\<exists>w'. DmucsDb_handleSilentHosts t w = Some w' \<and> winv w' \<and> quiet w w' \<and>
    hosts w' = sweep_hosts t (known_hosts w) (hosts w)"
  using sweep_loop_ok [OF assms, of "map fst (dbDb w)" t] hosts_of_all [OF assms]
  by (simp add: DmucsDb_handleSilentHosts_def)

text \<open>
  Right after a sweep no available host is stale: every known host that is available (or
  overloaded) has reported within the last 60 seconds.
\<close>

lemma no_stale_host_after_sweep:
  assumes "winv w" and "DmucsDb_handleSilentHosts t w = Some w'" and "p \<in> known_hosts w'"
    and "h_state (hosts w' p) \<in> {StateAvail, StateOverloaded}"
  shows "t - h_lastUpdate (hosts w' p) \<le> 60"
proof -
  have w': "winv w'" "quiet w w'" "hosts w' = sweep_hosts t (known_hosts w) (hosts w)"
    using handleSilentHosts_ok [OF assms(1), of t] assms(2) by auto
  have "known_hosts w' = known_hosts w"
    using hosts_of_all [OF w'(1)] hosts_of_all [OF assms(1)] hosts_of_dprops_quiet [OF w'(2)] w'(2)
    by (simp add: quiet_def)
  then show ?thesis
    using assms(3,4) w'(3) by (cases "h_state (hosts w p)")
      (auto simp: sweep_hosts_def seemsDown_def DMUCS_HOST_SILENT_TIME_def split: if_splits)
qed

end
