(* ===== verification/Dmucs_Hosts_File.thy ===== *)
theory Dmucs_Hosts_File
  imports Dmucs_Sweep
begin

text \<open>
  \<open>dmucs_hosts_file.h\<close> and \<open>dmucs_hosts_file.cc\<close>: the hosts-info file, read again when its
  change time differs from the last one seen or when a host is not found in it, and
  \<open>DmucsHost::createHost\<close>, its only client.
\<close>

type_synonym host_info_db = "(ip, int \<times> int) smap"

record hosts_file =
  hf_db :: host_info_db
  lastFileChangeTime :: int

subsection \<open>Reading the file\<close>

datatype line_result = BadLine | SkipLine | HostLine ip int int

definition resolve_machine :: "env \<Rightarrow> string \<Rightarrow> ip option" where
  \<comment> \<open>\<open>gethostbyaddr\<close> is given the size of an \<open>unsigned long\<close>\<close>
  "resolve_machine e machine = map_option snd
     (if inet_addr machine \<noteq> INADDR_NONE then gethostbyaddr e 8 (inet_addr machine)
      else gethostbyname e machine)"

definition MACHINE_SIZE :: nat where
  "MACHINE_SIZE = 256"

definition host_line :: "env \<Rightarrow> string \<Rightarrow> line_result option" where
  \<comment> \<open>\<open>None\<close>: the first word overruns the buffer \<open>machine\<close>\<close>
  "host_line e line = (case sscanf (c_str line) ''%s %d %d'' of
     CStr machine # rest \<Rightarrow>
       if MACHINE_SIZE \<le> length machine then None
       else (case rest of
           [CInt numcpus, CInt powerIndex] \<Rightarrow> (case resolve_machine e machine of
               None \<Rightarrow> Some SkipLine
             | Some a \<Rightarrow> Some (HostLine a numcpus powerIndex))
         | _ \<Rightarrow> Some BadLine)
   | _ \<Rightarrow> Some BadLine)"

definition getline :: "string \<Rightarrow> string \<times> string" where
  "getline s = (takeWhile (\<lambda>c. c \<noteq> CHR 0x0A) s, drop 1 (dropWhile (\<lambda>c. c \<noteq> CHR 0x0A) s))"

lemma length_getline: "s \<noteq> [] \<Longrightarrow> length (snd (getline s)) < length s"
  using length_dropWhile_le [of "\<lambda>c. c \<noteq> CHR 0x0A" s] by (cases s) (auto simp: getline_def)

lemma length_skip_ws: "length (skip_ws s) \<le> length s"
  by (simp add: skip_ws_def length_dropWhile_le)

function read_loop :: "env \<Rightarrow> host_info_db \<Rightarrow> string \<Rightarrow> host_info_db option" where
  "read_loop e m inp =
     (let s = skip_ws inp
      in if s = [] then Some m
         else if hd s = CHR ''#'' then read_loop e m (snd (getline s))
         else (case getline s of (line, rest) \<Rightarrow> (case host_line e line of
             None \<Rightarrow> None
           | Some BadLine \<Rightarrow> Some m
           | Some SkipLine \<Rightarrow> read_loop e m rest
           | Some (HostLine a n p) \<Rightarrow> read_loop e (map_insert a (n, p) m) rest)))"
  by pat_completeness auto
termination
proof (relation "measure (\<lambda>(e, m, s). length s)", simp_all)
  show "length (snd (getline (skip_ws inp))) < length inp" if "skip_ws inp \<noteq> []" for inp
    using length_getline [OF that] length_skip_ws [of inp] by simp
  then show "length y < length inp" if "skip_ws inp \<noteq> []" "(l, y) = getline (skip_ws inp)" for inp l y
    using that by (metis snd_conv)
qed (metis length_getline length_skip_ws order_less_le_trans snd_conv)

declare read_loop.simps [simp del]

definition readFileIntoDb :: "env \<Rightarrow> host_info_db option" where
  "readFileIntoDb e = (case hosts_text e of None \<Rightarrow> Some [] | Some inp \<Rightarrow> read_loop e [] inp)"

definition hasFileChanged :: "env \<Rightarrow> int \<Rightarrow> bool \<times> int" where
  "hasFileChanged e lastTime = (case hosts_ctime e of
     None \<Rightarrow> (True, lastTime)
   | Some c \<Rightarrow> if lastTime \<noteq> c then (True, c) else (False, lastTime))"

definition HostsFile_new :: "env \<Rightarrow> hosts_file option" where
  "HostsFile_new e = do {
     m \<leftarrow> readFileIntoDb e;
     Some \<lparr>hf_db = m, lastFileChangeTime = snd (hasFileChanged e 0)\<rparr> }"

definition HostsFile_getInstance :: "env \<Rightarrow> hosts_file option \<Rightarrow> hosts_file option" where
  "HostsFile_getInstance e inst = (case inst of None \<Rightarrow> HostsFile_new e | Some hf \<Rightarrow> Some hf)"

definition getDataForHost :: "env \<Rightarrow> ip \<Rightarrow> hosts_file \<Rightarrow> ((bool \<times> int \<times> int) \<times> hosts_file) option" where
  "getDataForHost e ipAddr hf = (case hasFileChanged e (lastFileChangeTime hf) of (changed, t) \<Rightarrow> do {
     m \<leftarrow> (if changed then readFileIntoDb e else Some (hf_db hf));
     m' \<leftarrow> (if map_find ipAddr m = None then readFileIntoDb e else Some m);
     Some (case map_find ipAddr m' of None \<Rightarrow> (False, 1, 1) | Some (n, p) \<Rightarrow> (True, n, p),
       \<lparr>hf_db = m', lastFileChangeTime = t\<rparr>) })"

subsection \<open>Well-formed data\<close>

definition host_info_ok :: "host_info_db \<Rightarrow> bool" where
  \<comment> \<open>no negative cpu count\<close>
  "host_info_ok m \<longleftrightarrow> list_all (\<lambda>(a, n, p). 0 \<le> n) m"

definition file_ok :: "env \<Rightarrow> bool" where
  \<comment> \<open>no line overruns the buffer, and no cpu count is negative\<close>
  "file_ok e = (case readFileIntoDb e of None \<Rightarrow> False | Some m \<Rightarrow> host_info_ok m)"

lemma host_info_ok_find: "host_info_ok m \<Longrightarrow> map_find a m = Some (n, p) \<Longrightarrow> 0 \<le> n"
  by (auto simp: host_info_ok_def list_all_iff dest!: map_find_in_set)

lemma file_ok_read: "file_ok e \<Longrightarrow> \<exists>m. readFileIntoDb e = Some m \<and> host_info_ok m"
  by (simp add: file_ok_def split: option.splits)

definition inst_ok :: "hosts_file option \<Rightarrow> bool" where
  "inst_ok inst = (case inst of None \<Rightarrow> True | Some hf \<Rightarrow> host_info_ok (hf_db hf))"

lemma getInstance_ok:
  assumes "file_ok e" and "inst_ok inst"
  shows "\<exists>hf. HostsFile_getInstance e inst = Some hf \<and> host_info_ok (hf_db hf)"
  using assms file_ok_read [OF assms(1)]
  by (auto simp: HostsFile_getInstance_def HostsFile_new_def inst_ok_def split: option.split)

lemma getDataForHost_ok:
  assumes "file_ok e" and "host_info_ok (hf_db hf)"
  shows "\<exists>found n p hf'. getDataForHost e a hf = Some ((found, n, p), hf') \<and> 0 \<le> n \<and>
    host_info_ok (hf_db hf')"
proof -
  obtain m where m: "readFileIntoDb e = Some m" "host_info_ok m"
    using file_ok_read [OF assms(1)] by blast
  then show ?thesis
    using assms host_info_ok_find [of m a] host_info_ok_find [of "hf_db hf" a]
    by (auto simp: getDataForHost_def split: option.splits prod.splits)
qed

text \<open>
  A lookup in the hosts-info file answers from the data it keeps afterwards, and these are fresh
  whenever the file has changed since the last look or the address was not found: no host is turned
  away because of stale data.
\<close>

lemma lookup_uses_fresh_data:
  assumes "getDataForHost e a hf = Some ((found, n, pix), hf')"
  shows "(found, n, pix) = (case map_find a (hf_db hf') of None \<Rightarrow> (False, 1, 1) | Some (k, q) \<Rightarrow> (True, k, q)) \<and>
    (\<not> found \<or> fst (hasFileChanged e (lastFileChangeTime hf)) \<longrightarrow> readFileIntoDb e = Some (hf_db hf'))"
  using assms by (auto simp: getDataForHost_def bind_eq_Some_conv split: if_splits option.splits prod.splits)

end
