(* ===== verification/Dmucs_Db_Ops.thy ===== *)
theory Dmucs_Db_Ops
  imports Dmucs_Hosts_File
begin

text \<open>
  Giving out, assigning and releasing cpus, adding hosts and collecting statistics: each keeps the
  invariant, and what each does to the unassigned and the assigned cpus.
\<close>

subsection \<open>Taking the best cpu\<close>

lemma best_tier_Some:
  "best_tier r m = Some (t, n, x) \<Longrightarrow>
    \<exists>l pre post. m = pre @ (t, l) # post \<and> n < length l \<and> n = r mod length l \<and> x = l ! n \<and>
      list_all (\<lambda>(s, k). k = []) pre"
proof (induction r m rule: best_tier.induct)
  case (2 r s cpus rest)
  show ?case
  proof (cases "cpus = []")
    case True
    with 2 obtain l pre post where "rest = pre @ (t, l) # post" "n < length l" "n = r mod length l"
      "x = l ! n" "list_all (\<lambda>(s, k). k = []) pre" by auto
    with True show ?thesis by (intro exI [of _ l] exI [of _ "(s, cpus) # pre"] exI [of _ post]) simp
  next
    case False
    with 2 show ?thesis
      by (intro exI [of _ cpus] exI [of _ "[]"] exI [of _ rest]) (auto simp: Let_def)
  qed
qed simp

lemma best_tier_None: "best_tier r m = None \<longleftrightarrow> list_all (\<lambda>(s, k). k = []) m"
  by (induction r m rule: best_tier.induct) (auto simp: Let_def)

text \<open>The tier that is served is the highest one that has a cpu.\<close>

lemma best_tier_highest:
  assumes m: "msorted (availCpus db)" and b: "best_tier r (rev (availCpus db)) = Some (t, n, x)"
  shows "n < length (tier_cpus t db)" and "x = tier_cpus t db ! n" and "n = r mod length (tier_cpus t db)"
    and "map_find t (availCpus db) = Some (tier_cpus t db)"
    and "t < s \<Longrightarrow> tier_cpus s db = []"
proof -
  obtain l pre post where p: "rev (availCpus db) = pre @ (t, l) # post" "n < length l" "n = r mod length l"
      "x = l ! n" "list_all (\<lambda>(s, k). k = []) pre"
    using best_tier_Some [OF b] by blast
  then have "availCpus db = rev post @ (t, l) # rev pre"
    by (metis append.assoc append_Cons append_Nil rev.simps(2) rev_append rev_rev_ident)
  then have f: "map_find t (availCpus db) = Some l" using m by (simp add: map_find_iff)
  then show "map_find t (availCpus db) = Some (tier_cpus t db)" "n < length (tier_cpus t db)"
    "x = tier_cpus t db ! n" "n = r mod length (tier_cpus t db)"
    using p by (simp_all add: tier_cpus_def)
  show "tier_cpus s db = []" if s: "t < s"
  proof (cases "map_find s (availCpus db)")
    case None
    then show ?thesis by (simp add: tier_cpus_def)
  next
    case (Some k)
    then have "(s, k) \<in> set (rev (availCpus db))" using m by (simp add: map_find_iff)
    then have "(s, k) \<in> set pre \<or> (s, k) = (t, l) \<or> (s, k) \<in> set post" using p(1) by auto
    moreover have "(s, k) \<notin> set post"
    proof
      assume "(s, k) \<in> set post"
      moreover have "msorted (rev post @ (t, l) # rev pre)"
        using m \<open>availCpus db = rev post @ (t, l) # rev pre\<close> by simp
      ultimately have "s < t" by (auto simp: msorted_def ksorted_def sorted_wrt_append)
      with s show False by simp
    qed
    ultimately show ?thesis using s p(5) Some by (auto simp: list_all_iff tier_cpus_def)
  qed
qed

lemma no_cpus_iff:
  assumes "msorted (availCpus db)"
  shows "best_tier r (rev (availCpus db)) = None \<longleftrightarrow> (\<forall>t. tier_cpus t db = [])"
proof -
  have "list_all (\<lambda>(s, k). k = []) (availCpus db) \<longleftrightarrow> (\<forall>t. tier_cpus t db = [])"
    using assms by (auto simp: list_all_iff tier_cpus_def map_find_iff split: option.split)
  then show ?thesis by (simp add: best_tier_None)
qed

text \<open>Exactly one copy of the address is taken, from the highest tier, at the place drawn.\<close>

lemma getBest_db:
  assumes inv: "dinv {} H n d db" and g: "DpropDb_getBestAvailCpu r db = (Inr x, db')"
  obtains t where "x \<in> set (tier_cpus t db)" and "\<And>s. t < s \<Longrightarrow> tier_cpus s db = []"
    and "\<And>s. tier_cpus s db' = (if s = t
          then list_erase_nth (r mod length (tier_cpus t db)) (tier_cpus t db) else tier_cpus s db)"
    and "x = tier_cpus t db ! (r mod length (tier_cpus t db))"
    and "dinv {} H n d db'" and "same_rest db db'" and "availHosts db' = availHosts db"
proof -
  have cok: "cpus_ok H db" and hok: "hosts_ok H n d db" and sok: "sets_ok {} H db"
    using inv by (simp_all add: dinv_def)
  note ms = cpus_ok_D(1) [OF cok]
  obtain t m where b: "best_tier r (rev (availCpus db)) = Some (t, m, x)"
    and db': "db' = db\<lparr>availCpus := map_update t (list_erase_nth m) (availCpus db)\<rparr>"
    using g by (auto simp: DpropDb_getBestAvailCpu_def split: option.splits)
  note best = best_tier_highest [OF ms b]
  have tc: "tier_cpus s db' = (if s = t then list_erase_nth m (tier_cpus t db) else tier_cpus s db)" for s
    using best(4) by (cases "map_find t (availCpus db)") (simp_all add: db' tier_cpus_def map_find_update)
  have "cpus_ok H db'"
  proof (rule cpus_okI)
    fix y s assume "y \<in> set (tier_cpus s db')"
    then have "y \<in> set (tier_cpus s db)"
      using set_list_erase_nth [of m "tier_cpus t db"] by (auto simp: tc split: if_splits)
    then show "\<exists>p\<in>set (availHosts db'). h_ip (H p) = y \<and> getTier (H p) = s"
      using cpus_ok_D(3) [OF cok] by (simp add: db')
  qed (use cpus_ok_D [OF cok] in \<open>auto simp: db' stl_simps map_find_update\<close>)
  moreover have "hosts_ok H n d db'" "sets_ok {} H db'"
    using hok sok by (simp_all add: db' hosts_ok_def sets_ok_def)
  ultimately have "dinv {} H n d db'" by (simp add: dinv_def)
  moreover have "x \<in> set (tier_cpus t db)" using best(1,2) by simp
  ultimately show ?thesis
    using best tc by (intro that [of t]) (simp_all add: db')
qed

lemma getBest_fails:
  assumes "dinv {} H n d db"
  shows "(\<exists>e db'. DpropDb_getBestAvailCpu r db = (Inl e, db')) \<longleftrightarrow> (\<forall>t. tier_cpus t db = [])"
    and "DpropDb_getBestAvailCpu r db = (Inl e, db') \<Longrightarrow> e = DmucsNoMoreHosts \<and> db' = db"
  using assms no_cpus_iff [of db r]
  by (auto simp: DpropDb_getBestAvailCpu_def dinv_def cpus_ok_def split: option.splits)

text \<open>The cpu that is given out belongs to an available host.\<close>

lemma getBest_owner:
  assumes "dinv {} H n d db" and "x \<in> set (tier_cpus t db)"
  obtains p where "DpropDb_getHost H x db = Inr p" and "p \<in> set (availHosts db)"
    and "p \<in> set (allHosts db)" and "h_ip (H p) = x" and "getTier (H p) = t"
proof -
  have cok: "cpus_ok H db" and hok: "hosts_ok H n d db" and sok: "sets_ok {} H db"
    using assms(1) by (simp_all add: dinv_def)
  obtain p where p: "p \<in> set (availHosts db)" "h_ip (H p) = x" "getTier (H p) = t"
    using cpus_ok_D(3) [OF cok assms(2)] by blast
  then have a: "p \<in> set (allHosts db)" using avail_iff [OF sok] by simp
  have "kfind (host_key H) x (allHosts db) = Some p"
    using hok a p(2) by (simp add: kfind_Some hosts_ok_def host_key_def)
  with p a show ?thesis by (intro that [of p]) (simp_all add: DpropDb_getHost_def)
qed

subsection \<open>Assignments\<close>

lemma dinv_assigned:
  assumes "dinv X H n d db" and "msorted a"
  shows "dinv X H n d (db\<lparr>assignedCpus := a, numAssignedCpus := i, numConcurrentAssigned := j\<rparr>)"
  using assms by (simp add: dinv_defs)

lemma assign_db:
  assumes "dinv X H n d db"
  shows "dinv X H n d (DpropDb_assignCpuToClient x sk db)"
    and "map_find s (assignedCpus (DpropDb_assignCpuToClient x sk db)) =
      (if s = sk then (case map_find sk (assignedCpus db) of None \<Rightarrow> Some x | Some y \<Rightarrow> Some y)
       else map_find s (assignedCpus db))"
  using assms dinv_assigned [OF assms, of "map_insert sk x (assignedCpus db)"]
  by (simp_all add: DpropDb_assignCpuToClient_def Let_def dinv_def cpus_ok_def msorted_insert
      map_find_insert)

lemma winv_sock:
  assumes w: "winv w" and m: "msorted (sock2DpropDb w')"
    and same: "hosts w' = hosts w" "nexthost w' = nexthost w" "dbDb w' = dbDb w"
    and a: "\<And>s d. map_find s (sock2DpropDb w') = Some d \<Longrightarrow>
      (\<exists>db. map_find d (dbDb w) = Some db \<and> map_find s (assignedCpus db) \<noteq> None)"
  shows "winv w'"
  using assms winv_D [OF w] by (simp add: winv_def)

lemma assign_ok:
  assumes w: "winv w" and db: "map_find d (dbDb w) = Some db"
  shows "\<exists>w'. DmucsDb_assignCpuToClient x d sk w = Some w' \<and> winv w' \<and>
    w' = put_db d (DpropDb_assignCpuToClient x sk db)
           (w\<lparr>sock2DpropDb := map_insert sk d (sock2DpropDb w)\<rparr>)"
proof -
  let ?db = "DpropDb_assignCpuToClient x sk db"
  let ?w = "put_db d ?db (w\<lparr>sock2DpropDb := map_insert sk d (sock2DpropDb w)\<rparr>)"
  have inv: "dinv {} (hosts w) (nexthost w) d db" by (rule winv_D(3) [OF w db])
  have "winv (put_db d ?db (w\<lparr>hosts := hosts w\<rparr>))"
    by (rule winv_put [OF w db assign_db(1) [OF inv]])
      (use winv_D(4) [OF w] db in \<open>fastforce simp: assign_db(2) [OF inv] split: option.split\<close>)+
  then have w1: "winv (put_db d ?db w)" by simp
  have "winv ?w"
  proof (rule winv_sock [OF w1])
    fix s d' assume "map_find s (sock2DpropDb ?w) = Some d'"
    then have c: "s = sk \<and> d' = d \<and> map_find sk (sock2DpropDb w) = None \<or> map_find s (sock2DpropDb w) = Some d'"
      using winv_D(2) [OF w] by (auto simp: map_find_insert split: if_splits option.splits)
    then show "\<exists>db'. map_find d' (dbDb (put_db d ?db w)) = Some db' \<and> map_find s (assignedCpus db') \<noteq> None"
    proof
      assume "s = sk \<and> d' = d \<and> map_find sk (sock2DpropDb w) = None"
      then show ?thesis using db by (simp add: assign_db(2) [OF inv] split: option.split)
    next
      assume "map_find s (sock2DpropDb w) = Some d'"
      then show ?thesis using winv_D(4) [OF w1, of s d'] by simp
    qed
  qed (use winv_D(2) [OF w] in \<open>simp_all add: msorted_insert put_db_def\<close>)
  then show ?thesis
    using db by (simp add: DmucsDb_assignCpuToClient_def on_db_put)
qed

subsection \<open>Releasing a cpu\<close>

text \<open>The database of a property, empty if there is none yet.\<close>

definition db_of :: "dprop \<Rightarrow> world \<Rightarrow> dprop_db" where
  "db_of d w = (case map_find d (dbDb w) of None \<Rightarrow> DpropDb_new d | Some db \<Rightarrow> db)"

text \<open>Fields of the host object that no operation on the databases reads.\<close>

lemma dinv_getName:
  assumes "dinv X H n d db"
  shows "dinv X (H(p := snd (DmucsHost_getName e (H p)))) n d db"
  by (rule dinv_hosts_cong [OF assms]) (auto simp: frame_simps)

text \<open>
  One cpu of an available host comes back to the tier of the host; if the host is not available (or
  gone) the cpu does not come back.
\<close>

lemma release_db:
  assumes inv: "dinv {} H n d db" and a: "map_find sk (assignedCpus db) = Some x"
  obtains H' db' where "DpropDb_releaseCpu e sk H db = Some (H', db')"
    and "dinv {} H' n d db'" and "allHosts db' = allHosts db"
    and "assignedCpus db' = map_erase sk (assignedCpus db)"
    and "numAssignedCpus db' = numAssignedCpus db" and "numConcurrentAssigned db' = numConcurrentAssigned db"
    and "\<And>q. h_dprop (H q) \<noteq> d \<Longrightarrow> H' q = H q"
    and "\<And>q. H' q = H q \<or> H' q = snd (DmucsHost_getName e (H q))"
    and "\<And>t. tier_cpus t db' = tier_cpus t db @
      (if \<exists>p\<in>set (availHosts db). h_ip (H p) = x \<and> getTier (H p) = t then [x] else [])"
proof -
  have cok: "cpus_ok H db" and hok: "hosts_ok H n d db" and sok: "sets_ok {} H db"
    using inv by (simp_all add: dinv_def)
  let ?db1 = "db\<lparr>assignedCpus := map_erase sk (assignedCpus db)\<rparr>"
  have inv1: "dinv {} H n d ?db1"
    using inv by (simp add: dinv_defs msorted_erase)
  have tc1: "tier_cpus t ?db1 = tier_cpus t db" for t by (simp add: tier_cpus_def)
  show ?thesis
  proof (cases "kfind (host_key H) x (allHosts db)")
    case None
    have "h_ip (H p) \<noteq> x" if "p \<in> set (availHosts db)" for p
      using that None avail_iff [OF sok, of p] by (auto simp: kfind_None host_key_def)
    with None inv1 a show ?thesis
      by (intro that [of H ?db1]) (auto simp: DpropDb_releaseCpu_def DpropDb_getHost_def tc1)
  next
    case (Some p)
    let ?H = "H(p := snd (DmucsHost_getName e (H p)))"
    have p: "p \<in> set (allHosts db)" "h_ip (H p) = x"
      using Some hok kfind_SomeD by (fastforce simp: host_key_def)+
    have pd: "h_dprop (H p) = d" using dinv_host [OF inv p(1)] by simp
    have inv2: "dinv {} ?H n d ?db1" by (rule dinv_getName [OF inv1])
    have own: "(\<exists>q\<in>set (availHosts db). h_ip (H q) = x \<and> getTier (H q) = t) \<longleftrightarrow>
        h_state (H p) = StateAvail \<and> getTier (H p) = t" for t
    proof -
      have "q = p" if "q \<in> set (availHosts db)" "h_ip (H q) = x" for q
        using that host_key_inj [OF hok _ p(1), of q] p(2) avail_iff [OF sok, of q] by simp
      then show ?thesis using p avail_iff [OF sok, of p] by blast
    qed
    show ?thesis
    proof (cases "h_state (H p) = StateAvail")
      case False
      then have "getStateAsInt (?H p) \<noteq> STATUS_AVAILABLE"
        by (cases "h_state (H p)") (simp_all add: getStateAsInt_def frame_simps)
      with False Some inv2 a pd show ?thesis
        by (intro that [of ?H ?db1]) (auto simp: DpropDb_releaseCpu_def DpropDb_getHost_def tc1 own)
    next
      case True
      then have s: "getStateAsInt (?H p) = STATUS_AVAILABLE"
        by (simp add: getStateAsInt_def frame_simps)
      obtain m where add: "addCpusToTier (getTier (H p)) x 1 ?db1 = Some (?db1\<lparr>availCpus := m\<rparr>)"
        and m: "msorted m" and find: "\<And>s. map_find s m = (if s = getTier (H p)
          then Some (tier_cpus (getTier (H p)) ?db1 @ replicate (nat 1) x) else map_find s (availCpus ?db1))"
        by (rule addCpusToTier_Some [of ?db1 1 "getTier (H p)" x]) (use cpus_ok_D(1) [OF cok] in auto)
      let ?db2 = "?db1\<lparr>availCpus := m\<rparr>"
      have tc: "tier_cpus t ?db2 = (if t = getTier (H p) then tier_cpus t db @ [x] else tier_cpus t db)" for t
        using find [of t] by (auto simp: tier_cpus_def)
      have cok2: "cpus_ok ?H ?db1" using inv2 by (simp add: dinv_def)
      have "cpus_ok ?H ?db2"
      proof (rule cpus_okI)
        fix y t assume "y \<in> set (tier_cpus t ?db2)"
        then have "y \<in> set (tier_cpus t db) \<or> y = x \<and> t = getTier (H p)"
          by (auto simp: tc split: if_splits)
        then show "\<exists>q\<in>set (availHosts ?db2). h_ip (?H q) = y \<and> getTier (?H q) = t"
        proof
          assume "y \<in> set (tier_cpus t db)"
          then show ?thesis using cpus_ok_D(3) [OF cok2, of y t] by (simp add: tc1)
        next
          assume "y = x \<and> t = getTier (H p)"
          then show ?thesis using True p avail_iff [OF sok] by (intro bexI [of _ p]) (auto simp: frame_simps)
        qed
      next
        fix q assume "q \<in> set (availHosts ?db2)"
        then have "map_find (getTier (?H q)) (availCpus ?db1) \<noteq> None"
          using cpus_ok_D(4) [OF cok2, of q] by simp
        then show "map_find (getTier (?H q)) (availCpus ?db2) \<noteq> None" using find by auto
      qed (use cpus_ok_D [OF cok2] m in simp_all)
      moreover have "hosts_ok ?H n d ?db2" "sets_ok {} ?H ?db2"
        using inv2 by (auto simp: dinv_def hosts_ok_def sets_ok_def)
      ultimately have "dinv {} ?H n d ?db2" by (simp add: dinv_def)
      moreover have "DpropDb_releaseCpu e sk H db = Some (?H, ?db2)"
        using a Some s add by (simp add: DpropDb_releaseCpu_def DpropDb_getHost_def frame_simps)
      ultimately show ?thesis
        using pd True by (intro that [of ?H ?db2]) (auto simp: tc own)
    qed
  qed
qed

definition same_hosts :: "world \<Rightarrow> world \<Rightarrow> bool" where
  \<comment> \<open>the host objects are the same but for a cached name\<close>
  "same_hosts w w' \<longleftrightarrow> nexthost w' = nexthost w \<and>
     (\<forall>q. hosts w' q\<lparr>h_name := h_name (hosts w q)\<rparr> = hosts w q)"

lemma getName_other: "(snd (DmucsHost_getName e h))\<lparr>h_name := h_name h\<rparr> = h"
  by (simp add: DmucsHost_getName_def Let_def)

lemma release_ok:
  assumes w: "winv w"
  shows "\<exists>w'. DmucsDb_releaseCpu e sk w = Some w' \<and> winv w' \<and> same_hosts w w' \<and>
    sock2DpropDb w' = map_erase sk (sock2DpropDb w) \<and> map fst (dbDb w') = map fst (dbDb w)"
proof (cases "map_find sk (sock2DpropDb w)")
  case None
  then have "map_erase sk (sock2DpropDb w) = sock2DpropDb w"
    by (simp add: map_find_None map_erase_def kerase_def) (metis (mono_tags, lifting) filter_True image_eqI)
  with None w show ?thesis by (auto simp: DmucsDb_releaseCpu_def same_hosts_def)
next
  case (Some d)
  obtain db x where db: "map_find d (dbDb w) = Some db" and a: "map_find sk (assignedCpus db) = Some x"
    using winv_D(4) [OF w Some] by blast
  have inv: "dinv {} (hosts w) (nexthost w) d db" by (rule winv_D(3) [OF w db])
  let ?w1 = "w\<lparr>sock2DpropDb := map_erase sk (sock2DpropDb w)\<rparr>"
  have w1: "winv ?w1"
    by (rule winv_sock [OF w]) (use winv_D(2,4) [OF w] in \<open>auto simp: msorted_erase map_find_erase split: if_splits\<close>)
  obtain H' db' where r: "DpropDb_releaseCpu e sk (hosts w) db = Some (H', db')"
    and inv': "dinv {} H' (nexthost w) d db'" and as: "assignedCpus db' = map_erase sk (assignedCpus db)"
    and H: "\<And>q. h_dprop (hosts w q) \<noteq> d \<Longrightarrow> H' q = hosts w q"
      "\<And>q. H' q = hosts w q \<or> H' q = snd (DmucsHost_getName e (hosts w q))"
    by (rule release_db [OF inv a]) blast
  let ?w2 = "put_db d db' (?w1\<lparr>hosts := H'\<rparr>)"
  have "winv ?w2"
    by (rule winv_put [OF w1]) (use db inv' H as winv_D(4) [OF w1] in \<open>fastforce simp: map_find_erase\<close>)+
  moreover have "same_hosts w ?w2"
  proof -
    have "H' q\<lparr>h_name := h_name (hosts w q)\<rparr> = hosts w q" for q
      using H(2) [of q] getName_other [of "hosts w q" e] by (elim disjE) simp_all
    then show ?thesis by (simp add: same_hosts_def)
  qed
  moreover have "DmucsDb_releaseCpu e sk w = Some ?w2"
    using Some db r by (simp add: DmucsDb_releaseCpu_def put_db_def)
  ultimately show ?thesis by (auto simp: put_db_def)
qed

text \<open>What a release does to the database of the socket.\<close>

lemma release_world:
  assumes w: "winv w" and d: "map_find sk (sock2DpropDb w) = Some d"
  obtains db x w' where "map_find d (dbDb w) = Some db" and "map_find sk (assignedCpus db) = Some x"
    and "DmucsDb_releaseCpu e sk w = Some w'" and "winv w'"
    and "assignedCpus (db_of d w') = map_erase sk (assignedCpus db)"
    and "\<And>t. tier_cpus t (db_of d w') = tier_cpus t db @
      (if \<exists>p\<in>set (availHosts db). h_ip (hosts w p) = x \<and> getTier (hosts w p) = t then [x] else [])"
proof -
  obtain db x where db: "map_find d (dbDb w) = Some db" and a: "map_find sk (assignedCpus db) = Some x"
    using winv_D(4) [OF w d] by blast
  obtain w' where w': "DmucsDb_releaseCpu e sk w = Some w'" "winv w'" using release_ok [OF w] by blast
  obtain H' db' where r: "DpropDb_releaseCpu e sk (hosts w) db = Some (H', db')"
    and as: "assignedCpus db' = map_erase sk (assignedCpus db)"
    and tc: "\<And>t. tier_cpus t db' = tier_cpus t db @
      (if \<exists>p\<in>set (availHosts db). h_ip (hosts w p) = x \<and> getTier (hosts w p) = t then [x] else [])"
    by (rule release_db [OF winv_D(3) [OF w db] a]) blast
  have "map_find d (dbDb w') = Some db'"
    using w'(1) d db r by (auto simp: DmucsDb_releaseCpu_def map_find_update)
  then have "db_of d w' = db'" by (simp add: db_of_def)
  with db a w' as tc show ?thesis by (intro that [of db x w']) simp_all
qed

subsection \<open>Adding a host\<close>

lemma addNewHost_db:
  assumes inv: "dinv {} H n d db" and new: "h_dprop (H n) = d" "h_state (H n) = StateAvail" "0 \<le> h_ncpus (H n)"
    and fresh: "\<not> DpropDb_haveHost H (h_ip (H n)) db"
  obtains db' where "DpropDb_addNewHost H n db = Some db'" and "dinv {} H (Suc n) d db'"
    and "set (allHosts db') = insert n (set (allHosts db))" and "assignedCpus db' = assignedCpus db"
    and "numAssignedCpus db' = numAssignedCpus db" and "numConcurrentAssigned db' = numConcurrentAssigned db"
    and "\<And>t x. count_list (tier_cpus t db') x = count_list (tier_cpus t db) x +
      (if t = getTier (H n) \<and> x = h_ip (H n) then nat (h_ncpus (H n)) else 0)"
proof -
  have cok: "cpus_ok H db" and hok: "hosts_ok H n d db" and sok: "sets_ok {} H db"
    using inv by (simp_all add: dinv_def)
  let ?db = "db\<lparr>allHosts := addToHostSet H n (allHosts db)\<rparr>"
  have "host_key H n \<notin> host_key H ` set (allHosts db)"
    using fresh by (simp add: DpropDb_haveHost_def kfind_None host_key_def)
  then have all: "set (allHosts ?db) = insert n (set (allHosts db))"
    using hok by (simp add: addToHostSet_def set_kinsert hosts_ok_def)
  have n: "n \<notin> set (allHosts db)" using hok by (auto simp: hosts_ok_def)
  have st: "state_set st ?db = state_set st db" for st by (cases st) simp_all
  have "hosts_ok H (Suc n) d ?db"
    using hok all new by (auto simp: hosts_ok_def ksorted_addToHostSet less_Suc_eq)
  moreover have "sets_ok {n} H ?db"
  proof -
    have "allHosts ?db = addToHostSet H n (allHosts db)" by simp
    with all have "set (addToHostSet H n (allHosts db)) = insert n (set (allHosts db))" by metis
    with sok n show ?thesis by (auto simp: sets_ok_def st)
  qed
  moreover have "cpus_ok H ?db" by (rule cpus_ok_cong [OF cok]) simp_all
  ultimately have inv1: "dinv {n} H (Suc n) d ?db" by (simp add: dinv_def)
  obtain db' where e: "enter_db StateAvail H n ?db = Some db'" and inv': "dinv {} H (Suc n) d db'"
    and r: "same_rest ?db db'"
    by (rule enter_ok [OF inv1 _ new(2)]) (use all in auto)
  have "msorted (availCpus ?db)" using cpus_ok_D(1) [OF cok] by simp
  then have "count_list (tier_cpus t db') x = count_list (tier_cpus t db) x +
      (if t = getTier (H n) \<and> x = h_ip (H n) then nat (h_ncpus (H n)) else 0)" for t x
    using enter_counts [OF e, of t x] by (simp add: tier_cpus_def)
  then show ?thesis
    using e inv' r all by (intro that [of db']) (auto simp: DpropDb_addNewHost_def enter_db_def same_rest_def)
qed

lemma winv_new_dprop:
  assumes w: "winv w" and d: "map_find d (dbDb w) = None"
  shows "winv (w\<lparr>dbDb := map_insert d (DpropDb_new d) (dbDb w)\<rparr>)"
proof -
  have f: "map_find d' (map_insert d (DpropDb_new d) (dbDb w)) =
      (if d' = d then Some (DpropDb_new d) else map_find d' (dbDb w))" for d'
    using d winv_D(1) [OF w] by (simp add: map_find_insert)
  have "dinv {} (hosts w) (nexthost w) d' db"
    if "(if d' = d then Some (DpropDb_new d) else map_find d' (dbDb w)) = Some db" for d' db
    using that winv_D(3) [OF w, of d' db] DpropDb_new_dinv [of "hosts w" "nexthost w" d]
    by (auto split: if_splits)
  moreover have "\<exists>db. (if d' = d then Some (DpropDb_new d) else map_find d' (dbDb w)) = Some db \<and>
      map_find s (assignedCpus db) \<noteq> None" if "map_find s (sock2DpropDb w) = Some d'" for s d'
    using winv_D(4) [OF w that] d by auto
  ultimately show ?thesis
    using winv_D(1,2) [OF w] by (simp add: winv_def f msorted_insert)
qed

lemma winv_alloc:
  assumes w: "winv w"
  shows "winv (w\<lparr>hosts := (hosts w)(nexthost w := h)\<rparr>)"
proof -
  have "dinv {} ((hosts w)(nexthost w := h)) (nexthost w) d db" if "map_find d (dbDb w) = Some db" for d db
    by (rule dinv_hosts_cong [OF winv_D(3) [OF w that]])
      (use dinv_host [OF winv_D(3) [OF w that]] in auto)
  then show ?thesis using winv_D [OF w] by (simp add: winv_def)
qed

lemma world_swap:
  "w\<lparr>nexthost := n, hosts := H\<rparr> = w\<lparr>hosts := H, nexthost := n\<rparr>"
  "w\<lparr>dbDb := m, hosts := H, nexthost := n\<rparr> = w\<lparr>hosts := H, nexthost := n, dbDb := m\<rparr>"
  by (cases w; simp)+

lemma winv_next:
  assumes w: "winv w" and n: "nexthost w \<le> n"
  shows "winv (w\<lparr>nexthost := n\<rparr>)"
proof -
  have "dinv {} (hosts w) n d db" if "map_find d (dbDb w) = Some db" for d db
    by (rule dinv_hosts_cong [OF winv_D(3) [OF w that]]) (use n in auto)
  then show ?thesis using winv_D [OF w] by (simp add: winv_def)
qed

text \<open>
  \<open>host_added p w w'\<close>: the new host at \<open>p\<close> is known, all its cpus are free in its tier, and
  nothing else has changed.
\<close>

definition host_added :: "ip \<Rightarrow> dprop \<Rightarrow> int \<Rightarrow> int \<Rightarrow> world \<Rightarrow> world \<Rightarrow> bool" where
  "host_added a d ncpus pindex w w' \<longleftrightarrow> winv w' \<and> knows w' (nexthost w) \<and>
     hosts w' = (hosts w)(nexthost w := DmucsHost_new a d ncpus pindex) \<and>
     nexthost w' = Suc (nexthost w) \<and> sock2DpropDb w' = sock2DpropDb w \<and>
     set (allHosts (db_of d w')) = insert (nexthost w) (set (allHosts (db_of d w))) \<and>
     assignedCpus (db_of d w') = assignedCpus (db_of d w) \<and>
     (\<forall>d'. d' \<noteq> d \<longrightarrow> map_find d' (dbDb w') = map_find d' (dbDb w)) \<and>
     (\<forall>t x. count_list (tier_cpus t (db_of d w')) x = count_list (tier_cpus t (db_of d w)) x +
        (if t = pindex \<and> x = a then nat ncpus else 0))"

lemma addNewHost_ok:
  assumes w: "winv w" and fresh: "\<not> DmucsDb_haveHost a d w" and n: "0 \<le> ncpus"
  shows "\<exists>w'. DmucsDb_addNewHost (nexthost w)
      (w\<lparr>hosts := (hosts w)(nexthost w := DmucsHost_new a d ncpus pindex), nexthost := Suc (nexthost w)\<rparr>) = Some w'
      \<and> host_added a d ncpus pindex w w'"
proof -
  let ?p = "nexthost w" and ?h = "DmucsHost_new a d ncpus pindex"
  let ?w0 = "w\<lparr>hosts := (hosts w)(?p := ?h)\<rparr>"
  let ?w1 = "?w0\<lparr>dbDb := (case map_find d (dbDb w) of
      None \<Rightarrow> map_insert d (DpropDb_new d) (dbDb w) | Some _ \<Rightarrow> dbDb w)\<rparr>"
  have w1: "winv ?w1"
    using winv_alloc [OF w, of ?h] winv_new_dprop [OF winv_alloc [OF w, of ?h], of d]
    by (cases "map_find d (dbDb w)") simp_all
  have db: "map_find d (dbDb ?w1) = Some (db_of d w)"
    using winv_D(1) [OF w] by (simp add: db_of_def map_find_insert split: option.split)
  have other: "d' \<noteq> d \<Longrightarrow> map_find d' (dbDb ?w1) = map_find d' (dbDb w)" for d'
    using winv_D(1) [OF w] by (simp add: map_find_insert split: option.split)
  have inv: "dinv {} (hosts ?w1) ?p d (db_of d w)"
    using winv_D(3) [OF w1 db] by simp
  have "\<not> DpropDb_haveHost (hosts w) a (db_of d w)"
    using fresh by (simp add: DmucsDb_haveHost_def db_of_def DpropDb_haveHost_def DpropDb_new_def
        split: option.splits)
  moreover have "(hosts ?w1 q = hosts w q)" if "q \<in> set (allHosts (db_of d w))" for q
    using dinv_host [OF inv that] by auto
  ultimately have nh: "\<not> DpropDb_haveHost (hosts ?w1) a (db_of d w)"
    by (auto simp: DpropDb_haveHost_def kfind_None host_key_def)
  obtain db' where add: "DpropDb_addNewHost (hosts ?w1) ?p (db_of d w) = Some db'"
    and inv': "dinv {} (hosts ?w1) (Suc ?p) d db'"
    and all: "set (allHosts db') = insert ?p (set (allHosts (db_of d w)))"
    and as: "assignedCpus db' = assignedCpus (db_of d w)"
    and cnt: "\<And>t x. count_list (tier_cpus t db') x = count_list (tier_cpus t (db_of d w)) x +
      (if t = getTier (hosts ?w1 ?p) \<and> x = h_ip (hosts ?w1 ?p) then nat (h_ncpus (hosts ?w1 ?p)) else 0)"
    by (rule addNewHost_db [OF inv]) (use nh n in simp_all)
  let ?w1' = "?w1\<lparr>nexthost := Suc ?p\<rparr>"
  have w1': "winv ?w1'"
    by (rule winv_next [OF w1]) simp
  let ?w2 = "put_db d db' (?w1'\<lparr>hosts := hosts ?w1\<rparr>)"
  have db2: "map_find d (dbDb ?w1') = Some (db_of d w)" using db by simp
  have w2: "winv ?w2"
  proof (rule winv_put [OF w1' db2])
    show "dinv {} (hosts ?w1) (nexthost ?w1') d db'" using inv' by simp
    fix s assume "map_find s (sock2DpropDb ?w1') = Some d"
    from winv_D(4) [OF w1' this] db2 have "map_find s (assignedCpus (db_of d w)) \<noteq> None"
      by (metis option.inject)
    then show "map_find s (assignedCpus db') \<noteq> None" unfolding as .
  qed simp
  have "DmucsDb_addNewHost ?p (w\<lparr>hosts := (hosts w)(?p := ?h), nexthost := Suc ?p\<rparr>) = Some ?w2"
    using db add
    by (cases "map_find d (dbDb w)") (simp_all add: DmucsDb_addNewHost_def on_db_put world_swap)
  moreover have f2: "map_find d (dbDb ?w2) = Some db'" using db2 by simp
  then have "db_of d ?w2 = db'" by (simp add: db_of_def)
  moreover have "knows ?w2 ?p" using f2 all by (simp add: knows_def)
  moreover have "\<forall>d'. d' \<noteq> d \<longrightarrow> map_find d' (dbDb ?w2) = map_find d' (dbDb w)"
    using other by (simp add: put_db_find_other)
  ultimately show ?thesis
    using w2 all as cnt by (intro exI [of _ ?w2]) (simp add: host_added_def)
qed

subsection \<open>Statistics\<close>

lemma stats_keeps:
  assumes "dinv X H n d db"
  shows "dinv X H n d (snd (DpropDb_getStatsFromDb db))"
  using dinv_assigned [OF assms, of "assignedCpus db" 0 0] assms
  by (simp add: DpropDb_getStatsFromDb_def dinv_def cpus_ok_def)

lemma stats_loop_eq:
  "snd (stats_loop m) = map (\<lambda>(d, db). (d, snd (DpropDb_getStatsFromDb db))) m"
  by (induction m rule: stats_loop.induct) (auto split: prod.splits)

lemma map_find_map_snd: "map_find k (map (\<lambda>(d, x). (d, f x)) m) = map_option f (map_find k m)"
  by (induction m) auto

lemma getStats_ok:
  assumes w: "winv w"
  shows "winv (snd (DmucsDb_getStatsFromDb w))"
proof -
  let ?m = "snd (stats_loop (dbDb w))"
  have f: "map_find d ?m = map_option (\<lambda>db. snd (DpropDb_getStatsFromDb db)) (map_find d (dbDb w))" for d
    by (simp add: stats_loop_eq map_find_map_snd)
  have "map fst ?m = map fst (dbDb w)" by (simp add: stats_loop_eq split_beta comp_def)
  then have ms: "msorted ?m" using winv_D(1) [OF w] by (simp add: msorted_def ksorted_def)
  have a: "assignedCpus (snd (DpropDb_getStatsFromDb db)) = assignedCpus db" for db
    by (simp add: DpropDb_getStatsFromDb_def)
  have "winv (w\<lparr>dbDb := ?m\<rparr>)"
    unfolding winv_def
  proof (intro conjI allI impI)
    fix s d assume "map_find s (sock2DpropDb (w\<lparr>dbDb := ?m\<rparr>)) = Some d"
    then show "\<exists>db. map_find d (dbDb (w\<lparr>dbDb := ?m\<rparr>)) = Some db \<and> map_find s (assignedCpus db) \<noteq> None"
      using winv_D(4) [OF w, of s d] by (auto simp: f a)
  qed (use ms winv_D [OF w] stats_keeps in \<open>auto simp: f\<close>)
  then show ?thesis by (simp add: DmucsDb_getStatsFromDb_def split_beta)
qed

definition total_cpus :: "world \<Rightarrow> int" where
  "total_cpus w = sum_list (map (\<lambda>(d, db). sum_list (map (\<lambda>(t, l). int (length l)) (availCpus db)) +
     int (length (assignedCpus db))) (dbDb w))"

lemma stats_loop_sums:
  "fst (stats_loop m) = (sum_list (map (\<lambda>(d, db). numAssignedCpus db) m),
     sum_list (map (\<lambda>(d, db). numConcurrentAssigned db) m),
     sum_list (map (\<lambda>(d, db). sum_list (map (\<lambda>(t, l). int (length l)) (availCpus db)) +
       int (length (assignedCpus db))) m))"
  by (induction m rule: stats_loop.induct) (auto simp: DpropDb_getStatsFromDb_def split: prod.splits)

lemma statistics_collected_and_reset:
  "fst (DmucsDb_getStatsFromDb w) = (sum_list (map (\<lambda>(d, db). numAssignedCpus db) (dbDb w)),
     sum_list (map (\<lambda>(d, db). numConcurrentAssigned db) (dbDb w)), total_cpus w) \<and>
   fst (DmucsDb_getStatsFromDb (snd (DmucsDb_getStatsFromDb w))) = (0, 0, total_cpus w)"
  by (simp add: DmucsDb_getStatsFromDb_def split_beta stats_loop_sums stats_loop_eq total_cpus_def comp_def
      DpropDb_getStatsFromDb_def case_prod_unfold)

end
