(* ===== verification/Dmucs_Serialize.thy ===== *)
theory Dmucs_Serialize
  imports Dmucs_Db_Ops "HOL-Library.Multiset"
begin

text \<open>
  \<open>DmucsDpropDb::serialize\<close> and \<open>DmucsDb::serialize\<close>: the text a monitor request is answered
  with.  The cpus of a tier are sorted and written as runs; the loop that forms the runs starts at
  the address 0.0.0.0, and its variables \<open>curr\<close> and \<open>ct\<close> are kept as they are.
\<close>

definition NL :: string where
  "NL = [CHR 0x0A]"

fun uniq_loop :: "ip \<Rightarrow> int \<Rightarrow> ip list \<Rightarrow> (ip \<times> int) list" where
  "uniq_loop cur ct [] = (if ct \<noteq> 0 then [(cur, ct)] else [])"
| "uniq_loop cur ct (x # xs) =
     (if cur = x then uniq_loop cur (ct + 1) xs
      else (if cur \<noteq> 0 then [(cur, ct)] else []) @ uniq_loop x 1 xs)"

definition uniqIps :: "ip list \<Rightarrow> (ip \<times> int) list" where
  "uniqIps l = uniq_loop 0 0 (sort l)"

definition serialize_tier :: "int \<times> ip list \<Rightarrow> string" where
  "serialize_tier tier = (case tier of (t, l) \<Rightarrow>
     if l = [] then ''''
     else ''C '' @ string_of_int t @ '': '' @
       concat (map (\<lambda>(x, n). inet_ntoa x @ ''/'' @ string_of_int n @ '' '') (uniqIps l)) @ NL)"

definition serialize_host :: "(hptr \<Rightarrow> host) \<Rightarrow> hptr \<Rightarrow> string" where
  "serialize_host H p = ''H: '' @ inet_ntoa (h_ip (H p)) @ '' '' @
     string_of_int (status_int (getStateAsInt (H p))) @ NL"

definition DpropDb_serialize :: "(hptr \<Rightarrow> host) \<Rightarrow> dprop_db \<Rightarrow> string" where
  "DpropDb_serialize H db =
     ''D: '' @ [CHR 0x27] @ c_str (db_dprop db) @ [CHR 0x27] @ NL @
     concat (map (serialize_host H) (allHosts db)) @
     concat (map serialize_tier (rev (availCpus db)))"

definition DmucsDb_serialize :: "world \<Rightarrow> string" where
  "DmucsDb_serialize w = concat (map (\<lambda>(d, db). DpropDb_serialize (hosts w) db) (dbDb w))"

subsection \<open>The runs are the counts\<close>

lemma uniq_loop_counts:
  assumes "sorted (cur # xs)" and "cur \<noteq> 0" and "0 < ct"
  shows "uniq_loop cur ct xs =
    map (\<lambda>x. (x, int (count_list xs x) + (if x = cur then ct else 0)))
      (sorted_list_of_set (insert cur (set xs)))"
  using assms
proof (induction xs arbitrary: cur ct)
  case (Cons y ys)
  show ?case
  proof (cases "cur = y")
    case True
    then show ?thesis
      using Cons.IH [of cur "ct + 1"] Cons.prems by (auto simp: add.assoc add.commute add.left_commute)
  next
    case False
    with Cons.prems have lt: "cur < y" by auto
    then have ge: "\<And>z. z \<in> insert y (set ys) \<Longrightarrow> cur < z" using Cons.prems(1) by auto
    have y0: "y \<noteq> 0" using lt by (metis word_not_simps(1))
    have sl: "sorted_list_of_set (insert cur (set (y # ys))) = cur # sorted_list_of_set (insert y (set ys))"
    proof -
      have "sorted_list_of_set (insert cur (insert y (set ys))) =
          insort cur (sorted_list_of_set (insert y (set ys) - {cur}))"
        by (rule sorted_list_of_set_insert_remove) simp
      also have "insert y (set ys) - {cur} = insert y (set ys)" using ge by auto
      also have "insort cur (sorted_list_of_set (insert y (set ys))) = cur # sorted_list_of_set (insert y (set ys))"
        by (intro insort_is_Cons, subst set_sorted_list_of_set) (use ge in \<open>auto intro: less_imp_le\<close>)
      finally show ?thesis by simp
    qed
    have c: "count_list ys cur = 0" using ge by (force simp: count_list_0_iff)
    have ih: "uniq_loop y 1 ys = map (\<lambda>x. (x, int (count_list ys x) + (if x = y then 1 else 0)))
        (sorted_list_of_set (insert y (set ys)))"
      using Cons.IH [of y 1] Cons.prems y0 by simp
    have "map (\<lambda>x. (x, int (count_list ys x) + (if x = y then 1 else 0))) (sorted_list_of_set (insert y (set ys)))
      = map (\<lambda>x. (x, int (count_list (y # ys) x) + (if x = cur then ct else 0))) (sorted_list_of_set (insert y (set ys)))"
    proof (intro map_cong refl)
      fix x assume "x \<in> set (sorted_list_of_set (insert y (set ys)))"
      then have "cur < x" using ge by (subst (asm) set_sorted_list_of_set) auto
      then show "(x, int (count_list ys x) + (if x = y then 1 else 0)) =
          (x, int (count_list (y # ys) x) + (if x = cur then ct else 0))" by auto
    qed
    with False Cons.prems(2) ih c sl show ?thesis by simp
  qed
qed simp

lemma count_list_sort [simp]: "count_list (sort l) x = count_list l x"
  by (metis count_mset mset_sort)

lemma uniqIps_counts:
  assumes "0 \<notin> set l"
  shows "uniqIps l = map (\<lambda>x. (x, int (count_list l x))) (sorted_list_of_set (set l))"
proof (cases "sort l")
  case Nil
  then have "l = []" by (metis length_0_conv length_sort)
  then show ?thesis by (simp add: uniqIps_def)
next
  case (Cons x xs)
  then have s: "set l = insert x (set xs)" by (metis list.simps(15) set_sort)
  have c: "count_list l z = count_list (x # xs) z" for z using Cons by (metis count_list_sort)
  have "x \<noteq> 0" using assms s by auto
  moreover have "sorted (x # xs)" using Cons by (metis sorted_sort)
  ultimately have "uniq_loop x 1 xs = map (\<lambda>z. (z, int (count_list xs z) + (if z = x then 1 else 0)))
      (sorted_list_of_set (insert x (set xs)))"
    by (intro uniq_loop_counts) simp_all
  moreover have "map (\<lambda>z. (z, int (count_list xs z) + (if z = x then 1 else 0))) (sorted_list_of_set (insert x (set xs)))
      = map (\<lambda>z. (z, int (count_list l z))) (sorted_list_of_set (insert x (set xs)))"
    by (intro map_cong refl) (simp add: c)
  ultimately show ?thesis
    using \<open>x \<noteq> 0\<close> Cons s by (simp add: uniqIps_def)
qed

lemma serialized_tier_counts:
  assumes "0 \<notin> set l" and "l \<noteq> []"
  shows "serialize_tier (t, l) = ''C '' @ string_of_int t @ '': '' @
    concat (map (\<lambda>x. inet_ntoa x @ ''/'' @ string_of_int (int (count_list l x)) @ '' '')
      (sorted_list_of_set (set l))) @ NL"
  using assms by (simp add: serialize_tier_def uniqIps_counts comp_def)

lemma serialized_tier_counts_example:
  "serialize_tier (3, [2, 1, 2]) = ''C '' @ string_of_int 3 @ '': '' @
    concat (map (\<lambda>x. inet_ntoa x @ ''/'' @ string_of_int (int (count_list [2, 1, 2] x)) @ '' '')
      (sorted_list_of_set (set [2, 1, 2]))) @ NL"
  by (rule serialized_tier_counts) simp_all

end
