(* ===== verification/Dmucs_Msg.thy ===== *)
theory Dmucs_Msg
  imports Dmucs_Serialize
begin

text \<open>
  \<open>dmucs_msg.h\<close> and the parser of \<open>dmucs_msg.cc\<close>: the four messages and how the text of
  a request becomes one.  \<open>sscanf\<close> stores a word without a limit, so a word that does not fit its
  buffer (with its terminator) is undefined behaviour: the outer \<open>None\<close>.  The inner \<open>None\<close> is the
  null pointer returned for a bad message.
\<close>

datatype dmucs_msg =
    HostReqMsg ip dprop
  | LdAvgMsg ip ip cfloat cfloat cfloat dprop
  | StatusMsg ip ip host_status_t dprop
  | MonitorReqMsg ip dprop

definition DPROP_MAX_STRLEN :: nat where
  "DPROP_MAX_STRLEN = 64"

definition NAME_BUF :: nat where     \<comment> \<open>\<open>cliIpStr\<close> and \<open>machname\<close>\<close>
  "NAME_BUF = 64"

definition STATE_BUF :: nat where    \<comment> \<open>\<open>state\<close>\<close>
  "STATE_BUF = 10"

definition conv_words :: "conv list \<Rightarrow> string list" where
  "conv_words cs = List.map_filter (\<lambda>c. case c of CStr s \<Rightarrow> Some s | _ \<Rightarrow> None) cs"

definition fits :: "nat list \<Rightarrow> conv list \<Rightarrow> bool" where
  \<comment> \<open>the words converted fit the buffers they are stored in, in order\<close>
  "fits bufs cs = list_all (\<lambda>(b, s). length s < b) (zip bufs (conv_words cs))"

definition parse_host :: "ip \<Rightarrow> string \<Rightarrow> dmucs_msg option option" where
  "parse_host clientIp buffer =
     (let res = sscanf buffer ''host %s %s''
      in if \<not> fits [NAME_BUF, DPROP_MAX_STRLEN + 1] res then None
         else Some (case res of
             [CStr cli, CStr dpropstr] \<Rightarrow> Some (HostReqMsg clientIp dpropstr)
           | [CStr cli] \<Rightarrow> Some (HostReqMsg clientIp '''')
           | _ \<Rightarrow> None))"

definition parse_load :: "ip \<Rightarrow> string \<Rightarrow> dmucs_msg option option" where
  "parse_load clientIp buffer =
     (let res = sscanf buffer ''load %s %f %f %f %s''
      in if \<not> fits [NAME_BUF, DPROP_MAX_STRLEN + 1] res then None
         else (case res of
             [CStr machname, CFlt a, CFlt b, CFlt c, CStr dpropstr] \<Rightarrow>
               Some (Some (LdAvgMsg clientIp (inet_addr machname) a b c dpropstr))
           | _ \<Rightarrow>
               (let res2 = sscanf buffer ''load %s %f %f %f''
                in if \<not> fits [NAME_BUF] res2 then None
                   else Some (case res2 of
                       [CStr machname, CFlt a, CFlt b, CFlt c] \<Rightarrow>
                         Some (LdAvgMsg clientIp (inet_addr machname) a b c '''')
                     | _ \<Rightarrow> None))))"

definition parse_state :: "string \<Rightarrow> host_status_t" where
  "parse_state state =
     (if strprefix ''up'' state then STATUS_AVAILABLE
      else if strprefix ''down'' state then STATUS_UNAVAILABLE else STATUS_UNKNOWN)"

definition parse_status :: "ip \<Rightarrow> string \<Rightarrow> dmucs_msg option option" where
  "parse_status clientIp buffer =
     (let res = sscanf buffer ''status %s %s %s''
      in if \<not> fits [NAME_BUF, STATE_BUF, DPROP_MAX_STRLEN + 1] res then None
         else (case res of
             [CStr machname, CStr state, CStr dpropstr] \<Rightarrow>
               Some (Some (StatusMsg clientIp (inet_addr machname) (parse_state state) dpropstr))
           | _ \<Rightarrow>
               (let res2 = sscanf buffer ''status %s %s''
                in if \<not> fits [NAME_BUF, STATE_BUF] res2 then None
                   else Some (case res2 of
                       [CStr machname, CStr state] \<Rightarrow>
                         Some (StatusMsg clientIp (inet_addr machname) (parse_state state) '''')
                     | _ \<Rightarrow> None))))"

definition parseMsg :: "ip \<Rightarrow> string \<Rightarrow> dmucs_msg option option" where
  "parseMsg clientIp buffer =
     (if strprefix ''host'' buffer then parse_host clientIp buffer
      else if strprefix ''load'' buffer then parse_load clientIp buffer
      else if strprefix ''status'' buffer then parse_status clientIp buffer
      else if strprefix ''monitor'' buffer then Some (Some (MonitorReqMsg clientIp ''''))
      else Some None)"

end
