(* ===== verification/Ssl_Mask.thy ===== *)
theory Ssl_Mask
  imports Dmucs_Prelude
begin

text \<open>
  \<open>COSMIC/Smaskwait.c\<close>: the wait mask of the Simple Sockets Library.  An \<open>fd_set\<close> is the
  set of the descriptors in it, which \<open>FD_SET\<close>, \<open>FD_CLR\<close> and \<open>FD_ISSET\<close> may only be
  asked about below \<open>FD_SETSIZE\<close> (outside, the result is \<open>None\<close>).  \<open>select\<close> is a
  parameter: from the count, the mask and the time limit it gives a result, the ready set, and what it
  leaves in the time limit (on Linux the time that is left, elsewhere what was there).  A
  \<open>Socket *\<close> is given by the descriptor it holds, or \<open>None\<close> for a null pointer.
\<close>

record smask =
  first :: bool
  waitall :: int
  maskfds :: "int set"
  rmask :: "int set"
  timewait :: "int \<times> int"
  timed :: bool                       \<comment> \<open>\<open>timeptr\<close> points to \<open>timewait\<close>, otherwise it is null\<close>
  maskstack :: "(int set \<times> int) list"  \<comment> \<open>from \<open>mstl\<close> to \<open>mshd\<close>\<close>

type_synonym selector = "int \<Rightarrow> int set \<Rightarrow> (int \<times> int) option \<Rightarrow> int \<times> int set \<times> (int \<times> int)"

definition FD_SETSIZE :: int where
  "FD_SETSIZE = 1024"

definition legal_fd :: "int \<Rightarrow> bool" where
  "legal_fd fd = (0 \<le> fd \<and> fd < FD_SETSIZE)"

definition smask_init :: smask where
  "smask_init = \<lparr>first = True, waitall = 0, maskfds = {}, rmask = {}, timewait = (0, 0), timed = False,
     maskstack = []\<rparr>"

definition to_short :: "int \<Rightarrow> int" where
  "to_short i = (i + 2 ^ 15) mod 2 ^ 16 - 2 ^ 15"

definition Smaskwait :: "selector \<Rightarrow> smask \<Rightarrow> int \<times> smask" where
  "Smaskwait sel m =
     (case sel (waitall m) (maskfds m) (if timed m then Some (timewait m) else None) of (r, ready, left) \<Rightarrow>
        (to_short r, m\<lparr>rmask := ready, timewait := (if timed m then left else timewait m)\<rparr>))"

definition mask_first :: "smask \<Rightarrow> smask" where
  "mask_first m = (if first m then m\<lparr>maskfds := {}, first := False\<rparr> else m)"

definition mask_clear :: "smask \<Rightarrow> smask" where
  "mask_clear m = m\<lparr>waitall := 0, maskfds := {}\<rparr>"

definition mask_add :: "int \<Rightarrow> smask \<Rightarrow> smask" where
  "mask_add fd m = m\<lparr>maskfds := insert fd (maskfds m), waitall := (if waitall m \<le> fd then fd + 1 else waitall m)\<rparr>"

definition Smaskset :: "int option \<Rightarrow> smask \<Rightarrow> smask option" where
  "Smaskset skt m = (case skt of
     None \<Rightarrow> Some (mask_clear (mask_first m))
   | Some fd \<Rightarrow> if legal_fd fd then Some (mask_add fd (mask_first m)) else None)"

definition Smaskfdset :: "int \<Rightarrow> smask \<Rightarrow> smask" where
  "Smaskfdset fd m = (if 0 \<le> fd \<and> fd < FD_SETSIZE then mask_add fd (mask_first m) else mask_first m)"

definition Smasktime :: "int \<Rightarrow> int \<Rightarrow> smask \<Rightarrow> smask" where
  "Smasktime seconds useconds m =
     (if seconds < 0 \<or> useconds < 0 \<or> (seconds = 0 \<and> useconds = 0)
      then m\<lparr>timewait := (0, 0), timed := False\<rparr>
      else m\<lparr>timewait := (seconds, useconds), timed := True\<rparr>)"

definition Smasktest :: "selector \<Rightarrow> smask \<Rightarrow> int \<times> smask" where
  "Smasktest sel m = (case Smaskwait sel (m\<lparr>timewait := (0, 0), timed := True\<rparr>) of (r, m') \<Rightarrow>
     (r, m'\<lparr>timewait := timewait m, timed := timed m\<rparr>))"

definition Smaskunset :: "int option \<Rightarrow> smask \<Rightarrow> smask option" where
  "Smaskunset skt m = (case skt of
     None \<Rightarrow> Some (mask_clear m)
   | Some fd \<Rightarrow> if legal_fd fd then Some (m\<lparr>maskfds := maskfds m - {fd}\<rparr>) else None)"

definition Smaskunfdset :: "int \<Rightarrow> smask \<Rightarrow> smask option" where
  "Smaskunfdset fd m =
     (if fd \<noteq> 0 then (if legal_fd fd then Some (m\<lparr>maskfds := maskfds m - {fd}\<rparr>) else None)
      else Some (mask_clear m))"

definition Smaskget :: "smask \<Rightarrow> int set \<times> int" where
  "Smaskget m = (maskfds m, waitall m)"

definition Smaskuse :: "int set \<times> int \<Rightarrow> smask \<Rightarrow> smask" where
  "Smaskuse u m = m\<lparr>maskfds := fst u, waitall := snd u\<rparr>"

definition Smaskpush :: "smask \<Rightarrow> smask" where
  "Smaskpush m = (let m' = m\<lparr>maskstack := (maskfds m, waitall m) # maskstack m\<rparr>
     in mask_clear (mask_first m'))"

definition Smaskpop :: "smask \<Rightarrow> smask" where
  "Smaskpop m = (case maskstack m of
     [] \<Rightarrow> mask_clear (mask_first m)
   | u # us \<Rightarrow> (Smaskuse u m)\<lparr>maskstack := us\<rparr>)"

definition Smaskisset :: "int \<Rightarrow> smask \<Rightarrow> bool option" where
  "Smaskisset fd m = (if legal_fd fd then Some (fd \<in> rmask m) else None)"

definition Smaskfdisset :: "int \<Rightarrow> smask \<Rightarrow> bool option" where
  "Smaskfdisset fd m = (if legal_fd fd then Some (fd \<in> rmask m) else None)"

subsection \<open>The invariant of the mask\<close>

text \<open>
  Every descriptor in the mask is legal and below \<open>waitall\<close>, so that \<open>select\<close> looks at it, and
  so it is for every saved mask; before the first use the mask is empty.
\<close>

definition fds_ok :: "int set \<times> int \<Rightarrow> bool" where
  "fds_ok u \<longleftrightarrow> (\<forall>fd\<in>fst u. legal_fd fd \<and> fd < snd u) \<and> 0 \<le> snd u \<and> snd u \<le> FD_SETSIZE"

definition smask_inv :: "smask \<Rightarrow> bool" where
  "smask_inv m \<longleftrightarrow> fds_ok (maskfds m, waitall m) \<and> list_all fds_ok (maskstack m) \<and>
     (first m \<longrightarrow> maskfds m = {} \<and> waitall m = 0 \<and> maskstack m = [])"

lemma fds_ok_empty [simp]: "fds_ok ({}, 0)"
  by (simp add: fds_ok_def FD_SETSIZE_def)

lemma smask_inv_init [simp]: "smask_inv smask_init"
  by (simp add: smask_inv_def smask_init_def)

lemma inv_first: "smask_inv m \<Longrightarrow> smask_inv (mask_first m) \<and> maskfds (mask_first m) = maskfds m
    \<and> waitall (mask_first m) = waitall m \<and> \<not> first (mask_first m) \<and> maskstack (mask_first m) = maskstack m
    \<and> rmask (mask_first m) = rmask m"
  by (auto simp: smask_inv_def mask_first_def)

lemma inv_clear: "smask_inv m \<Longrightarrow> smask_inv (mask_clear m)"
  by (simp add: smask_inv_def mask_clear_def)

lemma inv_add: "smask_inv m \<Longrightarrow> legal_fd fd \<Longrightarrow> \<not> first m \<Longrightarrow> smask_inv (mask_add fd m)"
  by (force simp: smask_inv_def mask_add_def fds_ok_def legal_fd_def)

lemma inv_remove: "smask_inv m \<Longrightarrow> smask_inv (m\<lparr>maskfds := maskfds m - {fd}\<rparr>)"
  by (auto simp: smask_inv_def fds_ok_def)

lemma smask_inv_ops:
  assumes "smask_inv m"
  shows "Smaskset skt m = Some m' \<Longrightarrow> smask_inv m'"
    and "smask_inv (Smaskfdset fd m)" and "smask_inv (Smasktime a b m)"
    and "Smaskunset skt m = Some m' \<Longrightarrow> smask_inv m'"
    and "Smaskunfdset fd m = Some m' \<Longrightarrow> smask_inv m'"
    and "smask_inv (Smaskpush m)" and "smask_inv (Smaskpop m)"
    and "smask_inv (snd (Smaskwait sel m))" and "smask_inv (snd (Smasktest sel m))"
proof -
  have *: "smask_inv (mask_first m)" "\<not> first (mask_first m)"
    using inv_first [OF assms] by auto
  show "Smaskset skt m = Some m' \<Longrightarrow> smask_inv m'"
    using * inv_add inv_clear by (auto simp: Smaskset_def split: option.splits if_splits)
  show "smask_inv (Smaskfdset fd m)"
    using * inv_add [of "mask_first m" fd] by (simp add: Smaskfdset_def legal_fd_def)
  show "smask_inv (Smasktime a b m)" using assms by (simp add: Smasktime_def smask_inv_def)
  show "Smaskunset skt m = Some m' \<Longrightarrow> smask_inv m'"
    using assms inv_remove inv_clear by (auto simp: Smaskunset_def split: option.splits if_splits)
  show "Smaskunfdset fd m = Some m' \<Longrightarrow> smask_inv m'"
    using assms inv_remove inv_clear by (auto simp: Smaskunfdset_def split: if_splits)
  show "smask_inv (Smaskpush m)"
    using assms by (auto simp: Smaskpush_def Let_def smask_inv_def mask_first_def mask_clear_def)
  show "smask_inv (Smaskpop m)"
  proof (cases "maskstack m")
    case Nil
    with * show ?thesis by (simp add: Smaskpop_def inv_clear)
  next
    case (Cons u us)
    then show ?thesis
      using assms
      by (cases u) (auto simp: Smaskpop_def smask_inv_def Smaskuse_def fds_ok_def)
  qed
  show "smask_inv (snd (Smaskwait sel m))" "smask_inv (snd (Smasktest sel m))"
    using assms by (simp_all add: Smaskwait_def Smasktest_def smask_inv_def split: prod.split)
qed

subsection \<open>What a program can do with the mask\<close>

inductive mask_reach :: "smask \<Rightarrow> bool" where
  init: "mask_reach smask_init"
| mset: "mask_reach m \<Longrightarrow> Smaskset sk m = Some m' \<Longrightarrow> mask_reach m'"
| fdset: "mask_reach m \<Longrightarrow> mask_reach (Smaskfdset fd m)"
| mtime: "mask_reach m \<Longrightarrow> mask_reach (Smasktime a b m)"
| unset: "mask_reach m \<Longrightarrow> Smaskunset sk m = Some m' \<Longrightarrow> mask_reach m'"
| unfdset: "mask_reach m \<Longrightarrow> Smaskunfdset fd m = Some m' \<Longrightarrow> mask_reach m'"
| push: "mask_reach m \<Longrightarrow> mask_reach (Smaskpush m)"
| pop: "mask_reach m \<Longrightarrow> mask_reach (Smaskpop m)"
| wait: "mask_reach m \<Longrightarrow> mask_reach (snd (Smaskwait sel m))"
| test: "mask_reach m \<Longrightarrow> mask_reach (snd (Smasktest sel m))"
| restore: "mask_reach m \<Longrightarrow> mask_reach m0 \<Longrightarrow> mask_reach (Smaskuse (Smaskget m0) m)"

definition smask_ok :: "smask \<Rightarrow> bool" where
  "smask_ok m \<longleftrightarrow> fds_ok (maskfds m, waitall m) \<and> list_all fds_ok (maskstack m)"

lemma ok_first: "smask_ok m \<Longrightarrow> smask_ok (mask_first m)"
  by (auto simp: smask_ok_def mask_first_def fds_ok_def)

lemma ok_clear: "smask_ok m \<Longrightarrow> smask_ok (mask_clear m)"
  by (simp add: smask_ok_def mask_clear_def)

lemma ok_add: "smask_ok m \<Longrightarrow> legal_fd fd \<Longrightarrow> smask_ok (mask_add fd m)"
  by (force simp: smask_ok_def mask_add_def fds_ok_def legal_fd_def)

lemma ok_remove: "smask_ok m \<Longrightarrow> smask_ok (m\<lparr>maskfds := maskfds m - {fd}\<rparr>)"
  by (auto simp: smask_ok_def fds_ok_def)

lemma mask_reach_ok: "mask_reach m \<Longrightarrow> smask_ok m"
proof (induction rule: mask_reach.induct)
  case (mset m sk m')
  then show ?case
    by (auto simp: Smaskset_def ok_first ok_add ok_clear split: option.splits if_splits)
next
  case (unset m sk m')
  then show ?case by (auto simp: Smaskunset_def ok_clear ok_remove split: option.splits if_splits)
next
  case (unfdset m fd m')
  then show ?case by (auto simp: Smaskunfdset_def ok_clear ok_remove split: if_splits)
next
  case (fdset m fd)
  then show ?case by (simp add: Smaskfdset_def ok_first ok_add legal_fd_def)
next
  case (push m)
  then have "smask_ok (m\<lparr>maskstack := (maskfds m, waitall m) # maskstack m\<rparr>)" by (simp add: smask_ok_def)
  then show ?case by (simp add: Smaskpush_def Let_def ok_first ok_clear)
next
  case (pop m)
  then show ?case
    by (cases "maskstack m") (simp_all add: Smaskpop_def ok_first ok_clear, simp add: smask_ok_def Smaskuse_def)
qed (auto simp: smask_ok_def smask_init_def Smasktime_def Smaskwait_def Smasktest_def Smaskuse_def
    Smaskget_def split: prod.split)

lemma push_pop:
  "maskfds (Smaskpop (Smaskpush m)) = maskfds m" "waitall (Smaskpop (Smaskpush m)) = waitall m"
  "maskstack (Smaskpop (Smaskpush m)) = maskstack m"
  by (simp_all add: Smaskpush_def Smaskpop_def Smaskuse_def mask_first_def mask_clear_def Let_def)

lemma push_clears: "maskfds (Smaskpush m) = {}" "waitall (Smaskpush m) = 0"
  by (simp_all add: Smaskpush_def mask_clear_def Let_def)

subsection \<open>The mask as a set of watched descriptors\<close>

text \<open>
  What a server that watches a list of sockets relies on: adding a descriptor and removing one
  change the watched set by that descriptor and keep the mask in order.
\<close>

locale watch_mask =
  fixes add_fd :: "int \<Rightarrow> 'm \<Rightarrow> 'm option"
    and del_fd :: "int \<Rightarrow> 'm \<Rightarrow> 'm option"
    and watched :: "'m \<Rightarrow> int set"
    and legal :: "int \<Rightarrow> bool"
    and ok :: "'m \<Rightarrow> bool"
  assumes add_ok: "ok m \<Longrightarrow> legal fd \<Longrightarrow>
      \<exists>m'. add_fd fd m = Some m' \<and> ok m' \<and> watched m' = insert fd (watched m)"
    and del_ok: "ok m \<Longrightarrow> legal fd \<Longrightarrow>
      \<exists>m'. del_fd fd m = Some m' \<and> ok m' \<and> watched m' = watched m - {fd}"
begin

text \<open>
  The client: a list of sockets, each with its descriptor, and the descriptor \<open>l\<close> it listens on.
\<close>

definition watches :: "int \<Rightarrow> ('s \<Rightarrow> int) \<Rightarrow> 's list \<Rightarrow> 'm \<Rightarrow> bool" where
  "watches l fd ss m \<longleftrightarrow> ok m \<and> distinct ss \<and> inj_on fd (set ss) \<and> l \<notin> fd ` set ss \<and>
     legal l \<and> (\<forall>s\<in>set ss. legal (fd s)) \<and> watched m = insert l (fd ` set ss)"

lemma watches_add:
  assumes w: "watches l fd ss m" and s: "s \<notin> set ss" "legal x" "x \<noteq> l" "x \<notin> fd ` set ss"
  shows "\<exists>m'. add_fd x m = Some m' \<and> watches l (fd(s := x)) (ss @ [s]) m'"
proof -
  obtain m' where m': "add_fd x m = Some m'" "ok m'" "watched m' = insert x (watched m)"
    using w s(2) add_ok [of m x] unfolding watches_def by blast
  let ?fd = "fd(s := x)"
  have W: "distinct ss" "inj_on fd (set ss)" "l \<notin> fd ` set ss" "legal l" "\<forall>t\<in>set ss. legal (fd t)"
    "watched m = insert l (fd ` set ss)"
    using w unfolding watches_def by blast+
  have same: "?fd t = fd t" if "t \<in> set ss" for t using that s(1) by auto
  have im: "?fd ` set ss = fd ` set ss" using same by (rule image_cong [OF refl])
  have "inj_on ?fd (set ss)" using W(2) inj_on_cong [of "set ss" ?fd fd] same by blast
  then have "inj_on ?fd (insert s (set ss))"
    using s(1,4) im by (simp add: inj_on_insert)
  moreover have "\<forall>t\<in>insert s (set ss). legal (?fd t)" using W(5) s(2) same by simp
  moreover have "?fd ` insert s (set ss) = insert x (fd ` set ss)"
    using im by (simp only: image_insert fun_upd_same)
  ultimately have "watches l ?fd (ss @ [s]) m'"
    using m'(2,3) W s unfolding watches_def by (simp add: insert_commute)
  with m'(1) show ?thesis by blast
qed

lemma watches_del:
  assumes w: "watches l fd ss m" and s: "s \<in> set ss"
  shows "\<exists>m'. del_fd (fd s) m = Some m' \<and> watches l fd (removeAll s ss) m'"
proof -
  obtain m' where m': "del_fd (fd s) m = Some m'" "ok m'" "watched m' = watched m - {fd s}"
    using w s del_ok [of m "fd s"] unfolding watches_def by blast
  have "fd ` (set ss - {s}) = fd ` set ss - {fd s}"
    using w s inj_on_image_set_diff [of fd "set ss" "set ss" "{s}"] unfolding watches_def by auto
  with w s m' show ?thesis
    unfolding watches_def by (auto simp: inj_on_diff distinct_removeAll)
qed

end

interpretation wm: watch_mask "\<lambda>fd. Smaskset (Some fd)" "\<lambda>fd. Smaskunset (Some fd)" maskfds legal_fd
    smask_inv
proof
  fix m fd assume m: "smask_inv m" "legal_fd fd"
  show "\<exists>m'. Smaskset (Some fd) m = Some m' \<and> smask_inv m' \<and> maskfds m' = insert fd (maskfds m)"
    using m inv_first [OF m(1)] inv_add [of "mask_first m" fd]
    by (auto simp: Smaskset_def mask_add_def)
  show "\<exists>m'. Smaskunset (Some fd) m = Some m' \<and> smask_inv m' \<and> maskfds m' = maskfds m - {fd}"
    using m inv_remove by (simp add: Smaskunset_def)
qed

lemma pop_restores_pushed_mask:
  "maskfds (Smaskpop (Smaskpush m)) = maskfds m \<and> waitall (Smaskpop (Smaskpush m)) = waitall m \<and>
   maskstack (Smaskpop (Smaskpush m)) = maskstack m \<and> maskfds (Smaskpush m) = {} \<and>
   Smaskget (Smaskpop (Smaskfdset fd (Smaskpush m))) = Smaskget m"
  by (simp add: push_pop push_clears)
    (simp add: Smaskpush_def Smaskpop_def Smaskuse_def Smaskget_def mask_first_def mask_clear_def Let_def
      Smaskfdset_def mask_add_def)

lemma select_sees_every_descriptor:
  assumes "mask_reach m" and "fd \<in> maskfds m"
  shows "0 \<le> fd \<and> fd < FD_SETSIZE \<and> fd < waitall m"
  using mask_reach_ok [OF assms(1)] assms(2) by (auto simp: smask_ok_def fds_ok_def legal_fd_def)

lemma select_sees_every_descriptor_example:
  "0 \<le> (5::int) \<and> 5 < FD_SETSIZE \<and> 5 < waitall (Smaskpop (Smaskpush (Smaskfdset 5 smask_init)))"
proof (rule select_sees_every_descriptor)
  show "mask_reach (Smaskpop (Smaskpush (Smaskfdset 5 smask_init)))"
    by (rule mask_reach.pop, rule mask_reach.push, rule mask_reach.fdset, rule mask_reach.init)
  show "5 \<in> maskfds (Smaskpop (Smaskpush (Smaskfdset 5 smask_init)))" by code_simp
qed

end
