(* ===== verification/Ssl_Io.thy ===== *)
theory Ssl_Io
  imports Ssl_Mask
begin

text \<open>
  Reading and writing of the Simple Sockets Library: \<open>Swait.c\<close>, \<open>Stimeoutwait.c\<close>, \<open>Stest.c\<close>,
  \<open>Speek.c\<close>, \<open>Sread.c\<close>, \<open>Sreadbytes.c\<close>, \<open>Sgets.c\<close>, \<open>Swrite.c\<close> and \<open>Sputs.c\<close>.

  The state of a socket holds what the operating system knows: the bytes received and not yet read,
  the pieces that are still to arrive (one arrives when the queue is empty and somebody waits), and
  how the stream ends.  A call that blocks for ever, or loops for ever, is \<open>None\<close>.
\<close>

datatype skt_type = PM_SERVER | PM_CLIENT | PM_ACCEPT

datatype stream_end =
    StillOpen       \<comment> \<open>nothing more arrives, but the peer has not closed\<close>
  | PeerClosed      \<comment> \<open>\<open>recv\<close> gives 0\<close>
  | RecvError       \<comment> \<open>\<open>recv\<close> gives -1\<close>
  | SelectError     \<comment> \<open>\<open>select\<close> gives -1, and so does \<open>recv\<close>\<close>

record ssocket =
  sk_type :: skt_type
  queue :: string
  coming :: "string list"
  ending :: stream_end
  backlog :: nat                \<comment> \<open>connections waiting to be accepted\<close>

definition NUL :: char where
  "NUL = CHR 0x00"

definition PM_BIGBUF :: nat where
  "PM_BIGBUF = 1024"

subsection \<open>The operating system\<close>

fun pull :: "string list \<Rightarrow> string \<times> string list" where
  "pull [] = ([], [])"
| "pull (c # cs) = (if c = [] then pull cs else (c, cs))"

definition arrive :: "ssocket \<Rightarrow> ssocket" where
  "arrive s = (if queue s \<noteq> [] then s
     else (case pull (coming s) of (q, cs) \<Rightarrow> s\<lparr>queue := q, coming := cs\<rparr>))"

definition recv_peek :: "nat \<Rightarrow> ssocket \<Rightarrow> (int \<times> string \<times> ssocket) option" where
  "recv_peek n s = (let s' = arrive s
     in if queue s' \<noteq> [] then Some (int (length (take n (queue s'))), take n (queue s'), s')
        else (case ending s' of
            StillOpen \<Rightarrow> None
          | PeerClosed \<Rightarrow> Some (0, [], s')
          | _ \<Rightarrow> Some (- 1, [], s')))"

definition recv :: "nat \<Rightarrow> ssocket \<Rightarrow> (int \<times> string \<times> ssocket) option" where
  "recv n s = map_option (\<lambda>(r, bs, s'). (r, bs, s'\<lparr>queue := drop n (queue s')\<rparr>)) (recv_peek n s)"

definition readable :: "ssocket \<Rightarrow> bool" where
  "readable s = (if sk_type s = PM_SERVER then 0 < backlog s else queue s \<noteq> [] \<or> ending s \<noteq> StillOpen)"

definition select_now :: "ssocket \<Rightarrow> int" where
  \<comment> \<open>with a time limit of 0\<close>
  "select_now s = (if ending s = SelectError then - 1 else if readable s then 1 else 0)"

definition select_block :: "ssocket \<Rightarrow> (int \<times> ssocket) option" where
  \<comment> \<open>without a time limit\<close>
  "select_block s = (let s' = arrive s
     in if select_now s' = 0 then None else Some (select_now s', s'))"

subsection \<open>Waiting and testing\<close>

definition peek_count :: "int \<Rightarrow> nat \<Rightarrow> ssocket \<Rightarrow> (int \<times> string \<times> ssocket) option" where
  \<comment> \<open>the end of these functions: what \<open>recv\<close> sees, and \<open>EOF\<close> if it sees nothing although
     \<open>select\<close> says there is something\<close>
  "peek_count result n s = map_option
     (\<lambda>(r, bs, s'). (if result = 1 \<and> r = 0 then - 1 else r, bs, s')) (recv_peek n s)"

definition Swait :: "ssocket option \<Rightarrow> (int \<times> ssocket option) option" where
  "Swait skt = (case skt of
     None \<Rightarrow> Some (- 1, None)
   | Some s \<Rightarrow> do {
       (result, s1) \<leftarrow> select_block s;
       if result < 0 then Some (- 1, Some s1)
       else if sk_type s1 = PM_SERVER then Some (result, Some s1)
       else if readable s1 then do {
         (r, _, s2) \<leftarrow> peek_count result (PM_BIGBUF - 1) s1;
         Some (r, Some s2) }
       else Some (0, Some s1) })"

definition Stimeoutwait :: "ssocket option \<Rightarrow> bool \<Rightarrow> (int \<times> ssocket option) option" where
  \<comment> \<open>whether something arrives within the time limit\<close>
  "Stimeoutwait skt intime = (case skt of
     None \<Rightarrow> Some (- 1, None)
   | Some s \<Rightarrow>
       (let s1 = (if intime then arrive s else s); result = select_now s1
        in if result < 0 then Some (- 1, Some s1)
           else if result = 0 then Some (- 2, Some s1)
           else if sk_type s1 = PM_SERVER then Some (result, Some s1)
           else if readable s1 then do {
             (r, _, s2) \<leftarrow> peek_count result (PM_BIGBUF - 1) s1;
             Some (r, Some s2) }
           else Some (0, Some s1)))"

definition Stest :: "ssocket option \<Rightarrow> (int \<times> ssocket option) option" where
  "Stest skt = (case skt of
     None \<Rightarrow> Some (- 1, None)
   | Some s \<Rightarrow>
       (let result = select_now s
        in if result < 0 then Some (- 1, Some s)
           else if sk_type s = PM_SERVER then Some (result, Some s)
           else if readable s then do {
             (r, _, s2) \<leftarrow> peek_count result (PM_BIGBUF - 1) s;
             Some (r, Some s2) }
           else Some (0, Some s)))"

definition Speek :: "ssocket option \<Rightarrow> nat \<Rightarrow> (int \<times> string \<times> ssocket option) option" where
  "Speek skt buflen = (case skt of
     None \<Rightarrow> Some (0, [], None)
   | Some s \<Rightarrow>
       (let result = select_now s
        in if result < 0 then Some (- 1, [], Some s)
           else if result = 0 then Some (0, [], Some s)
           else if readable s then do {
             (r, bs, s2) \<leftarrow> peek_count result buflen s;
             Some (r, bs, Some s2) }
           else Some (0, [], Some s)))"

subsection \<open>Reading\<close>

definition Sread :: "ssocket option \<Rightarrow> nat \<Rightarrow> (int \<times> string \<times> ssocket option) option" where
  "Sread skt buflen = (case skt of
     None \<Rightarrow> Some (- 1, [], None)
   | Some s \<Rightarrow> do {
       (cnt, bs, s') \<leftarrow> recv buflen s;
       if 0 < cnt then Some (cnt, bs, Some s') else Some (0, [], Some s') })"

partial_function (option) readbytes_loop :: "nat \<Rightarrow> string \<Rightarrow> ssocket \<Rightarrow> (int \<times> string \<times> ssocket) option" where
  \<comment> \<open>what has been read so far; a \<open>recv\<close> that gives 0 is tried again\<close>
  "readbytes_loop buflen got s =
     (if length got < buflen then
        Option.bind (recv (buflen - length got) s) (\<lambda>(rcnt, bs, s').
          if rcnt < 0 then Some (int (length got), got, s')
          else readbytes_loop buflen (got @ bs) s')
      else Some (int (length got), got, s))"

definition Sreadbytes :: "ssocket option \<Rightarrow> nat \<Rightarrow> (int \<times> string \<times> ssocket option) option" where
  "Sreadbytes skt buflen = (case skt of
     None \<Rightarrow> Some (- 1, [], None)
   | Some s \<Rightarrow> map_option (\<lambda>(n, bs, s'). (n, bs, Some s')) (readbytes_loop buflen [] s))"

definition overwrite :: "string \<Rightarrow> string \<Rightarrow> string" where
  \<comment> \<open>bytes stored at the start of a buffer\<close>
  "overwrite bs buf = bs @ drop (length bs) buf"

definition cstr :: "string \<Rightarrow> string" where
  \<comment> \<open>the C string a buffer holds\<close>
  "cstr buf = takeWhile (\<lambda>c. c \<noteq> NUL) buf"

partial_function (option) Sgets_loop :: "nat \<Rightarrow> string \<Rightarrow> ssocket \<Rightarrow> (bool \<times> string \<times> ssocket) option" where
  \<comment> \<open>the room left, and the buffer up to \<open>b\<close>; gives whether the buffer is returned (not the null
     pointer) and the bytes that have been stored in it\<close>
  "Sgets_loop buflen acc s =
     (if buflen = 0 then Some (True, acc, s)
      else Option.bind (Swait (Some s)) (\<lambda>(r, so).
        let s1 = the so
        in if r = 0 then Some (False, acc, s1)
           else Option.bind (recv_peek buflen s1) (\<lambda>(mesglen, bs, s2).
             if mesglen \<le> 0 then Some (False, acc, s2)
             else if NUL \<in> set bs then
               Option.bind (readbytes_loop (length (cstr bs) + 1) [] s2) (\<lambda>(n, _, s3).
                 Some (True, acc @ cstr bs @ [NUL], s3))
             else if int buflen \<le> mesglen then
               Option.bind (readbytes_loop buflen [] s2) (\<lambda>(n, _, s3).
                 if n \<le> 0 then Some (True, acc @ bs, s3) else Some (True, acc @ bs @ [NUL], s3))
             else Option.bind (readbytes_loop (nat mesglen) [] s2) (\<lambda>(n, _, s3).
               if n \<le> 0 then Some (True, acc @ bs, s3)
               else Sgets_loop (buflen - nat mesglen) (acc @ bs) s3))))"

definition Sgets :: "string \<Rightarrow> nat \<Rightarrow> ssocket option \<Rightarrow> (bool \<times> string \<times> ssocket option) option" where
  "Sgets buf maxbuf skt = (case skt of
     None \<Rightarrow> Some (False, buf[0 := NUL], None)
   | Some s \<Rightarrow> map_option (\<lambda>(ok, bs, s'). (ok, overwrite bs (buf[0 := NUL, maxbuf - 1 := NUL]), Some s'))
       (Sgets_loop (maxbuf - 2) [] s))"

subsection \<open>Writing\<close>

text \<open>
  The argument \<open>sends\<close> gives what the successive calls of \<open>send\<close> return: how many bytes are
  taken, or -1; when it is used up, \<open>send\<close> blocks.
\<close>

fun write_loop :: "int list \<Rightarrow> string \<Rightarrow> nat \<Rightarrow> (int \<times> string \<times> int list) option" where
  \<comment> \<open>the bytes that have gone out after \<open>cnt\<close> are returned too\<close>
  "write_loop [] buf cnt = (if cnt < length buf then None else Some (int cnt, take cnt buf, []))"
| "write_loop (wcnt # ws) buf cnt =
     (if cnt < length buf then
        (if wcnt < 0 then Some (int cnt, take cnt buf, ws)
         else write_loop ws buf (cnt + min (nat wcnt) (length buf - cnt)))
      else Some (int cnt, take cnt buf, wcnt # ws))"

definition Swrite :: "bool \<Rightarrow> int list \<Rightarrow> string \<Rightarrow> (int \<times> string \<times> int list) option" where
  \<comment> \<open>whether the socket is there, and the bytes of the buffer\<close>
  "Swrite skt sends buf = (if \<not> skt then Some (- 1, [], sends) else write_loop sends buf 0)"

definition cstring_bytes :: "string \<Rightarrow> string" where
  \<comment> \<open>a C string with its terminator\<close>
  "cstring_bytes buf = cstr buf @ [NUL]"

definition Sputs :: "bool \<Rightarrow> int list \<Rightarrow> string \<Rightarrow> (string \<times> int list) option" where
  "Sputs skt sends buf = map_option snd (Swrite skt sends (cstring_bytes buf))"

end
