(* ===== verification/Ssl_Io_Lemmas.thy ===== *)
theory Ssl_Io_Lemmas
  imports Ssl_Io
begin

text \<open>
  What \<open>Sgets\<close> returns depends on the bytes of the stream only, not on the pieces they arrive in;
  a string written with \<open>Sputs\<close> is the string \<open>Sgets\<close> returns, if the buffer is large enough.
\<close>

definition stream :: "ssocket \<Rightarrow> string" where
  "stream s = queue s @ concat (coming s)"

lemma pull_concat: "pull cs = (q, cs') \<Longrightarrow> q @ concat cs' = concat cs"
  by (induction cs rule: pull.induct) (auto split: if_splits)

lemma pull_empty: "pull cs = ([], cs') \<Longrightarrow> concat cs = []"
  by (induction cs rule: pull.induct) (auto split: if_splits)

lemma arrive_simps [simp]:
  "stream (arrive s) = stream s" "ending (arrive s) = ending s" "sk_type (arrive s) = sk_type s"
  "backlog (arrive s) = backlog s" "queue (arrive s) = [] \<longleftrightarrow> stream s = []" "arrive (arrive s) = arrive s"
proof -
  obtain q cs where p: "pull (coming s) = (q, cs)" by fastforce
  note f = pull_concat [OF p]
  show "stream (arrive s) = stream s" using p f by (simp add: arrive_def stream_def)
  show "queue (arrive s) = [] \<longleftrightarrow> stream s = []"
  proof -
    have "q = [] \<longleftrightarrow> concat (coming s) = []"
      using f pull_empty [of "coming s" cs] p by (metis append_is_Nil_conv)
    with p show ?thesis by (simp add: arrive_def stream_def del: concat_eq_Nil_conv)
  qed
  show "arrive (arrive s) = arrive s"
  proof (cases "q = []")
    case True
    then have "concat (coming s) = []" "concat cs = []" using p f pull_empty by auto
    moreover have "pull cs' = ([], [])" if "concat cs' = []" for cs' :: "string list"
      using that by (induction cs' rule: pull.induct) auto
    ultimately show ?thesis using p by (auto simp: arrive_def)
  next
    case False
    with p show ?thesis by (auto simp: arrive_def)
  qed
qed (auto simp: arrive_def split: prod.split)

lemma recv_peek_eq:
  "recv_peek n s = (if stream s \<noteq> [] then Some (int (length (take n (queue (arrive s)))), take n (queue (arrive s)), arrive s)
    else case ending s of StillOpen \<Rightarrow> None | PeerClosed \<Rightarrow> Some (0, [], arrive s) | _ \<Rightarrow> Some (- 1, [], arrive s))"
  by (simp add: recv_peek_def Let_def)

lemma Swait_data:
  assumes "sk_type s \<noteq> PM_SERVER"
  shows "if stream s = [] \<and> ending s = StillOpen then Swait (Some s) = None
    else \<exists>r. r \<noteq> 0 \<and> Swait (Some s) = Some (r, Some (arrive s))"
proof (cases "stream s = []")
  case True
  with assms show ?thesis
    by (cases "ending s") (simp_all add: Swait_def select_block_def select_now_def readable_def Let_def
        peek_count_def recv_peek_eq)
next
  case False
  have "take (PM_BIGBUF - 1) (queue (arrive s)) \<noteq> []" using False by (simp add: PM_BIGBUF_def)
  with False assms show ?thesis
    by (simp add: Swait_def select_block_def select_now_def readable_def Let_def peek_count_def recv_peek_eq)
qed

lemma readbytes_avail:
  assumes "0 < n" and "n \<le> length (queue s)"
  shows "readbytes_loop n [] s = Some (int n, take n (queue s), s\<lparr>queue := drop n (queue s)\<rparr>)"
proof -
  have q: "queue s \<noteq> []" using assms by auto
  then have a: "arrive s = s" by (simp add: arrive_def)
  have "stream s \<noteq> []" using q by (simp add: stream_def)
  with a assms show ?thesis
    by (subst readbytes_loop.simps, simp add: recv_def recv_peek_eq)
      (subst readbytes_loop.simps, simp)
qed

lemma stream_drop:
  "queue s \<noteq> [] \<Longrightarrow> n \<le> length (queue s) \<Longrightarrow> stream (s\<lparr>queue := drop n (queue s)\<rparr>) = drop n (stream s)"
  by (simp add: stream_def)

subsection \<open>Sgets\<close>

definition gets_result :: "nat \<Rightarrow> string \<Rightarrow> ssocket \<Rightarrow> (bool \<times> string \<times> ssocket) option \<Rightarrow> bool" where
  \<comment> \<open>what is read with room for \<open>n\<close> bytes, after \<open>acc\<close>\<close>
  "gets_result n acc s res \<longleftrightarrow>
     (let w = cstr (stream s)
      in if NUL \<in> set (take n (stream s)) then
           (\<exists>s'. res = Some (True, acc @ w @ [NUL], s') \<and> stream s' = drop (length w + 1) (stream s) \<and>
             ending s' = ending s \<and> sk_type s' = sk_type s)
         else if n \<le> length (stream s) then
           (\<exists>s'. res = Some (True, acc @ take n (stream s) @ [NUL], s') \<and> stream s' = drop n (stream s) \<and>
             ending s' = ending s \<and> sk_type s' = sk_type s)
         else if ending s = StillOpen then res = None
         else (\<exists>s'. res = Some (False, acc @ stream s, s') \<and> stream s' = [] \<and>
             ending s' = ending s \<and> sk_type s' = sk_type s))"

lemma cstr_prefix: "NUL \<in> set xs \<Longrightarrow> cstr (xs @ ys) = cstr xs"
  by (simp add: cstr_def takeWhile_append1)

lemma cstr_append: "NUL \<notin> set xs \<Longrightarrow> cstr (xs @ ys) = xs @ cstr ys"
  unfolding cstr_def by (rule takeWhile_append2) auto

lemma cstr_shorter: "NUL \<in> set xs \<Longrightarrow> length (cstr xs) < length xs"
  by (induction xs) (auto simp: cstr_def)

lemma gets_result_shift:
  assumes "gets_result (n - length q) (acc @ q) s3 res"
    and "stream s = q @ stream s3" and "NUL \<notin> set q" and "length q < n"
    and "ending s3 = ending s" and "sk_type s3 = sk_type s"
  shows "gets_result n acc s res"
proof -
  have l: "n \<le> length q + length x \<longleftrightarrow> n - length q \<le> length x" for x :: string
    using assms(4) by linarith
  show ?thesis
    using assms unfolding gets_result_def Let_def assms(2) cstr_append [OF assms(3)] length_append l
    by (cases "ending s = StillOpen"; cases "n - length q \<le> length (stream s3)";
        cases "NUL \<in> set (take (n - length q) (stream s3))"; simp)
qed

lemma Sgets_loop_step:
  assumes "r \<noteq> 0" and "Swait (Some s) = Some (r, Some a)"
    and "recv_peek n a = Some (int (length bs), bs, a)" and "bs \<noteq> []" and "0 < n"
  shows "Sgets_loop n acc s =
    (if NUL \<in> set bs then
       Option.bind (readbytes_loop (length (cstr bs) + 1) [] a)
         (\<lambda>(k, _, s3). Some (True, acc @ cstr bs @ [NUL], s3))
     else if n \<le> length bs then
       Option.bind (readbytes_loop n [] a) (\<lambda>(k, _, s3).
         if k \<le> 0 then Some (True, acc @ bs, s3) else Some (True, acc @ bs @ [NUL], s3))
     else Option.bind (readbytes_loop (length bs) [] a) (\<lambda>(k, _, s3).
       if k \<le> 0 then Some (True, acc @ bs, s3) else Sgets_loop (n - length bs) (acc @ bs) s3))"
  using assms by (subst Sgets_loop.simps) (simp add: Let_def cong: if_cong)

lemma Sgets_loop_spec:
  assumes "sk_type s \<noteq> PM_SERVER" and "0 < n"
  shows "gets_result n acc s (Sgets_loop n acc s)"
  using assms
proof (induction n arbitrary: acc s rule: less_induct)
  case (less n)
  show ?case
  proof (cases "stream s = []")
    case True
    then show ?thesis
    proof (cases "ending s = StillOpen")
      case True
      with \<open>stream s = []\<close> less.prems Swait_data [OF less.prems(1)] show ?thesis
        by (subst Sgets_loop.simps) (simp add: gets_result_def)
    next
      case False
      then obtain r where r: "r \<noteq> 0" "Swait (Some s) = Some (r, Some (arrive s))"
        using Swait_data [OF less.prems(1)] by auto
      have "\<exists>x. recv_peek n (arrive s) = Some (x, [], arrive s) \<and> x \<le> 0"
        using False \<open>stream s = []\<close> by (cases "ending s") (simp_all add: recv_peek_eq)
      with r less.prems False \<open>stream s = []\<close> show ?thesis
        by (subst Sgets_loop.simps) (auto simp: gets_result_def)
    qed
  next
    case False
    let ?a = "arrive s" and ?q = "queue (arrive s)" and ?st = "stream s"
    obtain r where r: "r \<noteq> 0" "Swait (Some s) = Some (r, Some ?a)"
      using Swait_data [OF less.prems(1)] False by auto
    have q: "?q \<noteq> []" using False by simp
    have st: "?st = ?q @ concat (coming ?a)" by (metis arrive_simps(1) stream_def)
    let ?bs = "take n ?q"
    have bs: "?bs \<noteq> []" using q less.prems(2) by simp
    have pk: "recv_peek n ?a = Some (int (length ?bs), ?bs, ?a)" using False by (simp add: recv_peek_eq)
    note unf = Sgets_loop_step [OF r(1) r(2) pk bs less.prems(2), of acc]
    show ?thesis
    proof (cases "NUL \<in> set ?bs")
      case True
      let ?w = "cstr ?bs"
      have w: "cstr ?st = ?w"
        using cstr_prefix [OF True, of "drop n ?q @ concat (coming ?a)"] st
        by (metis append.assoc append_take_drop_id)
      have k: "length ?w + 1 \<le> length ?q" using cstr_shorter [OF True] by simp
      have "NUL \<in> set (take n ?st)" using True st by simp
      moreover have "Sgets_loop n acc s = Some (True, acc @ ?w @ [NUL], ?a\<lparr>queue := drop (length ?w + 1) ?q\<rparr>)"
        using unf True readbytes_avail [OF _ k] by simp
      ultimately show ?thesis
        using w stream_drop [OF q k] by (simp add: gets_result_def Let_def)
    next
      case noNUL: False
      show ?thesis
      proof (cases "n \<le> length ?q")
        case True
        then have "take n ?st = ?bs" using st by simp
        moreover have "n \<le> length ?st" using True st by (metis le_add1 le_trans length_append)
        moreover have "Sgets_loop n acc s = Some (True, acc @ ?bs @ [NUL], ?a\<lparr>queue := drop n ?q\<rparr>)"
          using unf noNUL True readbytes_avail [OF less.prems(2) True] less.prems(2) by simp
        ultimately show ?thesis
          using noNUL stream_drop [OF q True] by (simp add: gets_result_def Let_def)
      next
        case False
        then have b: "?bs = ?q" by simp
        let ?s3 = "?a\<lparr>queue := []\<rparr>" and ?m = "n - length ?q"
        have s3: "stream ?s3 = concat (coming ?a)" by (simp add: stream_def)
        have q0: "0 < length ?q" using q by simp
        have u: "Sgets_loop n acc s = Sgets_loop ?m (acc @ ?q) ?s3"
          using unf noNUL False b readbytes_avail [OF q0 order_refl] q by simp
        have ih: "gets_result ?m (acc @ ?q) ?s3 (Sgets_loop ?m (acc @ ?q) ?s3)"
          by (rule less.IH) (use False q0 less.prems in simp_all)
        show ?thesis unfolding u
          by (rule gets_result_shift [OF ih]) (use noNUL b s3 st False in simp_all)
      qed
    qed
  qed
qed

text \<open>\<open>readbytes_loop\<close> on any stream: it needs all the bytes, unless the stream ends with an error.\<close>

definition readbytes_result :: "nat \<Rightarrow> string \<Rightarrow> ssocket \<Rightarrow> (int \<times> string \<times> ssocket) option \<Rightarrow> bool" where
  "readbytes_result n got s res \<longleftrightarrow>
     (if n \<le> length got + length (stream s) then
        (\<exists>s'. res = Some (int n, got @ take (n - length got) (stream s), s') \<and>
          stream s' = drop (n - length got) (stream s) \<and> ending s' = ending s \<and> sk_type s' = sk_type s)
      else if ending s \<in> {RecvError, SelectError} then
        (\<exists>s'. res = Some (int (length (got @ stream s)), got @ stream s, s') \<and> stream s' = [] \<and>
          ending s' = ending s \<and> sk_type s' = sk_type s)
      else res = None)"

lemma recv_data:
  assumes "stream s \<noteq> []" and "0 < n"
  obtains bs s' where "recv n s = Some (int (length bs), bs, s')" and "bs \<noteq> []" and "length bs \<le> n"
    and "stream s = bs @ stream s'" and "ending s' = ending s" and "sk_type s' = sk_type s"
proof
  let ?q = "queue (arrive s)" and ?s' = "arrive s\<lparr>queue := drop n (queue (arrive s))\<rparr>"
  show "recv n s = Some (int (length (take n ?q)), take n ?q, ?s')"
    using assms(1) by (simp add: recv_def recv_peek_eq)
  show "take n ?q \<noteq> []" using assms by simp
  have "stream s = ?q @ concat (coming (arrive s))" by (metis arrive_simps(1) stream_def)
  then show "stream s = take n ?q @ stream ?s'" by (simp add: stream_def)
qed simp_all

lemma recv_end:
  assumes "stream s = []"
  shows "case ending s of StillOpen \<Rightarrow> recv n s = None
    | PeerClosed \<Rightarrow> \<exists>s'. recv n s = Some (0, [], s') \<and> stream s' = [] \<and> ending s' = ending s \<and> sk_type s' = sk_type s
    | _ \<Rightarrow> \<exists>s'. recv n s = Some (- 1, [], s') \<and> stream s' = [] \<and> ending s' = ending s \<and> sk_type s' = sk_type s"
proof -
  have a: "queue (arrive s) = []" and "stream (arrive s) = []" using assms by simp_all
  then have b: "concat (coming (arrive s)) = []" unfolding stream_def by simp
  have "stream (arrive s\<lparr>queue := drop n (queue (arrive s))\<rparr>) = []"
    unfolding stream_def by (simp add: a b del: concat_eq_Nil_conv)
  with assms show ?thesis by (cases "ending s") (simp_all add: recv_def recv_peek_eq)
qed

lemma readbytes_stuck:
  \<comment> \<open>a peer that has closed, or falls silent, before all bytes have come: the loop never ends\<close>
  assumes "stream s = []" and "ending s \<in> {StillOpen, PeerClosed}" and "length got < n"
  shows "readbytes_loop n got s = None"
proof -
  have "stream s = [] \<longrightarrow> ending s \<in> {StillOpen, PeerClosed} \<longrightarrow> length got < n \<longrightarrow> False"
    if "readbytes_loop n got s = Some y" for n got s y
    using that
  proof (induction rule: readbytes_loop.raw_induct [rotated, consumes 1, case_names step])
    case (step loop n got s y)
    then show ?case using recv_end [of s "n - length got"]
      by (cases y; cases "ending s") (auto split: if_splits)
  qed
  with assms show ?thesis by (cases "readbytes_loop n got s") auto
qed

lemma readbytes_result_shift:
  assumes "readbytes_result n (got @ bs) s' res" and "stream s = bs @ stream s'" and "length (got @ bs) \<le> n"
    and "ending s' = ending s" and "sk_type s' = sk_type s"
  shows "readbytes_result n got s res"
proof -
  obtain k where k: "n = length got + length bs + k" using assms(3) by (auto dest: le_Suc_ex)
  have c: "n \<le> length got + length (stream s) \<longleftrightarrow> k \<le> length (stream s')"
    "n \<le> length (got @ bs) + length (stream s') \<longleftrightarrow> k \<le> length (stream s')"
    "n - length got = length bs + k" "n - length (got @ bs) = k"
    by (simp_all add: k assms(2))
  show ?thesis
    using assms(1) unfolding readbytes_result_def c assms(4,5)
    by (cases "k \<le> length (stream s')"; cases "ending s \<in> {RecvError, SelectError}") (simp_all add: assms(2))
qed

lemma readbytes_spec: "readbytes_result n got s (readbytes_loop n got s)" if "length got \<le> n"
  using that
proof (induction "n - length got" arbitrary: got s rule: less_induct)
  case less
  consider (full) "length got = n" | (ended) "length got < n" "stream s = []" | (data) "length got < n" "stream s \<noteq> []"
    using less.prems by linarith
  then show ?case
  proof cases
    case full
    then show ?thesis by (subst readbytes_loop.simps) (simp add: readbytes_result_def)
  next
    case ended
    show ?thesis
    proof (cases "ending s \<in> {StillOpen, PeerClosed}")
      case True
      with ended readbytes_stuck [of s got n] show ?thesis by (auto simp: readbytes_result_def)
    next
      case False
      then have "ending s \<in> {RecvError, SelectError}" by (cases "ending s") auto
      with ended recv_end [OF ended(2), of "n - length got"] show ?thesis
        by (subst readbytes_loop.simps) (auto simp: readbytes_result_def)
    qed
  next
    case data
    then obtain bs s' where r: "recv (n - length got) s = Some (int (length bs), bs, s')" "bs \<noteq> []"
      "length bs \<le> n - length got" "stream s = bs @ stream s'" "ending s' = ending s" "sk_type s' = sk_type s"
      using recv_data [OF data(2), of "n - length got"] data(1) by (metis zero_less_diff)
    have u: "readbytes_loop n got s = readbytes_loop n (got @ bs) s'"
      using data r by (subst readbytes_loop.simps) simp
    have "readbytes_result n (got @ bs) s' (readbytes_loop n (got @ bs) s')"
    proof (rule less.hyps)
      show "n - length (got @ bs) < n - length got" using r(2) data(1) by (cases bs) auto
      show "length (got @ bs) \<le> n" using r(3) data(1) by simp
    qed
    from this r(4) _ r(5,6) show ?thesis unfolding u
      by (rule readbytes_result_shift) (use r(3) data(1) in simp)
  qed
qed

subsection \<open>Strings\<close>

lemma cstr_no_NUL: "NUL \<notin> set (cstr str)"
  unfolding cstr_def by (auto dest: set_takeWhileD)

lemma cstr_idem: "cstr (cstr str @ NUL # x) = cstr str"
  using cstr_append [OF cstr_no_NUL, of str "NUL # x"] by (simp add: cstr_def)

lemma cstr_overwrite: "cstr (overwrite (cstr str @ [NUL]) buf) = cstr str"
  by (simp add: overwrite_def cstr_idem)

lemma Sgets_intro:
  assumes "Sgets_loop (maxbuf - 2) [] s = Some (True, cstr str @ [NUL], s')"
  shows "\<exists>buf'. Sgets buf maxbuf (Some s) = Some (True, buf', Some s') \<and> cstr buf' = cstr str \<and>
    length buf \<le> length buf'"
proof -
  have "Sgets buf maxbuf (Some s) =
    Some (True, overwrite (cstr str @ [NUL]) (buf[0 := NUL, maxbuf - 1 := NUL]), Some s')"
    by (simp add: Sgets_def assms)
  moreover have "length buf \<le> length (overwrite (cstr str @ [NUL]) (buf[0 := NUL, maxbuf - 1 := NUL]))"
    by (simp add: overwrite_def)
  ultimately show ?thesis using cstr_overwrite by blast
qed

lemma Sgets_short:
  assumes "sk_type s \<noteq> PM_SERVER" and "stream s = cstring_bytes str @ rest" and "length (cstr str) + 3 \<le> maxbuf"
  shows "\<exists>buf' s'. Sgets buf maxbuf (Some s) = Some (True, buf', Some s') \<and> cstr buf' = cstr str \<and>
    stream s' = rest \<and> sk_type s' = sk_type s \<and> ending s' = ending s \<and> length buf \<le> length buf'"
proof -
  obtain k where k: "maxbuf - 2 = length (cstr str) + Suc k"
    using that [of "maxbuf - 3 - length (cstr str)"] assms(3) by linarith
  have s: "cstr (stream s) = cstr str" "NUL \<in> set (take (maxbuf - 2) (stream s))"
    "drop (length (cstr str) + 1) (stream s) = rest"
    by (simp_all add: assms(2) cstring_bytes_def cstr_idem k)
  have "0 < maxbuf - 2" using k by simp
  from Sgets_loop_spec [OF assms(1) this, of "[]"] s obtain s' where
    "Sgets_loop (maxbuf - 2) [] s = Some (True, cstr str @ [NUL], s')"
    "stream s' = rest" "sk_type s' = sk_type s" "ending s' = ending s"
    by (auto simp: gets_result_def Let_def)
  with Sgets_intro [OF this(1), of buf] show ?thesis by blast
qed

lemma Sgets_exact:
  assumes "sk_type s \<noteq> PM_SERVER" and "stream s = cstring_bytes str @ rest"
    and "length (cstr str) + 2 = maxbuf" and "cstr str \<noteq> []"
  shows "\<exists>buf' s'. Sgets buf maxbuf (Some s) = Some (True, buf', Some s') \<and> cstr buf' = cstr str \<and>
    stream s' = NUL # rest \<and> sk_type s' = sk_type s"
proof -
  have n: "maxbuf - 2 = length (cstr str)" using assms(3) by simp
  have t: "take (maxbuf - 2) (stream s) = cstr str" "drop (maxbuf - 2) (stream s) = NUL # rest"
    "maxbuf - 2 \<le> length (stream s)" "0 < maxbuf - 2"
    using assms(2,4) n by (simp_all add: cstring_bytes_def)
  obtain s' where "Sgets_loop (maxbuf - 2) [] s = Some (True, cstr str @ [NUL], s')"
    "stream s' = NUL # rest" "sk_type s' = sk_type s"
    using Sgets_loop_spec [OF assms(1) t(4), of "[]"] t cstr_no_NUL by (auto simp: gets_result_def Let_def)
  with Sgets_intro [OF this(1), of buf] show ?thesis by blast
qed

lemma write_loop_all:
  assumes "\<forall>x\<in>set ws. 0 \<le> x" and "int (length buf) \<le> int cnt + sum_list ws" and "cnt \<le> length buf"
  shows "\<exists>ws'. write_loop ws buf cnt = Some (int (length buf), buf, ws')"
  using assms
proof (induction ws buf cnt rule: write_loop.induct)
  case (2 w ws buf cnt)
  show ?case
  proof (cases "cnt < length buf")
    case True
    have "int (length buf) \<le> int (cnt + min (nat w) (length buf - cnt)) + sum_list ws"
      using 2(2,3) True sum_list_nonneg [of ws] by (simp add: min_def)
    with 2 True show ?thesis by auto
  qed (use 2 in simp)
qed simp

lemma Sputs_all:
  assumes "\<forall>x\<in>set sends. 0 \<le> x" and "int (length (cstring_bytes str)) \<le> sum_list sends"
  shows "\<exists>sends'. Sputs True sends str = Some (cstring_bytes str, sends')"
  using write_loop_all [OF assms(1), of "cstring_bytes str" 0] assms(2) by (auto simp: Sputs_def Swrite_def)

lemma sgets_leaves_terminator:
  assumes "sk_type s \<noteq> PM_SERVER" and "stream s = cstring_bytes str @ rest"
    and "length (cstr str) + 2 = maxbuf" and "cstr str \<noteq> []"
  shows "\<exists>buf1 s1 buf2 s2. Sgets buf maxbuf (Some s) = Some (True, buf1, Some s1) \<and>
    cstr buf1 = cstr str \<and> stream s1 = NUL # rest \<and>
    Sgets buf1 maxbuf (Some s1) = Some (True, buf2, Some s2) \<and> cstr buf2 = [] \<and> stream s2 = rest"
proof -
  obtain buf1 s1 where 1: "Sgets buf maxbuf (Some s) = Some (True, buf1, Some s1)" "cstr buf1 = cstr str"
    "stream s1 = NUL # rest" "sk_type s1 = sk_type s"
    using Sgets_exact [OF assms] by blast
  have "stream s1 = cstring_bytes [] @ rest" "length (cstr []) + 3 \<le> maxbuf"
    using 1(3) assms(3,4) by (simp_all add: cstring_bytes_def cstr_def Suc_le_eq flip: length_greater_0_conv)
  from Sgets_short [OF _ this, of buf1] 1 assms(1)
  obtain buf2 s2 where "Sgets buf1 maxbuf (Some s1) = Some (True, buf2, Some s2)" "cstr buf2 = cstr []"
    "stream s2 = rest" by auto
  with 1 show ?thesis by (auto simp: cstr_def)
qed

lemma sgets_leaves_terminator_example:
  "\<exists>buf1 s1 buf2 s2. Sgets (replicate 5 NUL) 5
      (Some \<lparr>sk_type = PM_CLIENT, queue = ''abc'', coming = [[NUL], ''d''], ending = StillOpen, backlog = 0\<rparr>) =
      Some (True, buf1, Some s1) \<and> cstr buf1 = cstr ''abc'' \<and> stream s1 = NUL # ''d'' \<and>
    Sgets buf1 5 (Some s1) = Some (True, buf2, Some s2) \<and> cstr buf2 = [] \<and> stream s2 = ''d''"
  by (rule sgets_leaves_terminator) (simp_all add: stream_def cstring_bytes_def cstr_def NUL_def)

end
