(* ===== verification/Dmucs_Server.thy ===== *)
theory Dmucs_Server
  imports Dmucs_Msg Ssl_Io_Lemmas
begin

text \<open>
  The message handlers of \<open>dmucs_msg.cc\<close>, \<open>DmucsHost::createHost\<close>, and the server of
  \<open>main.cc\<close>: its list of sockets, its wait mask, one round of its loop and the two threads.

  A round is given the streams of the sockets it may read (\<open>Ssl_Io\<close>) and what \<open>send\<close> will do on them: a
  read that blocks, a write that blocks and a write to a peer that has gone (nobody handles \<open>SIGPIPE\<close>)
  stop the server, which is \<open>None\<close>.  \<open>sent\<close> and \<open>closed\<close> record what is written with \<open>Sputs\<close> and
  closed with \<open>Sclose\<close>, in order.  A handler runs as one step: the threads are taken to run between requests
  (\<open>Dmucs_Threads\<close> looks inside).
\<close>

record server =
  sw :: world
  sfile :: "hosts_file option"
  fdList :: "sock list"
  smaskst :: smask
  skt :: "sock \<Rightarrow> int"               \<comment> \<open>the descriptor of a socket\<close>
  peer :: "sock \<Rightarrow> ip"              \<comment> \<open>\<open>Speeraddr\<close>\<close>
  listener :: int                    \<comment> \<open>the descriptor of \<open>server\<close>\<close>
  sent :: "(sock \<times> string) list"
  closed :: "sock list"

subsection \<open>Sockets\<close>

definition addFd :: "sock \<Rightarrow> server \<Rightarrow> server option" where
  "addFd sk s = map_option (\<lambda>m. s\<lparr>fdList := fdList s @ [sk], smaskst := m\<rparr>)
     (Smaskset (Some (skt s sk)) (smaskst s))"

definition removeFd :: "sock \<Rightarrow> server \<Rightarrow> server option" where
  "removeFd sk s = map_option (\<lambda>m. s\<lparr>smaskst := m, fdList := removeAll sk (fdList s),
       closed := closed s @ [sk]\<rparr>)
     (Smaskunset (Some (skt s sk)) (smaskst s))"

definition Sputs_to :: "string \<Rightarrow> sock \<Rightarrow> server \<Rightarrow> server" where
  "Sputs_to str sk s = s\<lparr>sent := sent s @ [(sk, str)]\<rparr>"

subsection \<open>createHost\<close>

definition createHost ::
    "env \<Rightarrow> ip \<Rightarrow> dprop \<Rightarrow> world \<Rightarrow> hosts_file option \<Rightarrow> (hptr option \<times> world \<times> hosts_file option) option" where
  \<comment> \<open>the pointer returned is the outer variable, which the inner one of the same name hides\<close>
  "createHost e ipAddr dprop w inst = do {
     hf \<leftarrow> HostsFile_getInstance e inst;
     ((found, numCpus, powerIndex), hf') \<leftarrow> getDataForHost e ipAddr hf;
     let newHost = None;
     w' \<leftarrow> (if found
            then DmucsDb_addNewHost (nexthost w)
              (w\<lparr>hosts := (hosts w)(nexthost w := DmucsHost_new ipAddr dprop numCpus powerIndex),
                 nexthost := Suc (nexthost w)\<rparr>)
            else Some w);
     Some (newHost, w', Some hf') }"

subsection \<open>The handlers\<close>

definition resolve_name :: "env \<Rightarrow> hptr \<Rightarrow> world \<Rightarrow> world" where
  "resolve_name e p w = upd_host p (\<lambda>h. snd (DmucsHost_getName e h)) w"

definition take_cpu :: "env \<Rightarrow> dprop \<Rightarrow> sock \<Rightarrow> world \<Rightarrow> (ip \<times> world) option" where
  \<comment> \<open>the body of the \<open>try\<close>: the address to send and the world, whichever way it is left\<close>
  "take_cpu e dprop sk w = (case DmucsDb_getBestAvailCpu (rnd e) dprop w of
     (Inl _, w1) \<Rightarrow> Some (0, w1)
   | (Inr cpuIpAddr, w1) \<Rightarrow> (case DmucsDb_getHost cpuIpAddr dprop w1 of
         Inl _ \<Rightarrow> Some (cpuIpAddr, w1)
       | Inr p \<Rightarrow> map_option (Pair cpuIpAddr)
           (DmucsDb_assignCpuToClient cpuIpAddr dprop sk (resolve_name e p w1))))"

definition HostReq_handle :: "env \<Rightarrow> dprop \<Rightarrow> sock \<Rightarrow> server \<Rightarrow> server option" where
  "HostReq_handle e dprop sk s = do {
     (c, w) \<leftarrow> take_cpu e dprop sk (sw s);
     Some (Sputs_to (inet_ntoa c) sk (s\<lparr>sw := w\<rparr>)) }"

definition revive :: "hptr \<Rightarrow> world \<Rightarrow> world option" where
  "revive p w =
     (if isSilent (hosts w p) \<or> (isOverloaded (hosts w p) \<and> getTier (hosts w p) \<noteq> 0)
      then DmucsHost_avail p w else Some w)"

definition load_report :: "env \<Rightarrow> ip \<Rightarrow> cfloat \<Rightarrow> cfloat \<Rightarrow> cfloat \<Rightarrow> dprop \<Rightarrow> world \<Rightarrow> hosts_file option \<Rightarrow>
    (world \<times> hosts_file option) option" where
  "load_report e host a b c dprop w inst = (case DmucsDb_getHost host dprop w of
     Inr p \<Rightarrow> do {
       w1 \<leftarrow> updateTier (now e) p a b c (resolve_name e p w);
       w2 \<leftarrow> revive p w1;
       Some (w2, inst) }
   | Inl _ \<Rightarrow> do {
       (newHost, w1, inst') \<leftarrow> createHost e host dprop w inst;
       (case newHost of
          None \<Rightarrow> Some (w1, inst')
        | Some p \<Rightarrow> do {
            w2 \<leftarrow> updateTier (now e) p a b c (resolve_name e p w1);
            Some (resolve_name e p w2, inst') }) })"

definition LdAvg_handle :: "env \<Rightarrow> ip \<Rightarrow> cfloat \<Rightarrow> cfloat \<Rightarrow> cfloat \<Rightarrow> dprop \<Rightarrow> sock \<Rightarrow> server \<Rightarrow> server option" where
  "LdAvg_handle e host a b c dprop sk s = do {
     (w, inst) \<leftarrow> load_report e host a b c dprop (sw s) (sfile s);
     removeFd sk (s\<lparr>sw := w, sfile := inst\<rparr>) }"

definition status_report :: "env \<Rightarrow> ip \<Rightarrow> host_status_t \<Rightarrow> dprop \<Rightarrow> world \<Rightarrow> hosts_file option \<Rightarrow>
    (world \<times> hosts_file option) option" where
  "status_report e host status dprop w inst =
     (if status = STATUS_AVAILABLE then
        (if DmucsDb_haveHost host dprop w then
           (case DmucsDb_getHost host dprop w of
              Inl _ \<Rightarrow> None
            | Inr p \<Rightarrow> map_option (\<lambda>w'. (w', inst)) (DmucsHost_avail p w))
         else map_option snd (createHost e host dprop w inst))
      else (case DmucsDb_getHost host dprop w of
          Inl _ \<Rightarrow> Some (w, inst)
        | Inr p \<Rightarrow> map_option (\<lambda>w'. (w', inst)) (DmucsHost_unavail p w)))"

definition Status_handle :: "env \<Rightarrow> ip \<Rightarrow> host_status_t \<Rightarrow> dprop \<Rightarrow> sock \<Rightarrow> server \<Rightarrow> server option" where
  "Status_handle e host status dprop sk s = do {
     (w, inst) \<leftarrow> status_report e host status dprop (sw s) (sfile s);
     removeFd sk (s\<lparr>sw := w, sfile := inst\<rparr>) }"

definition MonitorReq_handle :: "sock \<Rightarrow> server \<Rightarrow> server option" where
  "MonitorReq_handle sk s = removeFd sk (Sputs_to (c_str (DmucsDb_serialize (sw s))) sk s)"

fun msg_handle :: "env \<Rightarrow> dmucs_msg \<Rightarrow> sock \<Rightarrow> server \<Rightarrow> server option" where
  "msg_handle e (HostReqMsg cl d) sk s = HostReq_handle e d sk s"
| "msg_handle e (LdAvgMsg cl host a b c d) sk s = LdAvg_handle e host a b c d sk s"
| "msg_handle e (StatusMsg cl host st d) sk s = Status_handle e host st d sk s"
| "msg_handle e (MonitorReqMsg cl d) sk s = MonitorReq_handle sk s"

definition handleReq :: "env \<Rightarrow> sock \<Rightarrow> string option \<Rightarrow> server \<Rightarrow> server option" where
  \<comment> \<open>from the result of \<open>Sgets\<close> on; \<open>None\<close>: it finds the socket closed\<close>
  "handleReq e sk req s = (case req of
     None \<Rightarrow> do {
       w \<leftarrow> DmucsDb_releaseCpu e sk (sw s);
       removeFd sk (s\<lparr>sw := w\<rparr>) }
   | Some buf \<Rightarrow> (case parseMsg (peer s sk) buf of
         None \<Rightarrow> None
       | Some None \<Rightarrow> removeFd sk s
       | Some (Some msg) \<Rightarrow> msg_handle e msg sk s))"

subsection \<open>The loop and the threads\<close>

record round_input =
  ri_select :: selector
  ri_env :: env
  ri_buf :: string                           \<comment> \<open>what \<open>buf\<close> of \<open>handleReq\<close> holds at first\<close>
  ri_read :: "sock \<Rightarrow> ssocket"                \<comment> \<open>the stream of a socket of the list\<close>
  ri_sends :: "int list option"              \<comment> \<open>what \<open>send\<close> gives on it; \<open>None\<close>: \<open>SIGPIPE\<close>\<close>
  ri_accept :: "(sock \<times> int \<times> ip) option"   \<comment> \<open>\<open>Saccept\<close>: the new socket, its descriptor and peer\<close>
  ri_env2 :: env
  ri_read2 :: ssocket
  ri_sends2 :: "int list option"

definition MSG_BUFSIZE :: nat where
  "MSG_BUFSIZE = 1024"

definition read_request :: "string \<Rightarrow> ssocket \<Rightarrow> string option option" where
  \<comment> \<open>\<open>Sgets\<close> on an accepted socket: \<open>None\<close> if it blocks for ever, \<open>Some None\<close> for a null pointer\<close>
  "read_request buf k = map_option (\<lambda>(ok, b, _). if ok then Some (cstr b) else None)
     (Sgets buf MSG_BUFSIZE (Some (k\<lparr>sk_type := PM_ACCEPT\<rparr>)))"

text \<open>What it reads depends on the bytes of the stream only.\<close>

definition stalls :: "ssocket \<Rightarrow> bool" where
  \<comment> \<open>a peer that has sent no whole string, does not fill the buffer and keeps its end open\<close>
  "stalls k = (NUL \<notin> set (stream k) \<and> length (stream k) < MSG_BUFSIZE - 2 \<and> ending k = StillOpen)"

definition request_text :: "ssocket \<Rightarrow> string option" where
  "request_text k = (let q = take (MSG_BUFSIZE - 2) (stream k)
     in if NUL \<in> set q \<or> length q = MSG_BUFSIZE - 2 then Some (cstr q) else None)"

lemma cstr_stop: "cstr (cstr x @ NUL # y) = cstr x"
  by (induction x) (auto simp: cstr_def)

lemma read_request_loop:
  "read_request buf k = map_option (\<lambda>(ok, bs, _). if ok then Some (cstr (overwrite bs (buf[0 := NUL, MSG_BUFSIZE - 1 := NUL])))
     else None) (Sgets_loop (MSG_BUFSIZE - 2) [] (k\<lparr>sk_type := PM_ACCEPT\<rparr>))"
  by (cases "Sgets_loop (MSG_BUFSIZE - 2) [] (k\<lparr>sk_type := PM_ACCEPT\<rparr>)")
    (auto simp: read_request_def Sgets_def split: prod.split)

lemma read_request_eq [code]:
  "read_request buf k = (if stalls k then None else Some (request_text k))"
proof -
  let ?k = "k\<lparr>sk_type := PM_ACCEPT\<rparr>" and ?n = "MSG_BUFSIZE - 2" and ?q = "stream k"
  have st: "stream ?k = ?q" "ending ?k = ending k" by (simp_all add: stream_def)
  have "sk_type ?k \<noteq> PM_SERVER" "0 < ?n" by (simp_all add: MSG_BUFSIZE_def)
  from Sgets_loop_spec [OF this, of "[]"] have r: "gets_result ?n [] ?k (Sgets_loop ?n [] ?k)" .
  consider (whole) "NUL \<in> set (take ?n ?q)" | (full) "NUL \<notin> set (take ?n ?q)" "?n \<le> length ?q"
    | (part) "NUL \<notin> set ?q" "length ?q < ?n" by fastforce
  then show ?thesis
  proof cases
    case whole
    then have c: "cstr ?q = cstr (take ?n ?q)" by (metis append_take_drop_id cstr_prefix)
    have "\<not> stalls k" using in_set_takeD [OF whole] by (simp add: stalls_def)
    moreover obtain s' where "Sgets_loop ?n [] ?k = Some (True, cstr ?q @ [NUL], s')"
      using r whole by (simp add: gets_result_def st Let_def) blast
    ultimately show ?thesis using whole c
      by (simp add: read_request_loop overwrite_def cstr_stop request_text_def Let_def)
  next
    case full
    have w: "cstr (take ?n ?q) = take ?n ?q"
      unfolding cstr_def using full(1) by (intro takeWhile_eq_all_conv [THEN iffD2]) auto
    have "\<not> stalls k" using full(2) by (simp add: stalls_def)
    moreover obtain s' where "Sgets_loop ?n [] ?k = Some (True, take ?n ?q @ [NUL], s')"
      using r full by (simp add: gets_result_def st Let_def) blast
    ultimately show ?thesis using full w cstr_stop [of "take ?n ?q"]
      by (simp add: read_request_loop overwrite_def request_text_def Let_def)
  next
    case part
    then have t: "take ?n ?q = ?q" by simp
    show ?thesis
    proof (cases "ending k = StillOpen")
      case True
      with part t r have "Sgets_loop ?n [] ?k = None" by (simp add: gets_result_def st)
      with True part show ?thesis by (simp add: read_request_loop stalls_def)
    next
      case False
      with part t r obtain s' where "Sgets_loop ?n [] ?k = Some (False, ?q, s')"
        by (simp add: gets_result_def st) blast
      with False part t show ?thesis by (simp add: read_request_loop stalls_def request_text_def)
    qed
  qed
qed

definition written :: "int list option \<Rightarrow> (sock \<times> string) list \<Rightarrow> bool" where
  \<comment> \<open>what a handler writes (at most one string) is taken, or refused with an error\<close>
  "written sends msgs = list_all (\<lambda>(_, str). case sends of None \<Rightarrow> False
     | Some ws \<Rightarrow> Sputs True ws str \<noteq> None) msgs"

definition serve :: "env \<Rightarrow> string \<Rightarrow> ssocket \<Rightarrow> int list option \<Rightarrow> sock \<Rightarrow> server \<Rightarrow> server option" where
  \<comment> \<open>\<open>handleReq\<close> with its calls of \<open>Sgets\<close> and \<open>Sputs\<close>.  Neither what \<open>Sputs\<close> has sent nor whether it
     failed is looked at, so a write that stops the server may as well do so when the handler is through\<close>
  "serve e buf k sends sk s = do {
     req \<leftarrow> read_request buf k;
     s1 \<leftarrow> handleReq e sk req s;
     (if written sends (drop (length (sent s)) (sent s1)) then Some s1 else None) }"

fun find_ready :: "server \<Rightarrow> sock list \<Rightarrow> sock option option" where
  "find_ready s [] = Some None"
| "find_ready s (sk # sks) = (case Smaskisset (skt s sk) (smaskst s) of
     None \<Rightarrow> None
   | Some r \<Rightarrow> if r then Some (Some sk) else find_ready s sks)"

definition accept_round :: "round_input \<Rightarrow> server \<Rightarrow> server option" where
  "accept_round i s = (case ri_accept i of
     None \<Rightarrow> Some s
   | Some (sk, fd, ad) \<Rightarrow> do {
       s1 \<leftarrow> addFd sk (s\<lparr>skt := (skt s)(sk := fd), peer := (peer s)(sk := ad)\<rparr>);
       serve (ri_env2 i) (ri_buf i) (ri_read2 i) (ri_sends2 i) sk s1 })"

definition serve_ready :: "round_input \<Rightarrow> server \<Rightarrow> server option" where
  \<comment> \<open>at most one socket of the list is served\<close>
  "serve_ready i s = do {
     r \<leftarrow> find_ready s (fdList s);
     (case r of None \<Rightarrow> Some s | Some sk \<Rightarrow> serve (ri_env i) (ri_buf i) (ri_read i sk) (ri_sends i) sk s) }"

definition server_round :: "round_input \<Rightarrow> server \<Rightarrow> server option" where
  "server_round i s = (case Smaskwait (ri_select i) (smaskst s) of (result, m) \<Rightarrow>
     (let s0 = s\<lparr>smaskst := m\<rparr>
      in if 0 < result then do {
           s1 \<leftarrow> serve_ready i s0;
           ready \<leftarrow> Smaskisset (listener s1) (smaskst s1);
           if ready then accept_round i s1 else Some s1 }
         else Some s0))"

definition doSilentSearch :: "int \<Rightarrow> server \<Rightarrow> server option" where
  "doSilentSearch t s = map_option (\<lambda>w. s\<lparr>sw := w\<rparr>) (DmucsDb_handleSilentHosts t (sw s))"

definition updateStats :: "server \<Rightarrow> (int \<times> int \<times> int) \<times> server" where
  "updateStats s = (case DmucsDb_getStatsFromDb (sw s) of (r, w) \<Rightarrow> (r, s\<lparr>sw := w\<rparr>))"

definition server_start :: "int \<Rightarrow> server option" where
  \<comment> \<open>\<open>main\<close> before its loop, with the descriptor of the server socket\<close>
  "server_start fd = map_option
     (\<lambda>m. \<lparr>sw = DmucsDb_new, sfile = None, fdList = [], smaskst = m, skt = (\<lambda>_. 0), peer = (\<lambda>_. 0),
        listener = fd, sent = [], closed = []\<rparr>)
     (Smaskset (Some fd) smask_init)"

end
