(* ===== verification/Dmucs_Server_Inv.thy ===== *)
theory Dmucs_Server_Inv
  imports Dmucs_Server
begin

text \<open>
  The handlers keep the invariant of the databases and never run into undefined behaviour, and
  every state the server can reach satisfies the invariant.
\<close>

subsection \<open>Lookups\<close>

lemma getHost_Inr:
  assumes w: "winv w" and g: "DmucsDb_getHost a d w = Inr p"
  shows "knows w p" and "h_ip (hosts w p) = a" and "h_dprop (hosts w p) = d"
proof -
  obtain db where db: "map_find d (dbDb w) = Some db" and k: "kfind (host_key (hosts w)) a (allHosts db) = Some p"
    using g by (auto simp: DmucsDb_getHost_def DpropDb_getHost_def split: option.splits)
  have p: "p \<in> set (allHosts db)" "h_ip (hosts w p) = a"
    using kfind_SomeD [OF k] by (simp_all add: host_key_def)
  then show "h_ip (hosts w p) = a" by simp
  show "h_dprop (hosts w p) = d" using dinv_host [OF winv_D(3) [OF w db] p(1)] by simp
  with db p(1) show "knows w p" by (simp add: knows_def)
qed

lemma getHost_haveHost:
  "DmucsDb_haveHost a d w \<longleftrightarrow> (\<exists>p. DmucsDb_getHost a d w = Inr p)"
  by (auto simp: DmucsDb_haveHost_def DmucsDb_getHost_def DpropDb_haveHost_def DpropDb_getHost_def
      split: option.splits)

lemma getHost_Inl: "DmucsDb_getHost a d w = Inl x \<Longrightarrow> x = DmucsHostNotFound \<and> \<not> DmucsDb_haveHost a d w"
  by (auto simp: DmucsDb_haveHost_def DmucsDb_getHost_def DpropDb_haveHost_def DpropDb_getHost_def
      split: option.splits)

subsection \<open>Names\<close>

lemma resolve_name_simps [simp]:
  "dbDb (resolve_name e p w) = dbDb w" "nexthost (resolve_name e p w) = nexthost w"
  "sock2DpropDb (resolve_name e p w) = sock2DpropDb w"
  "h_ip (hosts (resolve_name e p w) q) = h_ip (hosts w q)"
  "h_dprop (hosts (resolve_name e p w) q) = h_dprop (hosts w q)"
  "h_state (hosts (resolve_name e p w) q) = h_state (hosts w q)"
  "h_ncpus (hosts (resolve_name e p w) q) = h_ncpus (hosts w q)"
  "getTier (hosts (resolve_name e p w) q) = getTier (hosts w q)"
  by (simp_all add: resolve_name_def frame_simps)

lemma resolve_name_winv:
  assumes w: "winv w"
  shows "winv (resolve_name e p w)"
proof -
  have "dinv {} (hosts (resolve_name e p w)) (nexthost w) d db" if "map_find d (dbDb w) = Some db" for d db
    by (rule dinv_hosts_cong [OF winv_D(3) [OF w that]]) simp_all
  then show ?thesis using winv_D [OF w] by (simp add: winv_def)
qed

lemma resolve_name_knows: "knows (resolve_name e p w) q = knows w q"
  by (simp add: knows_def)

subsection \<open>A host request\<close>

lemma getBest_world:
  assumes w: "winv w"
  shows "(DmucsDb_getBestAvailCpu r d w = (Inr 0, w) \<and> map_find d (dbDb w) = None) \<or>
    (\<exists>db. map_find d (dbDb w) = Some db \<and> DmucsDb_getBestAvailCpu r d w = (Inl DmucsNoMoreHosts, w)
      \<and> (\<forall>t. tier_cpus t db = [])) \<or>
    (\<exists>db db' x. map_find d (dbDb w) = Some db \<and> DpropDb_getBestAvailCpu r db = (Inr x, db') \<and>
      DmucsDb_getBestAvailCpu r d w = (Inr x, put_db d db' w))"
proof (cases "map_find d (dbDb w)")
  case None
  then show ?thesis by (simp add: DmucsDb_getBestAvailCpu_def)
next
  case (Some db)
  have inv: "dinv {} (hosts w) (nexthost w) d db" by (rule winv_D(3) [OF w Some])
  obtain res db' where g: "DpropDb_getBestAvailCpu r db = (res, db')" by fastforce
  show ?thesis
  proof (cases res)
    case (Inl x)
    then have "x = DmucsNoMoreHosts" "db' = db" "\<forall>t. tier_cpus t db = []"
      using getBest_fails [OF inv, of r] g by blast+
    then show ?thesis
      using Inl Some g map_update_same [OF winv_D(1) [OF w] Some] by (simp add: DmucsDb_getBestAvailCpu_def)
  next
    case (Inr x)
    with Some g show ?thesis by (simp add: DmucsDb_getBestAvailCpu_def put_db_def)
  qed
qed

text \<open>
  The outcome of a request: either there is no cpu and nothing changes, or the address of an
  available host in the highest tier that has a cpu is given out, one cpu of it is gone, and the
  socket is recorded as holding it.
\<close>

definition cpu_taken :: "dprop \<Rightarrow> sock \<Rightarrow> ip \<Rightarrow> world \<Rightarrow> world \<Rightarrow> bool" where
  "cpu_taken d sk x w w' \<longleftrightarrow> (\<exists>p\<in>set (availHosts (db_of d w)).
     h_ip (hosts w p) = x \<and> h_state (hosts w p) = StateAvail \<and>
     x \<in> set (tier_cpus (getTier (hosts w p)) (db_of d w)) \<and>
     (\<forall>s>getTier (hosts w p). tier_cpus s (db_of d w) = []) \<and>
     (\<forall>s y. count_list (tier_cpus s (db_of d w')) y = count_list (tier_cpus s (db_of d w)) y -
        (if s = getTier (hosts w p) \<and> y = x then 1 else 0)) \<and>
     (\<forall>d'. d' \<noteq> d \<longrightarrow> map_find d' (dbDb w') = map_find d' (dbDb w)) \<and>
     same_hosts w w' \<and> availHosts (db_of d w') = availHosts (db_of d w) \<and>
     map_find sk (sock2DpropDb w') = (case map_find sk (sock2DpropDb w) of None \<Rightarrow> Some d | Some d' \<Rightarrow> Some d') \<and>
     map_find sk (assignedCpus (db_of d w')) =
       (case map_find sk (assignedCpus (db_of d w)) of None \<Rightarrow> Some x | Some y \<Rightarrow> Some y))"

definition no_cpus :: "dprop \<Rightarrow> world \<Rightarrow> bool" where
  "no_cpus d w \<longleftrightarrow> list_all (\<lambda>(t, l). l = []) (availCpus (db_of d w))"

lemma no_cpus_tiers:
  assumes "winv w"
  shows "no_cpus d w \<longleftrightarrow> (\<forall>t. tier_cpus t (db_of d w) = [])"
proof -
  have "msorted (availCpus (db_of d w))"
    using winv_D(3) [OF assms, of d] by (auto simp: db_of_def DpropDb_new_def dinv_def cpus_ok_def split: option.split)
  then show ?thesis
    by (auto simp: no_cpus_def list_all_iff tier_cpus_def map_find_iff split: option.split)
qed

lemma take_cpu_ok:
  assumes w: "winv w"
  shows "\<exists>x w'. take_cpu e d sk w = Some (x, w') \<and> winv w' \<and>
    (if no_cpus d w then x = 0 \<and> w' = w else cpu_taken d sk x w w')"
  using getBest_world [OF w, of "rnd e" d]
proof (elim disjE exE conjE)
  assume "DmucsDb_getBestAvailCpu (rnd e) d w = (Inr 0, w)" "map_find d (dbDb w) = None"
  then show ?thesis
    using w by (simp add: take_cpu_def DmucsDb_getHost_def no_cpus_def db_of_def DpropDb_new_def)
next
  fix db assume "map_find d (dbDb w) = Some db"
    "DmucsDb_getBestAvailCpu (rnd e) d w = (Inl DmucsNoMoreHosts, w)" "\<forall>t. tier_cpus t db = []"
  then show ?thesis
    using w no_cpus_tiers [OF w, of d] by (simp add: take_cpu_def db_of_def)
next
  fix db db' x
  assume db: "map_find d (dbDb w) = Some db" and g: "DpropDb_getBestAvailCpu (rnd e) db = (Inr x, db')"
    and gw: "DmucsDb_getBestAvailCpu (rnd e) d w = (Inr x, put_db d db' w)"
  have inv: "dinv {} (hosts w) (nexthost w) d db" by (rule winv_D(3) [OF w db])
  have sok: "sets_ok {} (hosts w) db" using inv by (simp add: dinv_def)
  obtain t where t: "x \<in> set (tier_cpus t db)" "\<And>s. t < s \<Longrightarrow> tier_cpus s db = []"
    and tc: "\<And>s. tier_cpus s db' = (if s = t
          then list_erase_nth (rnd e mod length (tier_cpus t db)) (tier_cpus t db) else tier_cpus s db)"
    and xn: "x = tier_cpus t db ! (rnd e mod length (tier_cpus t db))"
    and inv': "dinv {} (hosts w) (nexthost w) d db'" and r: "same_rest db db'"
    and av: "availHosts db' = availHosts db"
    by (rule getBest_db [OF inv g]) (rule that; assumption)
  obtain p where p: "DpropDb_getHost (hosts w) x db = Inr p" "p \<in> set (availHosts db)"
    "p \<in> set (allHosts db)" "h_ip (hosts w p) = x" "getTier (hosts w p) = t"
    by (rule getBest_owner [OF inv t(1)])
  let ?w1 = "put_db d db' w"
  have w1: "winv ?w1"
    using winv_put [OF w db inv', simplified] winv_D(4) [OF w] db r by (fastforce simp: same_rest_def)
  have all: "allHosts db' = allHosts db" and as: "assignedCpus db' = assignedCpus db"
    using r by (simp_all add: same_rest_def)
  have gh: "DmucsDb_getHost x d ?w1 = Inr p"
    using p(1) db all by (simp add: DmucsDb_getHost_def DpropDb_getHost_def)
  let ?w2 = "resolve_name e p ?w1"
  have db2: "map_find d (dbDb ?w2) = Some db'" using db by simp
  have w2: "winv ?w2" by (rule resolve_name_winv [OF w1])
  let ?db3 = "DpropDb_assignCpuToClient x sk db'"
  let ?w3 = "put_db d ?db3 (?w2\<lparr>sock2DpropDb := map_insert sk d (sock2DpropDb ?w2)\<rparr>)"
  have a: "DmucsDb_assignCpuToClient x d sk ?w2 = Some ?w3" "winv ?w3"
    using assign_ok [OF w2 db2, of x sk] by auto
  have tk: "take_cpu e d sk w = Some (x, ?w3)"
    using gw gh a(1) by (simp add: take_cpu_def)
  have d3: "db_of d ?w3 = ?db3" "db_of d w = db" using db by (simp_all add: db_of_def)
  have tc3: "tier_cpus s (DpropDb_assignCpuToClient z sk db') = tier_cpus s db'" for s z
    by (simp add: DpropDb_assignCpuToClient_def Let_def tier_cpus_def)
  have cnt: "count_list (tier_cpus s ?db3) y = count_list (tier_cpus s db) y - (if s = t \<and> y = x then 1 else 0)" for s y
  proof -
    have "tier_cpus t db \<noteq> []" using t(1) by auto
    then have "rnd e mod length (tier_cpus t db) < length (tier_cpus t db)" by simp
    then show ?thesis using xn by (auto simp: tc3 tc count_list_erase_nth)
  qed
  have st: "h_state (hosts w p) = StateAvail" using p(2) avail_iff [OF sok] by simp
  have "cpu_taken d sk x w ?w3"
    unfolding cpu_taken_def d3
  proof (intro bexI [OF _ p(2)] conjI allI impI)
    fix d' assume "d' \<noteq> d"
    then show "map_find d' (dbDb ?w3) = map_find d' (dbDb w)" by (simp add: put_db_find_other)
  next
    have "hosts (resolve_name e p w) q\<lparr>h_name := h_name (hosts w q)\<rparr> = hosts w q" for q
      using getName_other [of "hosts w q" e] by (cases "q = p") (simp_all add: resolve_name_def upd_host_def)
    then show "same_hosts w ?w3" by (simp add: same_hosts_def put_db_def resolve_name_def upd_host_def)
  next
    show "availHosts ?db3 = availHosts db" using av by (simp add: DpropDb_assignCpuToClient_def Let_def)
  next
    show "map_find sk (sock2DpropDb ?w3) = (case map_find sk (sock2DpropDb w) of None \<Rightarrow> Some d | Some d' \<Rightarrow> Some d')"
      using winv_D(2) [OF w] by (simp add: map_find_insert)
  next
    show "map_find sk (assignedCpus ?db3) = (case map_find sk (assignedCpus db) of None \<Rightarrow> Some x | Some y \<Rightarrow> Some y)"
      using assign_db(2) [OF inv', of sk x sk] as by simp
  qed (use p st t cnt in auto)
  moreover have "\<not> no_cpus d w"
    using t(1) no_cpus_tiers [OF w, of d] d3(2) by (metis empty_iff empty_set)
  ultimately show ?thesis using tk a(2) by auto
qed

text \<open>A cpu that is given out and comes back: the tiers hold what they held before.\<close>

lemma same_hosts_D:
  assumes "same_hosts w w'"
  shows "h_ip (hosts w' q) = h_ip (hosts w q)" "getTier (hosts w' q) = getTier (hosts w q)"
    "h_state (hosts w' q) = h_state (hosts w q)"
proof -
  have "hosts w q = hosts w' q\<lparr>h_name := h_name (hosts w q)\<rparr>" using assms by (simp add: same_hosts_def)
  then obtain nm where "hosts w q = hosts w' q\<lparr>h_name := nm\<rparr>" by blast
  then show "h_ip (hosts w' q) = h_ip (hosts w q)" "getTier (hosts w' q) = getTier (hosts w q)"
    "h_state (hosts w' q) = h_state (hosts w q)" by (simp_all add: getTier_def)
qed

lemma count_list_returned:
  assumes "\<And>s y. count_list (f s) y = count_list (g s) y - (if s = T \<and> y = x then 1 else 0)"
    and "\<And>s. h s = f s @ (if s = T then [x] else [])" and "0 < count_list (g T) x"
  shows "count_list (h t) y = count_list (g t) y"
  using assms by (cases "t = T"; cases "y = x") simp_all

lemma taken_returns:
  assumes w: "winv w" and w1: "winv w1" and taken: "cpu_taken d sk x w w1"
    and free: "map_find sk (sock2DpropDb w) = None" "map_find sk (assignedCpus (db_of d w)) = None"
  obtains w2 where "DmucsDb_releaseCpu e sk w1 = Some w2" and "winv w2"
    and "map_find sk (sock2DpropDb w2) = None"
    and "\<And>t y. count_list (tier_cpus t (db_of d w2)) y = count_list (tier_cpus t (db_of d w)) y"
proof -
  obtain p where p: "p \<in> set (availHosts (db_of d w))" "h_ip (hosts w p) = x"
      "x \<in> set (tier_cpus (getTier (hosts w p)) (db_of d w))"
    and cnt: "\<And>s y. count_list (tier_cpus s (db_of d w1)) y = count_list (tier_cpus s (db_of d w)) y -
        (if s = getTier (hosts w p) \<and> y = x then 1 else 0)"
    and same: "same_hosts w w1" "availHosts (db_of d w1) = availHosts (db_of d w)"
    and held: "map_find sk (sock2DpropDb w1) = Some d" "map_find sk (assignedCpus (db_of d w1)) = Some x"
    using taken free by (auto simp: cpu_taken_def)
  obtain db x' w2 where r: "map_find d (dbDb w1) = Some db"
      "map_find sk (assignedCpus db) = Some x'" "DmucsDb_releaseCpu e sk w1 = Some w2" "winv w2"
    and tc: "\<And>t. tier_cpus t (db_of d w2) = tier_cpus t db @
      (if \<exists>p\<in>set (availHosts db). h_ip (hosts w1 p) = x' \<and> getTier (hosts w1 p) = t then [x'] else [])"
    by (rule release_world [OF w1 held(1), of e]) (rule that; assumption)
  have db: "db_of d w1 = db" and x': "x' = x" using r(1,2) held(2) by (simp_all add: db_of_def)
  have k: "ksorted (host_key (hosts w1)) (availHosts db)"
    using winv_D(3) [OF w1 r(1)] sets_ok_D(1) [of "{}" "hosts w1" db StateAvail] by (simp add: dinv_def)
  note h = same_hosts_D [OF same(1)]
  have pa: "p \<in> set (availHosts db)" using p(1) same(2) db by simp
  have "q = p" if "q \<in> set (availHosts db)" "h_ip (hosts w1 q) = x" for q
    by (rule ksorted_inj [OF k that(1) pa]) (use that(2) p(2) in \<open>simp add: host_key_def h\<close>)
  then have owner: "(\<exists>q\<in>set (availHosts db). h_ip (hosts w1 q) = x' \<and> getTier (hosts w1 q) = t) \<longleftrightarrow>
      t = getTier (hosts w p)" for t
    using pa p(2) h x' by metis
  have tc': "tier_cpus t (db_of d w2) = tier_cpus t (db_of d w1) @ (if t = getTier (hosts w p) then [x] else [])" for t
    unfolding tc owner by (simp add: db x')
  have pos: "0 < count_list (tier_cpus (getTier (hosts w p)) (db_of d w)) x"
    using p(3) by (simp add: count_list_0_iff zero_less_iff_neq_zero)
  have c: "count_list (tier_cpus t (db_of d w2)) y = count_list (tier_cpus t (db_of d w)) y" for t y
    by (rule count_list_returned [where f = "\<lambda>s. tier_cpus s (db_of d w1)" and g = "\<lambda>s. tier_cpus s (db_of d w)" and
        h = "\<lambda>s. tier_cpus s (db_of d w2)", OF cnt tc' pos])
  have n: "map_find sk (sock2DpropDb w2) = None"
    using release_ok [OF w1, of e sk] r(3) winv_D(2) [OF w1] by (auto simp: map_find_erase)
  show ?thesis by (rule that [OF r(3,4) n c])
qed

subsection \<open>createHost, load averages and status messages\<close>

lemma createHost_ok:
  assumes w: "winv w" and fresh: "\<not> DmucsDb_haveHost a d w" and f: "file_ok e" "inst_ok inst"
  shows "\<exists>w' inst'. createHost e a d w inst = Some (None, w', inst') \<and> winv w' \<and> inst_ok inst' \<and>
    (w' = w \<or> (\<exists>n pi. 0 \<le> n \<and> host_added a d n pi w w'))"
proof -
  obtain hf where hf: "HostsFile_getInstance e inst = Some hf" "host_info_ok (hf_db hf)"
    using getInstance_ok [OF f] by blast
  obtain found n pi hf' where g: "getDataForHost e a hf = Some ((found, n, pi), hf')" "0 \<le> n"
    "host_info_ok (hf_db hf')"
    using getDataForHost_ok [OF f(1) hf(2)] by blast
  show ?thesis
  proof (cases found)
    case True
    obtain w' where w': "DmucsDb_addNewHost (nexthost w)
        (w\<lparr>hosts := (hosts w)(nexthost w := DmucsHost_new a d n pi), nexthost := Suc (nexthost w)\<rparr>) = Some w'"
      "host_added a d n pi w w'"
      using addNewHost_ok [OF w fresh g(2)] by blast
    then have "winv w'" by (simp add: host_added_def)
    with True hf g w' show ?thesis by (auto simp: createHost_def inst_ok_def)
  next
    case False
    with hf g w show ?thesis by (auto simp: createHost_def inst_ok_def)
  qed
qed

lemma revive_ok:
  assumes w: "winv w" and k: "knows w p"
  shows "\<exists>w'. revive p w = Some w' \<and> winv w' \<and> world_frame p w w' \<and>
    hosts w' p = (hosts w p)\<lparr>h_state :=
      (if h_state (hosts w p) = StateSilent \<or> (h_state (hosts w p) = StateOverloaded \<and> getTier (hosts w p) \<noteq> 0)
       then StateAvail else h_state (hosts w p))\<rparr>"
proof (rule event_result_D [OF avail_event [OF w k] w])
  fix w' assume "DmucsHost_avail p w = Some w'" "winv w'" "world_frame p w w'"
    "hosts w' p = (hosts w p)\<lparr>h_state := (case avail_target (h_state (hosts w p)) (getTier (hosts w p)) of
       None \<Rightarrow> h_state (hosts w p) | Some st \<Rightarrow> st)\<rparr>"
  with w show ?thesis
    by (cases "h_state (hosts w p)") (auto simp: revive_def isSilent_def isOverloaded_def)
qed

definition revived :: "DmucsHostState \<Rightarrow> int \<Rightarrow> DmucsHostState" where
  "revived st tier =
     (if st = StateSilent \<or> (st = StateOverloaded \<and> tier \<noteq> 0) then StateAvail else st)"

lemma load_report_known:
  assumes w: "winv w" and g: "DmucsDb_getHost host d w = Inr p"
  shows "\<exists>w1 w'. load_report e host a b c d w inst = Some (w', inst) \<and> winv w' \<and>
    reported (now e) p a b c (resolve_name e p w) w1 \<and> world_frame p w1 w' \<and>
    hosts w' p = (hosts w1 p)\<lparr>h_state :=
      (if h_state (hosts w1 p) = StateSilent \<or> (h_state (hosts w1 p) = StateOverloaded \<and> getTier (hosts w1 p) \<noteq> 0)
       then StateAvail else h_state (hosts w1 p))\<rparr>"
proof -
  have k: "knows (resolve_name e p w) p" using getHost_Inr [OF w g] resolve_name_knows by simp
  obtain w1 where w1: "updateTier (now e) p a b c (resolve_name e p w) = Some w1"
    "reported (now e) p a b c (resolve_name e p w) w1"
    using updateTier_ok [OF resolve_name_winv [OF w] k] by blast
  then have i1: "winv w1" and k1: "knows w1 p"
    using knows_frame [OF _ k] by (auto simp: reported_def)
  obtain w' where "revive p w1 = Some w'" "winv w'" "world_frame p w1 w'"
    "hosts w' p = (hosts w1 p)\<lparr>h_state :=
      (if h_state (hosts w1 p) = StateSilent \<or> (h_state (hosts w1 p) = StateOverloaded \<and> getTier (hosts w1 p) \<noteq> 0)
       then StateAvail else h_state (hosts w1 p))\<rparr>"
    using revive_ok [OF i1 k1] by blast
  with g w1 show ?thesis by (auto simp: load_report_def)
qed

lemma load_report_ok:
  assumes w: "winv w" and f: "file_ok e" "inst_ok inst"
  shows "\<exists>w' inst'. load_report e host a b c d w inst = Some (w', inst') \<and> winv w' \<and> inst_ok inst'"
proof (cases "DmucsDb_getHost host d w")
  case (Inr p)
  with load_report_known [OF w Inr] f show ?thesis by blast
next
  case (Inl x)
  with createHost_ok [OF w _ f, of host d] getHost_Inl [OF Inl] show ?thesis
    by (auto simp: load_report_def)
qed

lemma status_report_ok:
  assumes w: "winv w" and f: "file_ok e" "inst_ok inst"
  shows "\<exists>w' inst'. status_report e host st d w inst = Some (w', inst') \<and> winv w' \<and> inst_ok inst'"
proof (cases "DmucsDb_getHost host d w")
  case (Inr p)
  then have k: "knows w p" by (rule getHost_Inr [OF w])
  obtain wa wu where "DmucsHost_avail p w = Some wa" "winv wa" "DmucsHost_unavail p w = Some wu" "winv wu"
    using event_result_D [OF avail_event [OF w k] w] event_result_D [OF unavail_event [OF w k] w] by metis
  moreover have "DmucsDb_haveHost host d w" using Inr getHost_haveHost by blast
  ultimately show ?thesis using Inr f by (simp add: status_report_def)
next
  case (Inl x)
  with createHost_ok [OF w _ f, of host d] getHost_Inl [OF Inl] w f show ?thesis
    by (auto simp: status_report_def)
qed

subsection \<open>The server\<close>

definition sinv :: "server \<Rightarrow> bool" where
  "sinv s \<longleftrightarrow> winv (sw s) \<and> inst_ok (sfile s) \<and> wm.watches (listener s) (skt s) (fdList s) (smaskst s)"

text \<open>What a request leaves alone: sockets, and the list but for the socket it closes.\<close>

definition req_frame :: "sock \<Rightarrow> server \<Rightarrow> server \<Rightarrow> bool" where
  "req_frame sk s s' \<longleftrightarrow> skt s' = skt s \<and> peer s' = peer s \<and> listener s' = listener s \<and>
     (fdList s' = fdList s \<and> closed s' = closed s \<or>
      fdList s' = removeAll sk (fdList s) \<and> closed s' = closed s @ [sk])"

lemma removeFd_ok:
  assumes "winv (sw s)" and "inst_ok (sfile s)"
    and "wm.watches (listener s) (skt s) (fdList s) (smaskst s)" and "sk \<in> set (fdList s)"
  shows "\<exists>s'. removeFd sk s = Some s' \<and> sinv s' \<and> req_frame sk s s' \<and> sw s' = sw s"
  using wm.watches_del [OF assms(3,4)] assms(1,2)
  by (auto simp: removeFd_def sinv_def req_frame_def)

lemma addFd_ok:
  assumes s: "sinv s" and n: "sk \<notin> set (fdList s)" "legal_fd fd" "fd \<noteq> listener s" "fd \<notin> skt s ` set (fdList s)"
  shows "\<exists>s'. addFd sk (s\<lparr>skt := (skt s)(sk := fd), peer := (peer s)(sk := ad)\<rparr>) = Some s' \<and> sinv s' \<and>
    sk \<in> set (fdList s') \<and> peer s' sk = ad"
  using wm.watches_add [OF _ n, of "smaskst s"] s by (auto simp: sinv_def addFd_def)

definition req_ok :: "ip \<Rightarrow> string option \<Rightarrow> bool" where
  \<comment> \<open>no word of the request overruns its buffer\<close>
  "req_ok cl req = (case req of None \<Rightarrow> True | Some buf \<Rightarrow> parseMsg cl buf \<noteq> None)"

lemma msg_handle_ok:
  assumes s: "sinv s" and sk: "sk \<in> set (fdList s)" and f: "file_ok e"
  shows "\<exists>s'. msg_handle e m sk s = Some s' \<and> sinv s' \<and> req_frame sk s s'"
proof -
  have w: "winv (sw s)" and i: "inst_ok (sfile s)"
    and m: "wm.watches (listener s) (skt s) (fdList s) (smaskst s)"
    using s by (simp_all add: sinv_def)
  have close: "\<exists>s'. removeFd sk (s\<lparr>sw := w', sfile := inst'\<rparr>) = Some s' \<and> sinv s' \<and> req_frame sk s s'"
    if "winv w'" "inst_ok inst'" for w' inst'
    using removeFd_ok [of "s\<lparr>sw := w', sfile := inst'\<rparr>" sk] that m sk by (auto simp: req_frame_def)
  show ?thesis
  proof (cases m)
    case (HostReqMsg cl d)
    obtain x w' where "take_cpu e d sk (sw s) = Some (x, w')" "winv w'"
      using take_cpu_ok [OF w, of e d sk] by blast
    with HostReqMsg i m show ?thesis
      by (auto simp: HostReq_handle_def Sputs_to_def sinv_def req_frame_def)
  next
    case (LdAvgMsg cl host a b c d)
    obtain w' inst' where "load_report e host a b c d (sw s) (sfile s) = Some (w', inst')" "winv w'" "inst_ok inst'"
      using load_report_ok [OF w f i] by blast
    with LdAvgMsg close show ?thesis by (simp add: LdAvg_handle_def)
  next
    case (StatusMsg cl host st d)
    obtain w' inst' where "status_report e host st d (sw s) (sfile s) = Some (w', inst')" "winv w'" "inst_ok inst'"
      using status_report_ok [OF w f i] by blast
    with StatusMsg close show ?thesis by (simp add: Status_handle_def)
  next
    case (MonitorReqMsg cl d)
    then show ?thesis
      using removeFd_ok [of "Sputs_to (c_str (DmucsDb_serialize (sw s))) sk s" sk] w i m sk
      by (auto simp: MonitorReq_handle_def Sputs_to_def req_frame_def)
  qed
qed

lemma handleReq_ok:
  assumes s: "sinv s" and sk: "sk \<in> set (fdList s)" and f: "file_ok e" and r: "req_ok (peer s sk) req"
  shows "\<exists>s'. handleReq e sk req s = Some s' \<and> sinv s' \<and> req_frame sk s s'"
proof -
  have w: "winv (sw s)" and i: "inst_ok (sfile s)"
    and m: "wm.watches (listener s) (skt s) (fdList s) (smaskst s)"
    using s by (simp_all add: sinv_def)
  show ?thesis
  proof (cases req)
    case None
    obtain w' where "DmucsDb_releaseCpu e sk (sw s) = Some w'" "winv w'"
      using release_ok [OF w, of e sk] by blast
    then show ?thesis
      using removeFd_ok [of "s\<lparr>sw := w'\<rparr>" sk] None i m sk by (auto simp: handleReq_def req_frame_def)
  next
    case (Some buf)
    with r obtain mo where mo: "parseMsg (peer s sk) buf = Some mo" by (auto simp: req_ok_def)
    show ?thesis
    proof (cases mo)
      case None
      then show ?thesis
        using removeFd_ok [OF w i m sk] mo Some by (auto simp: handleReq_def)
    next
      case (Some msg)
      then show ?thesis
        using msg_handle_ok [OF s sk f, of msg] mo \<open>req = Some buf\<close> by (simp add: handleReq_def)
    qed
  qed
qed

lemma removeFd_rmask:
  assumes "removeFd sk s0 = Some s1"
  shows "rmask (smaskst s1) = rmask (smaskst s0)" and "listener s1 = listener s0"
  using assms by (auto simp: removeFd_def Smaskunset_def split: if_splits)

lemma msg_handle_rmask:
  assumes "msg_handle e msg sk s = Some s'"
  shows "rmask (smaskst s') = rmask (smaskst s) \<and> listener s' = listener s"
proof (cases msg)
  case (HostReqMsg cl d)
  with assms show ?thesis by (auto simp: HostReq_handle_def Sputs_to_def bind_eq_Some_conv)
next
  case (LdAvgMsg cl host a b c d)
  with assms obtain w inst where "removeFd sk (s\<lparr>sw := w, sfile := inst\<rparr>) = Some s'"
    by (auto simp: LdAvg_handle_def bind_eq_Some_conv)
  from removeFd_rmask [OF this] show ?thesis by simp
next
  case (StatusMsg cl host st d)
  with assms obtain w inst where "removeFd sk (s\<lparr>sw := w, sfile := inst\<rparr>) = Some s'"
    by (auto simp: Status_handle_def bind_eq_Some_conv)
  from removeFd_rmask [OF this] show ?thesis by simp
next
  case (MonitorReqMsg cl d)
  with assms have "removeFd sk (Sputs_to (c_str (DmucsDb_serialize (sw s))) sk s) = Some s'"
    by (simp add: MonitorReq_handle_def)
  from removeFd_rmask [OF this] show ?thesis by (simp add: Sputs_to_def)
qed

lemma handleReq_rmask:
  assumes "handleReq e sk req s = Some s'"
  shows "rmask (smaskst s') = rmask (smaskst s) \<and> listener s' = listener s"
proof (cases req)
  case None
  with assms obtain w where "removeFd sk (s\<lparr>sw := w\<rparr>) = Some s'"
    by (auto simp: handleReq_def bind_eq_Some_conv)
  from removeFd_rmask [OF this] show ?thesis by simp
next
  case (Some buf)
  with assms obtain mo where m: "parseMsg (peer s sk) buf = Some mo"
    "(case mo of None \<Rightarrow> removeFd sk s | Some msg \<Rightarrow> msg_handle e msg sk s) = Some s'"
    by (auto simp: handleReq_def split: option.splits)
  then show ?thesis using removeFd_rmask [of sk s s'] msg_handle_rmask by (cases mo) auto
qed

subsection \<open>A request with its reads and writes\<close>

definition request_ok :: "ip \<Rightarrow> string \<Rightarrow> ssocket \<Rightarrow> bool" where
  \<comment> \<open>no word of the request the stream holds, if it holds one, overruns its buffer\<close>
  "request_ok cl buf k = (case read_request buf k of None \<Rightarrow> True | Some req \<Rightarrow> req_ok cl req)"

definition serve_stuck :: "env \<Rightarrow> ssocket \<Rightarrow> int list option \<Rightarrow> sock \<Rightarrow> server \<Rightarrow> bool" where
  \<comment> \<open>the peer keeps the server waiting for the rest of a string, or the answer cannot be written\<close>
  "serve_stuck e k sends sk s \<longleftrightarrow> stalls k \<or> (case handleReq e sk (request_text k) s of
     None \<Rightarrow> False | Some s1 \<Rightarrow> \<not> written sends (drop (length (sent s)) (sent s1)))"

lemma serve_cases:
  assumes "serve e buf k sends sk s = Some s'"
  obtains req where "read_request buf k = Some req" and "handleReq e sk req s = Some s'"
  using assms by (auto simp: serve_def bind_eq_Some_conv split: if_splits)

lemma serve_stops: "stalls k \<Longrightarrow> serve e buf k sends sk s = None"
  by (simp add: serve_def read_request_eq)

lemma serve_ok:
  assumes "sinv s" and "sk \<in> set (fdList s)" and "file_ok e" and "request_ok (peer s sk) buf k"
    and "serve e buf k sends sk s = Some s'"
  shows "sinv s' \<and> req_frame sk s s' \<and> rmask (smaskst s') = rmask (smaskst s)"
  using assms(5)
proof (cases rule: serve_cases)
  case (1 req)
  with assms(4) have "req_ok (peer s sk) req" by (simp add: request_ok_def)
  from handleReq_ok [OF assms(1-3) this] 1(2) handleReq_rmask [OF 1(2)] show ?thesis by auto
qed

lemma serve_returns:
  assumes "sinv s" and "sk \<in> set (fdList s)" and "file_ok e" and "request_ok (peer s sk) buf k"
  shows "serve e buf k sends sk s = None \<longleftrightarrow> serve_stuck e k sends sk s"
proof (cases "stalls k")
  case True
  then show ?thesis by (simp add: serve_stops serve_stuck_def)
next
  case False
  then have r: "read_request buf k = Some (request_text k)" by (simp add: read_request_eq)
  with assms(4) have "req_ok (peer s sk) (request_text k)" by (simp add: request_ok_def)
  from handleReq_ok [OF assms(1-3) this] r False show ?thesis
    by (auto simp: serve_def serve_stuck_def)
qed

subsection \<open>Rounds\<close>

text \<open>
  What a round may assume of the outside: the hosts-info file is well formed, no request overruns a
  buffer, and \<open>accept\<close> returns a socket that is not open with a descriptor that is not in use and
  that an \<open>fd_set\<close> can hold.  That its reads and writes end is not assumed.
\<close>

definition accept_fresh :: "round_input \<Rightarrow> server \<Rightarrow> bool" where
  "accept_fresh i s = (case ri_accept i of
     None \<Rightarrow> True
   | Some (sk, fd, ad) \<Rightarrow> sk \<notin> set (fdList s) \<and> legal_fd fd \<and> fd \<noteq> listener s \<and>
       fd \<notin> skt s ` set (fdList s) \<and> request_ok ad (ri_buf i) (ri_read2 i))"

definition woken :: "round_input \<Rightarrow> server \<Rightarrow> server" where
  "woken i s = s\<lparr>smaskst := snd (Smaskwait (ri_select i) (smaskst s))\<rparr>"

definition round_ok :: "round_input \<Rightarrow> server \<Rightarrow> bool" where
  "round_ok i s \<longleftrightarrow> file_ok (ri_env i) \<and> file_ok (ri_env2 i) \<and>
     list_all (\<lambda>sk. request_ok (peer s sk) (ri_buf i) (ri_read i sk)) (fdList s) \<and>
     (case serve_ready i (woken i s) of None \<Rightarrow> True | Some s1 \<Rightarrow> accept_fresh i s1)"

definition ready_stuck :: "round_input \<Rightarrow> server \<Rightarrow> bool" where
  "ready_stuck i s = (case find_ready s (fdList s) of
     Some (Some sk) \<Rightarrow> serve_stuck (ri_env i) (ri_read i sk) (ri_sends i) sk s
   | _ \<Rightarrow> False)"

definition accept_stuck :: "round_input \<Rightarrow> server \<Rightarrow> bool" where
  "accept_stuck i s = (case ri_accept i of
     None \<Rightarrow> False
   | Some (sk, fd, ad) \<Rightarrow> (case addFd sk (s\<lparr>skt := (skt s)(sk := fd), peer := (peer s)(sk := ad)\<rparr>) of
         None \<Rightarrow> False
       | Some s1 \<Rightarrow> serve_stuck (ri_env2 i) (ri_read2 i) (ri_sends2 i) sk s1))"

definition round_stuck :: "round_input \<Rightarrow> server \<Rightarrow> bool" where
  \<comment> \<open>the ready client that is served, or the one that has just been accepted, holds the server up\<close>
  "round_stuck i s \<longleftrightarrow> 0 < fst (Smaskwait (ri_select i) (smaskst s)) \<and>
     (ready_stuck i (woken i s) \<or> (case serve_ready i (woken i s) of
        None \<Rightarrow> False
      | Some s1 \<Rightarrow> listener s1 \<in> rmask (smaskst s1) \<and> accept_stuck i s1))"

lemma woken_ok:
  assumes "sinv s"
  shows "sinv (woken i s)"
proof -
  have "maskfds (snd (Smaskwait (ri_select i) (smaskst s))) = maskfds (smaskst s)"
    by (simp add: Smaskwait_def split: prod.split)
  moreover have "smask_inv (smaskst s)" using assms by (simp add: sinv_def wm.watches_def)
  then have "smask_inv (snd (Smaskwait (ri_select i) (smaskst s)))" by (rule smask_inv_ops(8))
  ultimately show ?thesis using assms by (simp add: sinv_def woken_def wm.watches_def)
qed

lemma woken_simps [simp]:
  "fdList (woken i s) = fdList s" "peer (woken i s) = peer s" "skt (woken i s) = skt s"
  "listener (woken i s) = listener s" "sw (woken i s) = sw s"
  by (simp_all add: woken_def)

lemma find_ready_ok:
  assumes "\<forall>sk\<in>set sks. legal_fd (skt s sk)"
  shows "\<exists>r. find_ready s sks = Some r \<and> (\<forall>sk. r = Some sk \<longrightarrow> sk \<in> set sks \<and> skt s sk \<in> rmask (smaskst s))"
  using assms by (induction sks) (auto simp: Smaskisset_def)

lemma find_ready_some:
  assumes "sinv s"
  obtains "find_ready s (fdList s) = Some None"
  | sk where "find_ready s (fdList s) = Some (Some sk)" and "sk \<in> set (fdList s)"
proof -
  have "\<forall>sk\<in>set (fdList s). legal_fd (skt s sk)" using assms by (simp add: sinv_def wm.watches_def)
  then obtain r where r: "find_ready s (fdList s) = Some r" "\<forall>sk. r = Some sk \<longrightarrow> sk \<in> set (fdList s)"
    using find_ready_ok by meson
  then show thesis using that by (cases r) auto
qed

lemma serve_ready_ok:
  assumes s: "sinv s" and f: "file_ok (ri_env i)"
    and r: "list_all (\<lambda>sk. request_ok (peer s sk) (ri_buf i) (ri_read i sk)) (fdList s)"
  shows "serve_ready i s = None \<longleftrightarrow> ready_stuck i s"
    and "serve_ready i s = Some s' \<Longrightarrow> sinv s' \<and> skt s' = skt s \<and> listener s' = listener s \<and>
      rmask (smaskst s') = rmask (smaskst s)"
proof -
  have q: "sk \<in> set (fdList s) \<Longrightarrow> request_ok (peer s sk) (ri_buf i) (ri_read i sk)" for sk
    using r by (simp add: list_all_iff)
  show "serve_ready i s = None \<longleftrightarrow> ready_stuck i s"
    by (rule find_ready_some [OF s]) (use serve_returns [OF s _ f q] in \<open>auto simp: serve_ready_def ready_stuck_def\<close>)
  show "serve_ready i s = Some s' \<Longrightarrow> sinv s' \<and> skt s' = skt s \<and> listener s' = listener s \<and>
      rmask (smaskst s') = rmask (smaskst s)"
    by (rule find_ready_some [OF s]) (use s serve_ok [OF s _ f q] in \<open>auto simp: serve_ready_def req_frame_def\<close>)
qed

lemma accept_round_ok:
  assumes s: "sinv s" and f: "file_ok (ri_env2 i)" and a: "accept_fresh i s"
  shows "accept_round i s = None \<longleftrightarrow> accept_stuck i s"
    and "accept_round i s = Some s' \<Longrightarrow> sinv s' \<and> listener s' = listener s"
proof -
  have "(accept_round i s = None \<longleftrightarrow> accept_stuck i s) \<and>
      (accept_round i s = Some s' \<longrightarrow> sinv s' \<and> listener s' = listener s)"
  proof (cases "ri_accept i")
    case None
    with s show ?thesis by (auto simp: accept_round_def accept_stuck_def)
  next
    case (Some x)
    obtain sk fd ad where x: "x = (sk, fd, ad)" by (cases x)
    with a Some have fr: "sk \<notin> set (fdList s)" "legal_fd fd" "fd \<noteq> listener s" "fd \<notin> skt s ` set (fdList s)"
      and ok: "request_ok ad (ri_buf i) (ri_read2 i)" by (simp_all add: accept_fresh_def)
    obtain s1 where s1: "addFd sk (s\<lparr>skt := (skt s)(sk := fd), peer := (peer s)(sk := ad)\<rparr>) = Some s1"
      "sinv s1" "sk \<in> set (fdList s1)" "peer s1 sk = ad"
      using addFd_ok [OF s fr, of ad] by blast
    have l: "listener s1 = listener s" using s1(1) by (auto simp: addFd_def)
    have "request_ok (peer s1 sk) (ri_buf i) (ri_read2 i)" using s1(4) ok by simp
    from serve_returns [OF s1(2,3) f this] serve_ok [OF s1(2,3) f this, of _ s'] show ?thesis
      using s1(1) Some x l by (auto simp: accept_round_def accept_stuck_def req_frame_def)
  qed
  then show "accept_round i s = None \<longleftrightarrow> accept_stuck i s"
    and "accept_round i s = Some s' \<Longrightarrow> sinv s' \<and> listener s' = listener s" by blast+
qed

lemma server_round_eq:
  "server_round i s = (if 0 < fst (Smaskwait (ri_select i) (smaskst s)) then do {
        s1 \<leftarrow> serve_ready i (woken i s);
        ready \<leftarrow> Smaskisset (listener s1) (smaskst s1);
        if ready then accept_round i s1 else Some s1 }
      else Some (woken i s))"
  by (simp add: server_round_def woken_def Let_def split_beta)

lemma server_round_ok:
  assumes s: "sinv s" and ok: "round_ok i s"
  shows "server_round i s = None \<longleftrightarrow> round_stuck i s"
    and "server_round i s = Some s' \<Longrightarrow> sinv s' \<and> listener s' = listener s"
proof -
  note w = woken_ok [OF s, of i]
  have f: "file_ok (ri_env i)" "file_ok (ri_env2 i)"
    and l: "list_all (\<lambda>sk. request_ok (peer (woken i s) sk) (ri_buf i) (ri_read i sk)) (fdList (woken i s))"
    using ok by (simp_all add: round_ok_def)
  note r = serve_ready_ok [OF w f(1) l]
  have "(server_round i s = None \<longleftrightarrow> round_stuck i s) \<and>
      (server_round i s = Some s' \<longrightarrow> sinv s' \<and> listener s' = listener s)"
  proof (cases "0 < fst (Smaskwait (ri_select i) (smaskst s))")
    case False
    with w show ?thesis by (auto simp: server_round_eq round_stuck_def)
  next
    case True
    show ?thesis
    proof (cases "serve_ready i (woken i s)")
      case None
      with True r(1) show ?thesis by (auto simp: server_round_eq round_stuck_def)
    next
      case (Some s1)
      note s1 = r(2) [OF Some]
      have fr: "accept_fresh i s1" using ok Some by (simp add: round_ok_def)
      have leg: "legal_fd (listener s1)" using conjunct1 [OF s1] by (simp add: sinv_def wm.watches_def)
      have ns: "\<not> ready_stuck i (woken i s)" using r(1) Some by auto
      have "sinv s1" using s1 by blast
      from accept_round_ok [OF this f(2) fr] True Some leg ns s1 show ?thesis
        by (auto simp: server_round_eq round_stuck_def Smaskisset_def)
    qed
  qed
  then show "server_round i s = None \<longleftrightarrow> round_stuck i s"
    and "server_round i s = Some s' \<Longrightarrow> sinv s' \<and> listener s' = listener s" by blast+
qed

text \<open>A client that connects and sends no whole string stops the server.\<close>

lemma silent_client_stops:
  assumes s: "sinv s" and ok: "round_ok i s" and sel: "0 < fst (Smaskwait (ri_select i) (smaskst s))"
    and l: "listener s \<in> rmask (smaskst (woken i s))" and a: "ri_accept i = Some c" and st: "stalls (ri_read2 i)"
  shows "server_round i s = None"
proof (cases "serve_ready i (woken i s)")
  case None
  with sel show ?thesis by (simp add: server_round_eq)
next
  case (Some s1)
  have s1: "sinv s1" "listener s1 = listener s" "rmask (smaskst s1) = rmask (smaskst (woken i s))"
    using serve_ready_ok(2) [OF woken_ok [OF s] _ _ Some] ok by (simp_all add: round_ok_def)
  obtain sk fd ad where c: "c = (sk, fd, ad)" by (cases c)
  have n: "accept_round i s1 = None" using a c st
    by (cases "addFd sk (s1\<lparr>skt := (skt s1)(sk := fd), peer := (peer s1)(sk := ad)\<rparr>)")
      (simp_all add: accept_round_def serve_stops)
  have "legal_fd (listener s1)" using s1(1) by (simp add: sinv_def wm.watches_def)
  with n Some s1 sel l show ?thesis by (simp add: server_round_eq Smaskisset_def)
qed

subsection \<open>Reachable states\<close>

inductive server_step :: "server \<Rightarrow> server \<Rightarrow> bool" where
  round: "round_ok i s \<Longrightarrow> server_round i s = Some s' \<Longrightarrow> server_step s s'"
| sweep: "doSilentSearch t s = Some s' \<Longrightarrow> server_step s s'"
| stats: "updateStats s = (r, s') \<Longrightarrow> server_step s s'"

inductive reachable :: "server \<Rightarrow> bool" where
  start: "server_start fd = Some s \<Longrightarrow> reachable s"
| step: "reachable s \<Longrightarrow> server_step s s' \<Longrightarrow> reachable s'"

inductive_cases server_stepE: "server_step s s'"

lemma winv_new: "winv DmucsDb_new"
  by (simp add: winv_def DmucsDb_new_def)

lemma sinv_start:
  assumes "server_start fd = Some s"
  shows "sinv s"
proof -
  have leg: "legal_fd fd"
    using assms by (simp add: server_start_def Smaskset_def split: if_splits)
  obtain m where m: "Smaskset (Some fd) smask_init = Some m" "smask_inv m" "maskfds m = {fd}"
    using wm.add_ok [OF smask_inv_init leg] by (auto simp: smask_init_def)
  have "wm.watches fd (\<lambda>_. 0) ([] :: sock list) m"
    using leg m(2,3) by (simp add: wm.watches_def)
  with assms m(1) show ?thesis
    by (auto simp: server_start_def sinv_def winv_new inst_ok_def)
qed

lemma sweep_ok:
  "sinv s \<Longrightarrow> \<exists>s'. doSilentSearch t s = Some s' \<and> sinv s'"
  using handleSilentHosts_ok [of "sw s" t] by (auto simp: doSilentSearch_def sinv_def)

lemma stats_ok: "sinv s \<Longrightarrow> sinv (snd (updateStats s))"
  using getStats_ok [of "sw s"] by (simp add: updateStats_def sinv_def split_beta)

lemma sinv_step:
  assumes "sinv s" and "server_step s s'"
  shows "sinv s'"
  using assms(2)
proof (cases rule: server_step.cases)
  case (round i)
  with server_round_ok(2) [OF assms(1)] show ?thesis by blast
next
  case (sweep t)
  with sweep_ok [OF assms(1), of t] show ?thesis by auto
next
  case (stats r)
  with stats_ok [OF assms(1)] show ?thesis by auto
qed

lemma reachable_sinv: "reachable s \<Longrightarrow> sinv s"
  by (induction rule: reachable.induct) (auto intro: sinv_start sinv_step)

lemma first_load_report_is_dropped:
  assumes "DmucsDb_getHost a d w = Inl x"
  shows "load_report e a l1 l5 l10 d w inst = map_option snd (createHost e a d w inst)"
proof (cases "createHost e a d w inst")
  case None
  with assms show ?thesis by (simp add: load_report_def)
next
  case (Some r)
  then have "fst r = None" by (auto simp: createHost_def bind_eq_Some_conv split: prod.splits)
  with Some assms show ?thesis by (cases r) (simp add: load_report_def)
qed

end
