(* ===== verification/Dmucs_Held.thy ===== *)
theory Dmucs_Held
  imports Dmucs_Server_Inv
begin

text \<open>
  Who holds a cpu, and how long: an assignment is touched only by a request of the socket that holds
  it.  So a cpu stays with its client while the server serves others; and a client whose socket is closed
  for another reason than the end of its stream keeps its cpu for good, for nobody returns it.
\<close>

definition holds :: "sock \<Rightarrow> dprop \<Rightarrow> ip \<Rightarrow> world \<Rightarrow> bool" where
  "holds sk d x w = (map_find sk (sock2DpropDb w) = Some d \<and>
     (case map_find d (dbDb w) of None \<Rightarrow> False | Some db \<Rightarrow> map_find sk (assignedCpus db) = Some x))"

subsection \<open>Operations on the databases\<close>

lemma holds_quiet: "quiet w w' \<Longrightarrow> holds sk d x w \<Longrightarrow> holds sk d x w'"
  by (fastforce simp: holds_def quiet_def same_rest_def split: option.splits)

lemma holds_resolve [simp]: "holds sk d x (resolve_name e p w) = holds sk d x w"
  by (simp add: holds_def)

lemma holds_added:
  assumes "host_added a d' n pix w w'" and "holds sk d x w"
  shows "holds sk d x w'"
proof (cases "d' = d")
  case True
  then show ?thesis
    using assms by (auto simp: holds_def host_added_def db_of_def split: option.splits)
      (auto simp: DpropDb_new_def)
next
  case False
  then show ?thesis using assms by (auto simp: holds_def host_added_def)
qed

lemma holds_take:
  assumes w: "winv w" and t: "take_cpu e d' sk' w = Some (c, w')" and "sk' \<noteq> sk" and h: "holds sk d x w"
  shows "holds sk d x w'"
  using getBest_world [OF w, of "rnd e" d']
proof (elim disjE exE conjE)
  assume "DmucsDb_getBestAvailCpu (rnd e) d' w = (Inr 0, w)" "map_find d' (dbDb w) = None"
  then show ?thesis using t h by (simp add: take_cpu_def DmucsDb_getHost_def)
next
  fix db assume "DmucsDb_getBestAvailCpu (rnd e) d' w = (Inl DmucsNoMoreHosts, w)"
  then show ?thesis using t h by (simp add: take_cpu_def)
next
  fix db db' y
  assume db: "map_find d' (dbDb w) = Some db" and g: "DpropDb_getBestAvailCpu (rnd e) db = (Inr y, db')"
    and gw: "DmucsDb_getBestAvailCpu (rnd e) d' w = (Inr y, put_db d' db' w)"
  have inv: "dinv {} (hosts w) (nexthost w) d' db" by (rule winv_D(3) [OF w db])
  have inv': "dinv {} (hosts w) (nexthost w) d' db'" and r: "same_rest db db'"
    by (rule getBest_db [OF inv g]; assumption)+
  have a: "assignedCpus db' = assignedCpus db" using r by (simp add: same_rest_def)
  have h1: "holds sk d x (put_db d' db' w)"
    using h db a by (cases "d' = d") (auto simp: holds_def put_db_find put_db_find_other)
  show ?thesis
  proof (cases "DmucsDb_getHost y d' (put_db d' db' w)")
    case Inl
    then show ?thesis using t gw h1 by (simp add: take_cpu_def)
  next
    case (Inr p)
    have db2: "map_find d' (dbDb (resolve_name e p (put_db d' db' w))) = Some db'" using db by simp
    show ?thesis
      using t gw Inr h1 assms(3) winv_D(2) [OF w] db2 assign_db(2) [OF inv', of sk y sk']
      by (cases "d' = d")
        (auto simp: take_cpu_def DmucsDb_assignCpuToClient_def on_db_def holds_def map_find_update map_find_insert)
  qed
qed

lemma holds_release:
  assumes "DmucsDb_releaseCpu e sk' w = Some w'" and "sk' \<noteq> sk" and "holds sk d x w"
  shows "holds sk d x w'"
proof (cases "map_find sk' (sock2DpropDb w)")
  case None
  then show ?thesis using assms by (simp add: DmucsDb_releaseCpu_def)
next
  case (Some d')
  then obtain db H' db' where db: "map_find d' (dbDb w) = Some db"
    and r: "DpropDb_releaseCpu e sk' (hosts w) db = Some (H', db')"
    and w': "w' = w\<lparr>sock2DpropDb := map_erase sk' (sock2DpropDb w), hosts := H',
      dbDb := map_update d' (\<lambda>_. db') (dbDb w)\<rparr>"
    using assms(1) by (auto simp: DmucsDb_releaseCpu_def bind_eq_Some_conv)
  have "map_find sk (assignedCpus db') = map_find sk (assignedCpus db)"
    using r assms(2)
    by (auto simp: DpropDb_releaseCpu_def Let_def addCpusToTier_def map_find_erase split: option.splits sum.splits if_splits)
  then show ?thesis
    using assms(2,3) db by (cases "d' = d") (auto simp: w' holds_def map_find_erase map_find_update)
qed

lemma holds_stats: "holds sk d x (snd (DmucsDb_getStatsFromDb w)) = holds sk d x w"
  by (simp add: holds_def DmucsDb_getStatsFromDb_def split_beta stats_loop_eq map_find_map_snd DpropDb_getStatsFromDb_def
      split: option.split)

lemma holds_createHost:
  assumes "winv w" and "\<not> DmucsDb_haveHost a d' w" and "file_ok e" and "inst_ok inst"
    and "createHost e a d' w inst = Some (q, w', inst')" and "holds sk d x w"
  shows "holds sk d x w'"
  using createHost_ok [OF assms(1-4)] assms(5,6) holds_added by fastforce

lemma holds_load_report:
  assumes w: "winv w" and f: "file_ok e" "inst_ok inst" and l: "load_report e a l1 l5 l10 d' w inst = Some (w', inst')"
    and h: "holds sk d x w"
  shows "holds sk d x w'"
proof (cases "DmucsDb_getHost a d' w")
  case (Inr p)
  from load_report_known [OF w this, of e l1 l5 l10 inst] l
  obtain w1 where "world_frame p (resolve_name e p w) w1" "world_frame p w1 w'" by (auto simp: reported_def)
  then have "quiet (resolve_name e p w) w'" using quiet_frame quiet_trans by blast
  with h show ?thesis using holds_quiet [of "resolve_name e p w"] by simp
next
  case (Inl y)
  have "\<not> DmucsDb_haveHost a d' w" using getHost_Inl [OF Inl] by simp
  from createHost_ok [OF w this f] holds_createHost [OF w this f _ h] l Inl show ?thesis
    by (auto simp: load_report_def)
qed

lemma holds_status_report:
  assumes w: "winv w" and f: "file_ok e" "inst_ok inst" and l: "status_report e a st d' w inst = Some (w', inst')"
    and h: "holds sk d x w"
  shows "holds sk d x w'"
proof (cases "DmucsDb_getHost a d' w")
  case (Inr p)
  then have k: "knows w p" by (rule getHost_Inr [OF w])
  obtain wa wu where "DmucsHost_avail p w = Some wa" "world_frame p w wa"
    "DmucsHost_unavail p w = Some wu" "world_frame p w wu"
    using event_result_D [OF avail_event [OF w k] w] event_result_D [OF unavail_event [OF w k] w] by metis
  moreover have "DmucsDb_haveHost a d' w" using Inr getHost_haveHost by blast
  ultimately show ?thesis
    using Inr l h by (auto simp: status_report_def dest!: quiet_frame intro: holds_quiet split: if_splits)
next
  case (Inl y)
  have n: "\<not> DmucsDb_haveHost a d' w" using getHost_Inl [OF Inl] by simp
  show ?thesis
    using l Inl n h holds_createHost [OF w n f _ h] by (auto simp: status_report_def split: if_splits)
qed

subsection \<open>Requests\<close>

lemma removeFd_sw: "removeFd sk s = Some s' \<Longrightarrow> sw s' = sw s"
  by (auto simp: removeFd_def)

lemma holds_handleReq:
  assumes s: "sinv s" and f: "file_ok e" and r: "handleReq e sk' req s = Some s'" and n: "sk' \<noteq> sk"
    and h: "holds sk d x (sw s)"
  shows "holds sk d x (sw s')"
proof -
  have w: "winv (sw s)" and i: "inst_ok (sfile s)" using s by (simp_all add: sinv_def)
  show ?thesis
  proof (cases req)
    case None
    then show ?thesis using r h holds_release [OF _ n h] by (auto simp: handleReq_def bind_eq_Some_conv dest!: removeFd_sw)
  next
    case (Some buf)
    show ?thesis
    proof (cases "\<exists>m. parseMsg (peer s sk') buf = Some (Some m)")
      case False
      then show ?thesis using r h Some
        by (auto simp: handleReq_def dest!: removeFd_sw split: option.splits)
    next
      case True
      then obtain m where "msg_handle e m sk' s = Some s'" using r Some by (auto simp: handleReq_def)
      then show ?thesis
        by (cases m) (auto simp: HostReq_handle_def LdAvg_handle_def Status_handle_def MonitorReq_handle_def Sputs_to_def
            bind_eq_Some_conv h dest!: removeFd_sw
            intro: holds_take [OF w _ n h] holds_load_report [OF w f i _ h] holds_status_report [OF w f i _ h])
    qed
  qed
qed

subsection \<open>Rounds\<close>

text \<open>Steps in which the server does not serve a socket, and steps in which it does not accept it.\<close>

inductive unserved :: "sock \<Rightarrow> server \<Rightarrow> server \<Rightarrow> bool" for sk where
  refl: "unserved sk s s"
| round: "unserved sk s s1 \<Longrightarrow> round_ok i s1 \<Longrightarrow> find_ready (woken i s1) (fdList s1) \<noteq> Some (Some sk) \<Longrightarrow>
    map_option fst (ri_accept i) \<noteq> Some sk \<Longrightarrow> server_round i s1 = Some s2 \<Longrightarrow> unserved sk s s2"
| sweep: "unserved sk s s1 \<Longrightarrow> doSilentSearch t s1 = Some s2 \<Longrightarrow> unserved sk s s2"
| stats: "unserved sk s s1 \<Longrightarrow> updateStats s1 = (r, s2) \<Longrightarrow> unserved sk s s2"

inductive unaccepted :: "sock \<Rightarrow> server \<Rightarrow> server \<Rightarrow> bool" for sk where
  refl: "unaccepted sk s s"
| round: "unaccepted sk s s1 \<Longrightarrow> round_ok i s1 \<Longrightarrow>
    map_option fst (ri_accept i) \<noteq> Some sk \<Longrightarrow> server_round i s1 = Some s2 \<Longrightarrow> unaccepted sk s s2"
| sweep: "unaccepted sk s s1 \<Longrightarrow> doSilentSearch t s1 = Some s2 \<Longrightarrow> unaccepted sk s s2"
| stats: "unaccepted sk s s1 \<Longrightarrow> updateStats s1 = (r, s2) \<Longrightarrow> unaccepted sk s s2"

lemma serve_ready_cases:
  assumes "serve_ready i s = Some s'"
  obtains "find_ready s (fdList s) = Some None" and "s' = s"
  | sk req where "find_ready s (fdList s) = Some (Some sk)" and "handleReq (ri_env i) sk req s = Some s'"
    and "read_request (ri_buf i) (ri_read i sk) = Some req"
proof -
  obtain r where r: "find_ready s (fdList s) = Some r"
    "(case r of None \<Rightarrow> Some s | Some sk \<Rightarrow> serve (ri_env i) (ri_buf i) (ri_read i sk) (ri_sends i) sk s) = Some s'"
    using assms by (auto simp: serve_ready_def bind_eq_Some_conv)
  show thesis
  proof (cases r)
    case None
    show thesis by (rule that(1)) (use r None in simp_all)
  next
    case (Some sk)
    then have "serve (ri_env i) (ri_buf i) (ri_read i sk) (ri_sends i) sk s = Some s'" using r by simp
    then show thesis by (rule serve_cases) (rule that(2) [of sk], use r Some in simp_all)
  qed
qed

lemma accept_round_cases:
  assumes "accept_round i s = Some s'"
  obtains "ri_accept i = None" and "s' = s"
  | sk fd ad s1 req where "ri_accept i = Some (sk, fd, ad)"
    and "addFd sk (s\<lparr>skt := (skt s)(sk := fd), peer := (peer s)(sk := ad)\<rparr>) = Some s1"
    and "handleReq (ri_env2 i) sk req s1 = Some s'" and "read_request (ri_buf i) (ri_read2 i) = Some req"
  using assms by (auto simp: accept_round_def bind_eq_Some_conv split: option.splits elim!: serve_cases)

lemma server_round_cases:
  assumes s: "sinv s" and ok: "round_ok i s" and r: "server_round i s = Some s'"
  obtains "s' = woken i s"
  | s1 where "serve_ready i (woken i s) = Some s1" and "sinv s1" and "s' = s1 \<or> accept_round i s1 = Some s'"
    and "file_ok (ri_env i)" and "file_ok (ri_env2 i)" and "accept_fresh i s1"
    and "list_all (\<lambda>sk. request_ok (peer (woken i s) sk) (ri_buf i) (ri_read i sk)) (fdList (woken i s))"
proof (cases "0 < fst (Smaskwait (ri_select i) (smaskst s))")
  case True
  with r obtain s1 where s1: "serve_ready i (woken i s) = Some s1" and e: "s' = s1 \<or> accept_round i s1 = Some s'"
    by (auto simp: server_round_eq bind_eq_Some_conv split: if_splits)
  have f: "file_ok (ri_env i)" "file_ok (ri_env2 i)" "accept_fresh i s1"
    and l: "list_all (\<lambda>sk. request_ok (peer (woken i s) sk) (ri_buf i) (ri_read i sk)) (fdList (woken i s))"
    using ok s1 by (simp_all add: round_ok_def)
  have "sinv s1" using serve_ready_ok(2) [OF woken_ok [OF s] f(1) l s1] by blast
  with s1 e f l that(2) show thesis by blast
next
  case False
  with r that(1) show thesis by (simp add: server_round_eq)
qed

lemma holds_serve:
  assumes "sinv s" and "file_ok (ri_env i)" and "serve_ready i s = Some s'"
    and "find_ready s (fdList s) \<noteq> Some (Some sk)" and "holds sk d x (sw s)"
  shows "holds sk d x (sw s')"
  using assms(3)
proof (cases rule: serve_ready_cases)
  case (2 sk' req)
  with assms(4) have "sk' \<noteq> sk" by auto
  from holds_handleReq [OF assms(1,2) 2(2) this assms(5)] show ?thesis .
qed (use assms(5) in simp)

lemma holds_accept:
  assumes "sinv s" and "file_ok (ri_env2 i)" and "accept_fresh i s" and "accept_round i s = Some s'"
    and "map_option fst (ri_accept i) \<noteq> Some sk" and "holds sk d x (sw s)"
  shows "holds sk d x (sw s')"
  using assms(4)
proof (cases rule: accept_round_cases)
  case (2 sk' fd ad s1 req)
  have "sinv s1" using addFd_ok [OF assms(1), of sk' fd ad] assms(3) 2(1,2) by (auto simp: accept_fresh_def)
  moreover have "sw s1 = sw s" using 2(2) by (auto simp: addFd_def)
  moreover have "sk' \<noteq> sk" using assms(5) 2(1) by auto
  ultimately show ?thesis using holds_handleReq [OF _ assms(2) 2(3)] assms(6) by simp
qed (use assms(6) in simp)

lemma holds_round:
  assumes s: "sinv s" and ok: "round_ok i s" and r: "server_round i s = Some s'"
    and n: "find_ready (woken i s) (fdList s) \<noteq> Some (Some sk)" and a: "map_option fst (ri_accept i) \<noteq> Some sk"
    and h: "holds sk d x (sw s)"
  shows "holds sk d x (sw s')"
  using s ok r
proof (cases rule: server_round_cases)
  case (2 s1)
  have "holds sk d x (sw s1)" using holds_serve [OF woken_ok [OF s] 2(4,1)] n h by simp
  with 2(3) holds_accept [OF 2(2,5,6) _ a] show ?thesis by blast
qed (use h in simp)

lemma sinv_unserved: "unserved sk s s' \<Longrightarrow> sinv s \<Longrightarrow> sinv s'"
  by (induction rule: unserved.induct) (auto intro: sinv_step server_step.intros)

lemma holds_sweep: "winv (sw s) \<Longrightarrow> doSilentSearch t s = Some s' \<Longrightarrow> holds sk d x (sw s) \<Longrightarrow> holds sk d x (sw s')"
  using handleSilentHosts_ok [of "sw s" t] by (auto simp: doSilentSearch_def intro: holds_quiet)

lemma holds_updateStats: "updateStats s = (r, s') \<Longrightarrow> holds sk d x (sw s') = holds sk d x (sw s)"
  using holds_stats [of sk d x "sw s"] by (auto simp: updateStats_def split_beta)

lemma holds_unserved:
  assumes "unserved sk s s'" and "sinv s" and "holds sk d x (sw s)"
  shows "holds sk d x (sw s')"
  using assms
proof (induction rule: unserved.induct)
  case (round s s1 i s2)
  with sinv_unserved [OF round.hyps(1)] show ?case by (blast intro: holds_round)
next
  case (sweep s s1 t s2)
  with sinv_unserved [OF sweep.hyps(1)] show ?case by (auto simp: sinv_def intro: holds_sweep)
qed (simp_all add: holds_updateStats)

subsection \<open>A socket that is gone\<close>

lemma find_ready_in: "find_ready s sks = Some (Some sk) \<Longrightarrow> sk \<in> set sks"
  by (induction sks) (auto split: option.splits if_splits)

lemma fdList_request:
  assumes "sinv s" and "sk' \<in> set (fdList s)" and "file_ok e" and "req_ok (peer s sk') req"
    and "handleReq e sk' req s = Some s'"
  shows "set (fdList s') \<subseteq> set (fdList s)"
  using handleReq_ok [OF assms(1-4)] assms(5) by (auto simp: req_frame_def)

lemma fdList_serve:
  assumes s: "sinv s" and f: "file_ok (ri_env i)" and l: "list_all (\<lambda>sk. request_ok (peer s sk) (ri_buf i) (ri_read i sk)) (fdList s)"
    and r: "serve_ready i s = Some s'"
  shows "set (fdList s') \<subseteq> set (fdList s)"
  using r
proof (cases rule: serve_ready_cases)
  case (2 sk req)
  have "sk \<in> set (fdList s)" by (rule find_ready_in [OF 2(1)])
  moreover from this have "request_ok (peer s sk) (ri_buf i) (ri_read i sk)" using l by (simp add: list_all_iff)
  then have "req_ok (peer s sk) req" using 2(3) by (simp add: request_ok_def)
  ultimately show ?thesis using fdList_request [OF s _ f _ 2(2)] by simp
qed simp

lemma fdList_accept:
  assumes s: "sinv s" and f: "file_ok (ri_env2 i)" and a: "accept_fresh i s" and r: "accept_round i s = Some s'"
  shows "set (fdList s') \<subseteq> set (fdList s) \<union> set_option (map_option fst (ri_accept i))"
  using r
proof (cases rule: accept_round_cases)
  case (2 sk fd ad s1 req)
  have "sinv s1" "sk \<in> set (fdList s1)" "peer s1 sk = ad" "req_ok ad req"
    using addFd_ok [OF s, of sk fd ad] a 2(1,2,4) by (auto simp: accept_fresh_def request_ok_def)
  with fdList_request [of s1 sk, OF _ _ f _ 2(3)] have "set (fdList s') \<subseteq> set (fdList s1)" by simp
  moreover have "set (fdList s1) = insert sk (set (fdList s))" using 2(2) by (auto simp: addFd_def)
  ultimately show ?thesis using 2(1) by auto
qed simp

lemma fdList_round:
  assumes s: "sinv s" and ok: "round_ok i s" and r: "server_round i s = Some s'"
  shows "set (fdList s') \<subseteq> set (fdList s) \<union> set_option (map_option fst (ri_accept i))"
  using s ok r
proof (cases rule: server_round_cases)
  case (2 s1)
  have "set (fdList s1) \<subseteq> set (fdList s)" using fdList_serve [OF woken_ok [OF s] 2(4,7,1)] by simp
  with 2(3) fdList_accept [OF 2(2,5,6)] show ?thesis by fast
qed simp

lemma unaccepted_unserved:
  assumes "unaccepted sk s s'" and "sinv s" and "sk \<notin> set (fdList s)"
  shows "unserved sk s s' \<and> sk \<notin> set (fdList s')"
  using assms
proof (induction rule: unaccepted.induct)
  case (round s s1 i s2)
  then have u: "unserved sk s s1" "sk \<notin> set (fdList s1)" by blast+
  have "sinv s1" by (rule sinv_unserved [OF u(1) round.prems(1)])
  from fdList_round [OF this round.hyps(2,4)] u(2) round.hyps(3) have "sk \<notin> set (fdList s2)" by auto
  moreover have "find_ready (woken i s1) (fdList s1) \<noteq> Some (Some sk)" using find_ready_in u(2) by blast
  ultimately show ?case using unserved.round [OF u(1) round.hyps(2) _ round.hyps(3,4)] by blast
next
  case (sweep s s1 t s2)
  then show ?case using unserved.sweep [OF _ sweep.hyps(2)] by (auto simp: doSilentSearch_def)
next
  case (stats s s1 r s2)
  then show ?case using unserved.stats [OF _ stats.hyps(2)] by (auto simp: updateStats_def split_beta)
qed (simp add: unserved.refl)

text \<open>Any message but a host request closes the socket and leaves its cpu assigned.\<close>

lemma message_keeps_cpu:
  assumes s: "sinv s" and sk: "sk \<in> set (fdList s)" and f: "file_ok e"
    and m: "parseMsg (peer s sk) buf = Some mo" "\<And>cl d'. mo \<noteq> Some (HostReqMsg cl d')"
    and r: "handleReq e sk (Some buf) s = Some s'" and h: "holds sk d x (sw s)"
  shows "sinv s' \<and> sk \<notin> set (fdList s') \<and> holds sk d x (sw s')"
proof -
  have w: "winv (sw s)" and i: "inst_ok (sfile s)" using s by (simp_all add: sinv_def)
  have "sinv s'" using handleReq_ok [OF s sk f, of "Some buf"] r m(1) by (auto simp: req_ok_def)
  moreover have "sk \<notin> set (fdList s') \<and> holds sk d x (sw s')"
  proof (cases mo)
    case None
    then show ?thesis using r m h by (auto simp: handleReq_def removeFd_def)
  next
    case (Some msg)
    then have "msg_handle e msg sk s = Some s'" using r m(1) by (simp add: handleReq_def)
    moreover have "sw s1 = sw s0 \<and> sk \<notin> set (fdList s1)" if "removeFd sk s0 = Some s1" for s0 s1
      using that by (auto simp: removeFd_def)
    ultimately show ?thesis using m(2) Some
      by (cases msg; simp) (auto simp: LdAvg_handle_def Status_handle_def MonitorReq_handle_def Sputs_to_def
          bind_eq_Some_conv h
          intro: holds_load_report [OF w f i _ h] holds_status_report [OF w f i _ h])
  qed
  ultimately show ?thesis by blast
qed

end
