(* ===== verification/C_Text_Lemmas.thy ===== *)
theory C_Text_Lemmas
  imports C_Text
begin

text \<open>
  Round trips of the text functions: decimal numbers, dotted addresses, and what the
  \<open>sscanf\<close> directives make of the text they are printed as.
\<close>

subsection \<open>Digits\<close>

lemma digit_char_code: "0 \<le> d \<Longrightarrow> d < 10 \<Longrightarrow> (of_char (digit_char d) :: int) = 48 + d"
  by (simp add: digit_char_def of_char_of)

lemma digit_char_props [simp]:
  assumes "0 \<le> d" "d < 10"
  shows "c_isdigit (digit_char d)" and "digit_val (digit_char d) = d" and "\<not> c_isspace (digit_char d)"
    and "digit_char d \<noteq> CHR ''-''" and "digit_char d \<noteq> CHR ''+''"
proof -
  note c = digit_char_code [OF assms]
  show "c_isdigit (digit_char d)" "digit_val (digit_char d) = d"
    using assms c by (simp_all add: c_isdigit_def digit_val_def)
  show "digit_char d \<noteq> CHR ''-''" "digit_char d \<noteq> CHR ''+''"
    using assms c by auto
  show "\<not> c_isspace (digit_char d)"
    using assms c by (auto simp: c_isspace_def)
qed

lemma c_isdigit_not_space: "c_isdigit c \<Longrightarrow> \<not> c_isspace c"
  by (auto simp: c_isdigit_def c_isspace_def)

lemma digits_val_append: "digits_val a (xs @ ys) = digits_val (digits_val a xs) ys"
  by (induction a xs rule: digits_val.induct) auto

lemma digits10_nonempty [simp]: "digits10 n \<noteq> []"
  by (subst digits10.simps) simp

lemma digits10_digits:
  "0 \<le> n \<Longrightarrow> list_all c_isdigit (digits10 n)"
proof (induction n rule: digits10.induct)
  case (1 n)
  then show ?case
    by (subst digits10.simps) (auto simp del: digit_char_props(4,5))
qed

lemma digits_val_digits10: "0 \<le> n \<Longrightarrow> digits_val 0 (digits10 n) = n"
proof (induction n rule: digits10.induct)
  case (1 n)
  show ?case
  proof (cases "n < 10")
    case True
    with 1 show ?thesis by (subst digits10.simps) simp
  next
    case False
    with 1 have "digits_val 0 (digits10 (n div 10)) = n div 10" by simp
    with False 1 show ?thesis
      by (subst digits10.simps) (simp add: digits_val_append)
  qed
qed

text \<open>A decimal number has no leading zero.\<close>

lemma digits10_hd: "0 < n \<Longrightarrow> hd (digits10 n) \<noteq> CHR ''0''"
proof (induction n rule: digits10.induct)
  case (1 n)
  show ?case
  proof (cases "n < 10")
    case True
    have "(of_char (digit_char n) :: int) \<noteq> of_char CHR ''0''"
      using digit_char_code [of n] True 1 by simp
    then have "digit_char n \<noteq> CHR ''0''" by auto
    with True show ?thesis by (subst digits10.simps) simp
  next
    case False
    with 1 have "hd (digits10 (n div 10)) \<noteq> CHR ''0''" by simp
    with False show ?thesis by (subst digits10.simps) simp
  qed
qed

lemma digits10_0: "digits10 0 = ''0''"
  by code_simp

lemma digits10_length_le: "0 \<le> n \<Longrightarrow> n < 10 ^ k \<Longrightarrow> 0 < k \<Longrightarrow> length (digits10 n) \<le> k"
proof (induction k arbitrary: n)
  case (Suc k)
  show ?case
  proof (cases "n < 10")
    case True
    then show ?thesis by (subst digits10.simps) simp
  next
    case False
    then have "0 < k" using Suc.prems by (cases k) auto
    then have "length (digits10 (n div 10)) \<le> k" using Suc by (intro Suc.IH) auto
    with False show ?thesis by (subst digits10.simps) simp
  qed
qed simp

lemma string_of_int_chars: "c \<in> set (string_of_int n) \<Longrightarrow> c_isdigit c \<or> c = CHR ''-''"
  using digits10_digits [of n] digits10_digits [of "- n"]
  by (auto simp: string_of_int_def list_all_iff split: if_splits)

subsection \<open>Reading a number back\<close>

lemma takeWhile_digits:
  assumes "list_all P xs" and "r = [] \<or> \<not> P (hd r)"
  shows "takeWhile P (xs @ r) = xs" and "dropWhile P (xs @ r) = r"
proof -
  have "takeWhile P r = []" "dropWhile P r = r" using assms(2) by (cases r; simp)+
  with assms(1) show "takeWhile P (xs @ r) = xs" "dropWhile P (xs @ r) = r"
    by (simp_all add: list_all_iff takeWhile_append2 dropWhile_append2)
qed

lemma hd_digits10: "0 \<le> n \<Longrightarrow> c_isdigit (hd (digits10 n @ r))"
  using digits10_digits [of n] by (cases "digits10 n") auto

lemma scan_int_digits:
  assumes n: "0 \<le> n" "n < 2 ^ 31" and r: "r = [] \<or> \<not> c_isdigit (hd r)"
  shows "scan_int (digits10 n @ r) = Some (n, r)"
proof -
  note h = hd_digits10 [OF n(1), of r]
  obtain c cs where c: "digits10 n @ r = c # cs" by (cases "digits10 n @ r") auto
  have "c_isdigit c" using h c by simp
  then have "skip_ws (digits10 n @ r) = digits10 n @ r"
    using c c_isdigit_not_space by (simp add: skip_ws_def)
  moreover have "split_sign (digits10 n @ r) = (False, digits10 n @ r)"
    using \<open>c_isdigit c\<close> c by (auto simp: split_sign_def c_isdigit_def)
  moreover have "to_int32 n = n" using n by (simp add: to_int32_def)
  ultimately show ?thesis
    using takeWhile_digits [OF digits10_digits [OF n(1)] r] digits_val_digits10 [OF n(1)]
    by (simp add: scan_int_def)
qed

lemma scan_int_string_of_int:
  assumes n: "- (2 ^ 31) \<le> n" "n < 2 ^ 31" and r: "r = [] \<or> \<not> c_isdigit (hd r)"
  shows "scan_int (string_of_int n @ r) = Some (n, r)"
proof (cases "0 \<le> n")
  case True
  with assms show ?thesis using scan_int_digits [of n r] by (simp add: string_of_int_def)
next
  case False
  then have m: "0 \<le> - n" by simp
  have "skip_ws (CHR ''-'' # digits10 (- n) @ r) = CHR ''-'' # digits10 (- n) @ r"
    by (simp add: skip_ws_def c_isspace_def)
  moreover have "to_int32 n = n" using n by (simp add: to_int32_def)
  ultimately show ?thesis
    using False takeWhile_digits [OF digits10_digits [OF m] r] digits_val_digits10 [OF m]
    by (simp add: scan_int_def string_of_int_def split_sign_def)
qed

lemma atoi_string_of_int:
  assumes "- (2 ^ 31) \<le> n" and "n < 2 ^ 31"
  shows "atoi (string_of_int n) = n"
  using scan_int_string_of_int [OF assms, of "[]"] by (simp add: atoi_def)

subsection \<open>Dotted addresses\<close>

lemma strtoul0_digits:
  assumes n: "0 \<le> n" and r: "r = [] \<or> hd r = CHR ''.''"
  shows "strtoul0 (digits10 n @ r) = (n, r)"
proof -
  have nd: "r = [] \<or> \<not> c_isdigit (hd r)" using r by (auto simp: c_isdigit_def)
  have no: "r = [] \<or> \<not> is_octal (hd r)" using nd by (auto simp: is_octal_def)
  have notx: "\<not> strprefix ''0x'' (map lower (take 2 (digits10 n @ r)))"
  proof
    assume a: "strprefix ''0x'' (map lower (take 2 (digits10 n @ r)))"
    then have l: "map lower (take 2 (digits10 n @ r)) = ''0x''"
      by (simp add: strprefix_def)
    then obtain c d rest where cd: "digits10 n @ r = c # d # rest" "lower c = CHR ''0''" "lower d = CHR ''x''"
      by (cases "digits10 n @ r"; cases "tl (digits10 n @ r)") (auto simp: numeral_2_eq_2)
    have "\<not> c_isdigit d"
    proof
      assume "c_isdigit d"
      then have "lower d = d" by (simp add: c_isdigit_def lower_def)
      with \<open>c_isdigit d\<close> cd(3) show False by (simp add: c_isdigit_def)
    qed
    moreover have "d \<in> set (digits10 n) \<or> d \<in> set r" using cd(1) by (metis Un_iff list.set_intros set_append)
    moreover have "d \<in> set (digits10 n) \<Longrightarrow> c_isdigit d" using digits10_digits [OF n] by (simp add: list_all_iff)
    moreover have "d = hd r" if "d \<notin> set (digits10 n)"
    proof -
      obtain ds where ds: "digits10 n = c # ds" using cd(1) by (cases "digits10 n") auto
      with cd(1) have "ds @ r = d # rest" by simp
      with that ds show ?thesis by (cases ds) auto
    qed
    ultimately have "d = hd r" "r \<noteq> []" by auto
    with r have "d = CHR ''.''" by simp
    with cd(3) show False by (simp add: lower_def)
  qed
  show ?thesis
  proof (cases "n = 0")
    case True
    have "takeWhile is_octal (''0'' @ r) = ''0''" "dropWhile is_octal (''0'' @ r) = r"
      by (rule takeWhile_digits; use no in \<open>simp add: is_octal_def c_isdigit_def digit_val_def\<close>)+
    moreover have "strprefix ''0'' (''0'' @ r)" "octal_val 0 ''0'' = 0"
      by (simp_all add: strprefix_def digit_val_def)
    ultimately show ?thesis
      using True notx by (simp only: strtoul0_def Let_def digits10_0 if_False simp_thms if_True)
  next
    case False
    then have "\<not> strprefix ''0'' (digits10 n @ r)"
      using digits10_hd [of n] n by (cases "digits10 n") (auto simp: strprefix_def)
    with notx show ?thesis
      using takeWhile_digits [OF digits10_digits [OF n] nd] digits_val_digits10 [OF n]
      by (simp add: strtoul0_def Let_def)
  qed
qed

lemma inet_parts_dot:
  assumes "0 \<le> n" and "n \<le> 255" and "length ps < 3"
  shows "inet_parts ps (digits10 n @ CHR ''.'' # s) = inet_parts (ps @ [n]) s"
proof -
  note h = hd_digits10 [OF assms(1), of "CHR ''.'' # s"]
  note s = strtoul0_digits [OF assms(1), of "CHR ''.'' # s", simplified]
  show ?thesis
    using h s assms by (subst inet_parts.simps) (cases "digits10 n @ CHR ''.'' # s"; simp)
qed

lemma inet_parts_end:
  assumes "0 \<le> n" and "n \<le> 255"
  shows "inet_parts ps (digits10 n) = Some (ps @ [n])"
proof -
  note h = hd_digits10 [OF assms(1), of "[]"]
  note s = strtoul0_digits [OF assms(1), of "[]", simplified]
  show ?thesis
    using h s assms by (subst inet_parts.simps) (cases "digits10 n"; simp)
qed

lemma octet_range: "0 \<le> octet i a" "octet i a \<le> 255"
  using pos_mod_bound [of 256 "uint a div 256 ^ i"] by (simp_all add: octet_def)

lemma octets_word: "octet 0 a + octet 1 a * 256 + octet 2 a * 65536 + octet 3 a * 16777216 = uint a"
proof -
  have "uint a < 2 ^ 32" "0 \<le> uint a" using uint_lt2p [of a] by simp_all
  then have "uint a div 16777216 < 256" "0 \<le> uint a div 16777216"
    by (simp_all add: pos_imp_zdiv_nonneg_iff)
  then have "uint a div 16777216 mod 256 = uint a div 16777216" by (simp only: mod_pos_pos_trivial)
  moreover have "uint a div 256 div 256 = uint a div 65536" "uint a div 65536 div 256 = uint a div 16777216"
    by (simp_all add: zdiv_zmult2_eq [symmetric])
  moreover have "octet 0 a = uint a mod 256" "octet 1 a = uint a div 256 mod 256"
    "octet 2 a = uint a div 65536 mod 256" "octet 3 a = uint a div 16777216 mod 256"
    by (simp_all add: octet_def)
  moreover note mult_div_mod_eq [of 256 "uint a"] mult_div_mod_eq [of 256 "uint a div 256"]
    mult_div_mod_eq [of 256 "uint a div 65536"]
  ultimately show ?thesis by linarith
qed

lemma inet_addr_ntoa: "inet_addr (inet_ntoa a) = a"
proof -
  have "inet_parts [] (inet_ntoa a) = Some [octet 0 a, octet 1 a, octet 2 a, octet 3 a]"
    by (simp add: inet_ntoa_def inet_parts_dot inet_parts_end octet_range)
  then show ?thesis
    using octets_word [of a] octet_range [of 3 a] by (simp add: inet_addr_def inet_word_def)
qed

end
