(* ===== verification/Dmucs_Clients.thy ===== *)
theory Dmucs_Clients
  imports Dmucs_Msg C_Text_Lemmas
begin

text \<open>
  The client programs \<open>gethost.cc\<close>, \<open>loadavg.cc\<close> and \<open>remhost.cc\<close>: their command lines, the
  requests they build, and what \<open>gethost\<close> makes of the replies.  An argument is compared with
  \<open>strequ\<close>, which compares prefixes.
\<close>

subsection \<open>Command lines\<close>

definition SERVER_MACH_NAME :: string where
  "SERVER_MACH_NAME = ''localhost''"

definition SERVER_PORT_NUM :: int where
  "SERVER_PORT_NUM = 9714"

record client_opts =
  serverName :: string      \<comment> \<open>the content of the string stream, with what is left behind a NUL\<close>
  serverPortNum :: int
  distingProp :: string
  debugMode :: bool
  timeout :: int
  suppliedIP :: "string option"
  suppliedHost :: "string option"

definition default_opts :: client_opts where
  "default_opts = \<lparr>serverName = ''@'' @ SERVER_MACH_NAME, serverPortNum = SERVER_PORT_NUM,
     distingProp = '''', debugMode = False, timeout = 0, suppliedIP = None, suppliedHost = None\<rparr>"

definition put_at :: "nat \<Rightarrow> string \<Rightarrow> string \<Rightarrow> string" where
  \<comment> \<open>\<open>seekp (n)\<close> and output: the old characters are overwritten\<close>
  "put_at n x s = take n s @ x @ drop (n + length x) s"

definition set_server :: "string \<Rightarrow> client_opts \<Rightarrow> client_opts" where
  "set_server a o' = o'\<lparr>serverName := put_at 1 (a @ [CHR 0x00]) (serverName o')\<rparr>"

definition opt_is :: "string \<Rightarrow> string \<Rightarrow> string \<Rightarrow> bool" where
  "opt_is x y a = (strequ x a \<or> strequ y a)"

fun gethost_args :: "client_opts \<Rightarrow> string list \<Rightarrow> (client_opts \<times> string list) option" where
  \<comment> \<open>\<open>None\<close>: the usage message; otherwise the options and the command with its arguments\<close>
  "gethost_args o' [] = Some (o', [])"
| "gethost_args o' [a] =
     (if opt_is ''-s'' ''--server'' a \<or> opt_is ''-p'' ''--port'' a \<or> opt_is ''-t'' ''--type'' a then None
      else if opt_is ''-D'' ''--debug'' a then Some (o'\<lparr>debugMode := True\<rparr>, [])
      else if opt_is ''-w'' ''--wait'' a then None
      else Some (o', [a]))"
| "gethost_args o' (a # b # as) =
     (if opt_is ''-s'' ''--server'' a then gethost_args (set_server b o') as
      else if opt_is ''-p'' ''--port'' a then gethost_args (o'\<lparr>serverPortNum := atoi b\<rparr>) as
      else if opt_is ''-t'' ''--type'' a then gethost_args (o'\<lparr>distingProp := b\<rparr>) as
      else if opt_is ''-D'' ''--debug'' a then gethost_args (o'\<lparr>debugMode := True\<rparr>) (b # as)
      else if opt_is ''-w'' ''--wait'' a then gethost_args (o'\<lparr>timeout := atoi b\<rparr>) as
      else Some (o', a # b # as))"

fun loadavg_args :: "client_opts \<Rightarrow> string list \<Rightarrow> client_opts option" where
  "loadavg_args o' [] = Some o'"
| "loadavg_args o' [a] =
     (if opt_is ''-s'' ''--server'' a \<or> opt_is ''-p'' ''--port'' a \<or> opt_is ''-t'' ''--type'' a then None
      else if opt_is ''-D'' ''--debug'' a then Some (o'\<lparr>debugMode := True\<rparr>)
      else None)"
| "loadavg_args o' (a # b # as) =
     (if opt_is ''-s'' ''--server'' a then loadavg_args (set_server b o') as
      else if opt_is ''-p'' ''--port'' a then loadavg_args (o'\<lparr>serverPortNum := atoi b\<rparr>) as
      else if opt_is ''-t'' ''--type'' a then loadavg_args (o'\<lparr>distingProp := b\<rparr>) as
      else if opt_is ''-D'' ''--debug'' a then loadavg_args (o'\<lparr>debugMode := True\<rparr>) (b # as)
      else None)"

fun remhost_args :: "client_opts \<Rightarrow> string list \<Rightarrow> client_opts option" where
  "remhost_args o' [] = Some o'"
| "remhost_args o' [a] =
     (if opt_is ''-s'' ''--server'' a \<or> opt_is ''-p'' ''--port'' a \<or> opt_is ''-t'' ''--type'' a then None
      else if opt_is ''-D'' ''--debug'' a then Some (o'\<lparr>debugMode := True\<rparr>)
      else if strequ ''-ip'' a \<or> strequ ''--host'' a then None
      else Some o')"
| "remhost_args o' (a # b # as) =
     (if opt_is ''-s'' ''--server'' a then remhost_args (set_server b o') as
      else if opt_is ''-p'' ''--port'' a then remhost_args (o'\<lparr>serverPortNum := atoi b\<rparr>) as
      else if opt_is ''-t'' ''--type'' a then remhost_args (o'\<lparr>distingProp := b\<rparr>) as
      else if opt_is ''-D'' ''--debug'' a then remhost_args (o'\<lparr>debugMode := True\<rparr>) (b # as)
      else if strequ ''-ip'' a then remhost_args (o'\<lparr>suppliedIP := Some b\<rparr>) as
      else if strequ ''--host'' a then remhost_args (o'\<lparr>suppliedHost := Some b\<rparr>) as
      else Some o')"

definition clientPortStr :: "client_opts \<Rightarrow> string" where
  "clientPortStr o' = ''c'' @ string_of_int (serverPortNum o')"

definition my_address :: "env \<Rightarrow> string option \<Rightarrow> ip option" where
  \<comment> \<open>\<open>gethostname\<close> (which may fail), then \<open>gethostbyname\<close>\<close>
  "my_address e hostname = do {
     nm \<leftarrow> hostname;
     (_, a) \<leftarrow> gethostbyname e nm;
     Some a }"

subsection \<open>gethost\<close>

definition gethost_request :: "ip \<Rightarrow> string \<Rightarrow> string" where
  "gethost_request a d = ''host '' @ inet_ntoa a @ '' '' @ d"

definition gethost_resolve :: "env \<Rightarrow> string \<Rightarrow> string" where
  \<comment> \<open>what a reply makes of \<open>resolved_name\<close>\<close>
  "gethost_resolve e reply =
     (if strprefix ''0.0.0.0'' reply then ''''
      else getHostName e (inet_addr reply) @ ''/100,lzo'')"

datatype gethost_result = GotHost string nat | ReadError | StillWaiting

fun gethost_loop :: "env \<Rightarrow> int \<Rightarrow> nat \<Rightarrow> (string option \<times> int) list \<Rightarrow> gethost_result" where
  \<comment> \<open>the replies (\<open>None\<close>: \<open>Sgets\<close> fails) with the seconds elapsed after each; the number counts
     the requests sent\<close>
  "gethost_loop e tmo n [] = StillWaiting"
| "gethost_loop e tmo n ((reply, elapsed) # rs) = (case reply of
     None \<Rightarrow> ReadError
   | Some s \<Rightarrow> (let resolved_name = gethost_resolve e s
       in if resolved_name = '''' \<and> (tmo = - 1 \<or> tmo < elapsed)
          then gethost_loop e tmo (n + 1) rs
          else GotHost resolved_name (n + 1)))"

definition distcc_hosts :: "string \<Rightarrow> string" where
  "distcc_hosts resolved_name = ''DISTCC_HOSTS='' @ resolved_name"

subsection \<open>loadavg\<close>

text \<open>
  Extraction of a \<open>float\<close> from a string stream: the characters of a decimal number are collected
  and converted; a stream that has failed gives nothing any more.
\<close>

definition collect_exp :: "string \<Rightarrow> string \<times> string" where
  "collect_exp s = (case s of
     c # cs \<Rightarrow> if lower c = CHR ''e'' then
         (case cs of
            d # ds \<Rightarrow> if d = CHR ''+'' \<or> d = CHR ''-''
              then (c # d # takeWhile c_isdigit ds, dropWhile c_isdigit ds)
              else (c # takeWhile c_isdigit cs, dropWhile c_isdigit cs)
          | [] \<Rightarrow> ([c], []))
       else ([], s)
   | [] \<Rightarrow> ([], []))"

definition stream_float :: "string option \<Rightarrow> cfloat option \<times> string option" where
  \<comment> \<open>the value stored, if any, and the stream; a failed stream is \<open>None\<close>\<close>
  "stream_float st = (case st of
     None \<Rightarrow> (None, None)
   | Some s \<Rightarrow> (let t = skip_ws s
       in if t = [] then (None, None)
          else (case split_sign t of (neg, u) \<Rightarrow> (case scan_fraction c_isdigit u of (i, f, r) \<Rightarrow>
            (case collect_exp (if i @ f = [] then [] else r) of (x, r') \<Rightarrow>
              (let q = scan_decimal (i @ ''.'' @ f @ x)
               in case q of
                    Some (v, []) \<Rightarrow> (Some (to_float (if neg then - v else v)), Some (if x = [] then r else r'))
                  | _ \<Rightarrow> (Some (Fin 0), None)))))))"

definition stream_get :: "string option \<Rightarrow> string option" where
  "stream_get st = (case st of None \<Rightarrow> None | Some [] \<Rightarrow> None | Some (c # cs) \<Rightarrow> Some cs)"

function find_average :: "string \<Rightarrow> string option" where
  \<comment> \<open>the text after the first word \<open>average:\<close> or \<open>averages:\<close>\<close>
  "find_average s =
     (let t = skip_ws s
      in if t = [] then None
         else if take_word t = ''average:'' \<or> take_word t = ''averages:'' then Some (skip_word t)
         else find_average (skip_word t))"
  by pat_completeness auto
termination
proof (relation "measure length")
  fix s :: string and t
  assume t: "t = skip_ws s" "t \<noteq> []"
  then have "hd t \<in> set t" "\<not> c_isspace (hd t)"
    using hd_dropWhile [of c_isspace s] by (simp_all add: skip_ws_def)
  then have "length (skip_word t) < length t"
    using length_dropWhile_le [of "\<lambda>c. \<not> c_isspace c" "tl t"] t(2) by (cases t) (auto simp: skip_word_def)
  also have "\<dots> \<le> length s" using t(1) by (simp add: skip_ws_def length_dropWhile_le)
  finally show "(skip_word t, s) \<in> measure length" by simp
qed simp

declare find_average.simps [simp del]

definition parse_uptime :: "string \<Rightarrow> cfloat \<times> cfloat \<times> cfloat" where
  "parse_uptime buf = (case find_average buf of
     None \<Rightarrow> (Fin 0, Fin 0, Fin 0)
   | Some s \<Rightarrow>
       (case stream_float (Some s) of (a, s1) \<Rightarrow>
        case stream_float (stream_get s1) of (b, s2) \<Rightarrow>
        case stream_float (stream_get s2) of (c, s3) \<Rightarrow>
          (case a of None \<Rightarrow> Fin 0 | Some x \<Rightarrow> x,
           case b of None \<Rightarrow> Fin 0 | Some x \<Rightarrow> x,
           case c of None \<Rightarrow> Fin 0 | Some x \<Rightarrow> x)))"

definition LDSTR_SIZE :: nat where
  "LDSTR_SIZE = 32"

definition load_string :: "cfloat \<Rightarrow> cfloat \<Rightarrow> cfloat \<Rightarrow> string option" where
  \<comment> \<open>\<open>sprintf\<close> into \<open>ldStr\<close>; \<open>None\<close>: it does not fit\<close>
  "load_string a b c =
     (let s = '' '' @ print_float2 a @ '' '' @ print_float2 b @ '' '' @ print_float2 c
      in if length s < LDSTR_SIZE then Some s else None)"

definition loadavg_line :: "string option \<Rightarrow> string option" where
  \<comment> \<open>from the line \<open>uptime\<close> prints, if it can be read\<close>
  "loadavg_line buf = (case buf of
     None \<Rightarrow> Some '' 0.0 0.0 0.0''
   | Some s \<Rightarrow> (case parse_uptime s of (a, b, c) \<Rightarrow> load_string a b c))"

definition loadavg_request :: "ip \<Rightarrow> string \<Rightarrow> string \<Rightarrow> string" where
  "loadavg_request a ldStr d = ''load '' @ inet_ntoa a @ ldStr @ '' '' @ d"

subsection \<open>remhost\<close>

fun strstr :: "string \<Rightarrow> string \<Rightarrow> bool" where
  "strstr [] x = (x = [])"
| "strstr (c # cs) x = (strprefix x (c # cs) \<or> strstr cs x)"

definition status_request :: "string \<Rightarrow> client_opts \<Rightarrow> ip \<Rightarrow> string" where
  "status_request argv0 o' a =
     ''status '' @ (case suppliedIP o' of Some s \<Rightarrow> s | None \<Rightarrow> inet_ntoa a) @ '' '' @
     (if strstr argv0 ''addhost'' then ''up'' else ''down'') @ '' '' @ distingProp o'"

definition remhost_main :: "env \<Rightarrow> string \<Rightarrow> string list \<Rightarrow> string option \<Rightarrow> string option" where
  \<comment> \<open>the request sent, with a connected socket; \<open>None\<close>: an error exit\<close>
  "remhost_main e argv0 args hostname = do {
     o' \<leftarrow> remhost_args default_opts args;
     nm \<leftarrow> hostname;
     (_, a) \<leftarrow> gethostbyname e (case suppliedHost o' of Some h \<Rightarrow> h | None \<Rightarrow> nm);
     Some (status_request argv0 o' a) }"

lemma server_option_sets_name:
  assumes "list_all (\<lambda>c. c \<noteq> CHR 0x00) nm" and "take 1 (serverName opts) = ''@''"
  shows "c_str (serverName (set_server nm opts)) = ''@'' @ nm \<and> take 1 (serverName (set_server nm opts)) = ''@''"
  using assms by (auto simp: set_server_def put_at_def c_str_def list_all_iff)

text \<open>
  \<open>gethost\<close> does not wait for a host within the time it is given with \<open>-w\<close>: when there is no
  host and the time has not yet passed, it gives up after the first request.
\<close>

lemma gethost_gives_up_before_timeout:
  assumes "strprefix ''0.0.0.0'' reply" and "0 \<le> tmo" and "elapsed \<le> tmo"
  shows "gethost_loop e tmo n ((Some reply, elapsed) # rs) = GotHost '''' (n + 1)"
  using assms by (simp add: gethost_resolve_def)

end
