(* ===== verification/Dmucs_Requests.thy ===== *)
theory Dmucs_Requests
  imports Dmucs_Clients
begin

text \<open>
  Round trips between the client programs and the server: what the server parses is what the
  client meant.
\<close>

subsection \<open>sscanf on words and numbers\<close>

definition is_word :: "string \<Rightarrow> bool" where
  "is_word w = (w \<noteq> '''' \<and> list_all (\<lambda>c. \<not> c_isspace c) w)"

lemma skip_ws_word: "is_word w \<Longrightarrow> skip_ws (w @ r) = w @ r"
  by (cases w) (auto simp: is_word_def skip_ws_def)

lemma skip_ws_space [simp]: "skip_ws (CHR '' '' # s) = skip_ws s"
  by (simp add: skip_ws_def c_isspace_def)

lemma skip_ws_Nil [simp]: "skip_ws [] = []"
  by (simp add: skip_ws_def)

lemma run_word:
  assumes "is_word w" and "r = [] \<or> c_isspace (hd r)"
  shows "run_format (DStr # ds) (w @ r) = CStr w # run_format ds r"
proof -
  have "takeWhile (\<lambda>c. \<not> c_isspace c) (w @ r) = w" "dropWhile (\<lambda>c. \<not> c_isspace c) (w @ r) = r"
    using assms takeWhile_digits [of "\<lambda>c. \<not> c_isspace c" w r] by (simp_all add: is_word_def)
  then show ?thesis
    using assms(1) by (simp add: skip_ws_word take_word_def skip_word_def Let_def) (simp add: is_word_def)
qed

lemma run_space_word:
  assumes "is_word w" and "r = [] \<or> c_isspace (hd r)"
  shows "run_format (DBlank # DStr # ds) (CHR '' '' # w @ r) = CStr w # run_format ds r"
  using run_word [OF assms] skip_ws_word [OF assms(1)] by simp

lemma is_space [simp]: "c_isspace CHR '' ''" "\<not> c_isspace CHR ''.''" "\<not> c_isspace CHR ''-''"
  by (simp_all add: c_isspace_def)

lemma run_lits: "run_format (map DLit l @ ds) (l @ s) = run_format ds s"
  by (induction l) simp_all

subsection \<open>Addresses as words\<close>

lemma digits10_length:
  assumes "0 \<le> n" and "n < 1000"
  shows "length (digits10 n) \<le> 3"
proof -
  have a: "length (digits10 m) \<le> 1" if "m < 10" for m using that by (subst digits10.simps) simp
  have b: "length (digits10 m) \<le> 2" if "m < 100" for m
    using a [of "m div 10"] that by (subst digits10.simps) simp
  show ?thesis using b [of "n div 10"] assms by (subst digits10.simps) simp
qed

lemma digits10_nospace: "0 \<le> n \<Longrightarrow> list_all (\<lambda>c. \<not> c_isspace c) (digits10 n)"
  using digits10_digits [of n] c_isdigit_not_space by (simp add: list_all_iff)

lemma inet_ntoa_word: "is_word (inet_ntoa a)"
  by (simp add: is_word_def inet_ntoa_def digits10_nospace octet_range)

lemma inet_ntoa_length: "length (inet_ntoa a) \<le> 15"
proof -
  have "length (digits10 (octet i a)) \<le> 3" for i
    using octet_range [of i a] by (intro digits10_length) simp_all
  from this [of 0] this [of 1] this [of 2] this [of 3] show ?thesis by (simp add: inet_ntoa_def)
qed

subsection \<open>gethost\<close>

lemma host_format: "parse_format ''host %s %s'' = map DLit ''host'' @ [DBlank, DStr, DBlank, DStr]"
  by code_simp

lemma conv_words_simps [simp]:
  "conv_words [] = []" "conv_words (CStr s # cs) = s # conv_words cs"
  "conv_words (CInt i # cs) = conv_words cs" "conv_words (CFlt x # cs) = conv_words cs" "conv_words (CDbl x # cs) = conv_words cs"
  by (simp_all add: conv_words_def List.map_filter_def)

definition prop_ok :: "dprop \<Rightarrow> bool" where
  \<comment> \<open>a distinguishing property that survives the trip: a word that fits, or none\<close>
  "prop_ok d = (list_all (\<lambda>c. \<not> c_isspace c) d \<and> length d \<le> DPROP_MAX_STRLEN)"

lemma parse_status_eq:
  assumes "sscanf b ''status %s %s %s'' = CStr m # CStr st # (if d = '''' then [] else [CStr d])"
    and "sscanf b ''status %s %s'' = [CStr m, CStr st]"
    and "length m < NAME_BUF" "length st < STATE_BUF" "prop_ok d"
  shows "parse_status cl b = Some (Some (StatusMsg cl (inet_addr m) (parse_state st) d))"
  using assms by (cases "d = ''''") (simp_all add: parse_status_def Let_def fits_def prop_ok_def)

lemma parse_load_eq:
  assumes "sscanf b ''load %s %f %f %f %s'' = [CStr m, CFlt x, CFlt y, CFlt z] @ (if d = '''' then [] else [CStr d])"
    and "sscanf b ''load %s %f %f %f'' = [CStr m, CFlt x, CFlt y, CFlt z]"
    and "length m < NAME_BUF" "prop_ok d"
  shows "parse_load cl b = Some (Some (LdAvgMsg cl (inet_addr m) x y z d))"
  using assms by (cases "d = ''''") (simp_all add: parse_load_def Let_def fits_def prop_ok_def)

lemma parse_host_eq:
  assumes "sscanf b ''host %s %s'' = CStr m # (if d = '''' then [] else [CStr d])"
    and "length m < NAME_BUF" "prop_ok d"
  shows "parse_host cl b = Some (Some (HostReqMsg cl d))"
  using assms by (cases "d = ''''") (simp_all add: parse_host_def Let_def fits_def prop_ok_def)

lemma gethost_parsed:
  assumes "prop_ok d"
  shows "parseMsg cl (gethost_request a d) = Some (Some (HostReqMsg cl d))"
proof -
  note n = inet_ntoa_length [of a]
  have b: "gethost_request a d = ''host'' @ CHR '' '' # inet_ntoa a @ CHR '' '' # d"
    by (simp add: gethost_request_def)
  have p: "strprefix ''host'' (gethost_request a d)"
    by (simp add: strprefix_def gethost_request_def)
  have s: "sscanf (gethost_request a d) ''host %s %s'' =
      CStr (inet_ntoa a) # (if d = '''' then [] else [CStr d])"
  proof (cases "d = ''''")
    case True
    then show ?thesis
      unfolding sscanf_def host_format b run_lits
      using run_space_word [OF inet_ntoa_word [of a], of "'' ''" "[DBlank, DStr]"] by simp
  next
    case False
    then have w: "is_word d" using assms by (simp add: prop_ok_def is_word_def)
    show ?thesis
      unfolding sscanf_def host_format b run_lits
      using run_space_word [OF inet_ntoa_word [of a], of "CHR '' '' # d" "[DBlank, DStr]"]
        run_space_word [OF w, of "[]" "[]"] False by simp
  qed
  have "length (inet_ntoa a) < NAME_BUF" using n by (simp add: NAME_BUF_def)
  from parse_host_eq [OF s this assms, of cl] p show ?thesis
    by (simp only: parseMsg_def if_True)
qed

subsection \<open>remhost\<close>

lemma status_format:
  "parse_format ''status %s %s %s'' = map DLit ''status'' @ [DBlank, DStr, DBlank, DStr, DBlank, DStr]"
  "parse_format ''status %s %s'' = map DLit ''status'' @ [DBlank, DStr, DBlank, DStr]"
  by code_simp+

lemma status_parsed:
  assumes d: "prop_ok d" and st: "is_word st" "length st < STATE_BUF"
  shows "parseMsg cl (''status '' @ inet_ntoa a @ '' '' @ st @ '' '' @ d) =
    Some (Some (StatusMsg cl a (parse_state st) d))"
proof -
  let ?b = "''status '' @ inet_ntoa a @ '' '' @ st @ '' '' @ d"
  note n = inet_ntoa_length [of a]
  have b: "?b = ''status'' @ CHR '' '' # inet_ntoa a @ CHR '' '' # st @ '' '' @ d" by simp
  have p: "strprefix ''status'' ?b" "\<not> strprefix ''host'' ?b" "\<not> strprefix ''load'' ?b"
    by (simp_all add: strprefix_def)
  have 2: "sscanf ?b ''status %s %s'' = [CStr (inet_ntoa a), CStr st]"
    unfolding sscanf_def status_format b run_lits
    using run_space_word [OF inet_ntoa_word [of a], of "CHR '' '' # st @ '' '' @ d" "[DBlank, DStr]"]
      run_space_word [OF st(1), of "'' '' @ d" "[]"] by simp
  have 3: "sscanf ?b ''status %s %s %s'' = CStr (inet_ntoa a) # CStr st # (if d = '''' then [] else [CStr d])"
  proof -
    have "run_format [DBlank, DStr] (CHR '' '' # d) = (if d = '''' then [] else [CStr d])"
    proof (cases "d = ''''")
      case False
      then have "is_word d" using d by (simp add: prop_ok_def is_word_def)
      from run_space_word [OF this, of "[]" "[]"] False show ?thesis by simp
    qed simp
    then show ?thesis
      unfolding sscanf_def status_format b run_lits
      using run_space_word [OF inet_ntoa_word [of a], of "CHR '' '' # st @ '' '' @ d" "[DBlank, DStr, DBlank, DStr]"]
        run_space_word [OF st(1), of "'' '' @ d" "[DBlank, DStr]"] by simp
  qed
  have "length (inet_ntoa a) < NAME_BUF" using n by (simp add: NAME_BUF_def)
  from parse_status_eq [OF 3 2 this st(2) d, of cl] p show ?thesis
    by (simp only: parseMsg_def inet_addr_ntoa if_True if_False)
qed

lemma parse_state_updown: "parse_state ''up'' = STATUS_AVAILABLE" "parse_state ''down'' = STATUS_UNAVAILABLE"
  by (simp_all add: parse_state_def strprefix_def)

lemma remhost_parsed:
  assumes "suppliedIP o' = None" and "prop_ok (distingProp o')"
  shows "parseMsg cl (status_request argv0 o' a) = Some (Some (StatusMsg cl a
    (if strstr argv0 ''addhost'' then STATUS_AVAILABLE else STATUS_UNAVAILABLE) (distingProp o')))"
  using status_parsed [OF assms(2), of "''up''" cl a] status_parsed [OF assms(2), of "''down''" cl a] assms(1)
  by (simp add: status_request_def is_word_def STATE_BUF_def c_isspace_def parse_state_updown)

subsection \<open>loadavg\<close>

definition cents :: "rat \<Rightarrow> cfloat" where
  \<comment> \<open>a load average after it was printed with two decimals and read back\<close>
  "cents q = to_float (of_int (round_half_even (q * 100)) / 100)"

lemma prefix_0x:
  "strprefix ''0x'' (map lower t) \<Longrightarrow> \<exists>c e z. t = c # e # z \<and> lower e = CHR ''x''"
  by (cases t; cases "tl t") (auto simp: strprefix_def)

lemma scan_float_cents:
  assumes q: "0 \<le> q" and r: "r = [] \<or> c_isspace (hd r)"
  shows "scan_float (print_float2 (Fin q) @ r) = Some (cents q, r)"
proof -
  define n where "n = round_half_even (q * 100)"
  have n: "0 \<le> n" unfolding n_def using q by (intro round_half_even_nonneg) simp
  let ?i = "digits10 (n div 100)" and ?f = "[digit_char (n mod 100 div 10), digit_char (n mod 10)]"
  let ?t = "?i @ CHR ''.'' # ?f @ r"
  have nn: "0 \<le> n div 100" using n by (simp add: pos_imp_zdiv_nonneg_iff)
  have d: "0 \<le> n mod 100 div 10" "n mod 100 div 10 < 10" "0 \<le> n mod 10" "n mod 10 < 10"
    by (simp_all add: pos_imp_zdiv_nonneg_iff)
  have t: "print_float2 (Fin q) @ r = ?t"
    using q by (simp add: print_float2_def n_def Let_def)
  obtain c cs where c: "?t = c # cs" "c_isdigit c"
    using digits10_digits [OF nn] by (cases ?i) auto
  have ws: "skip_ws ?t = ?t" using c c_isdigit_not_space by (simp add: skip_ws_def)
  have sg: "split_sign ?t = (False, ?t)" using c by (auto simp: split_sign_def c_isdigit_def)
  have lc: "lower c = c" using c(2) by (simp add: lower_def c_isdigit_def)
  have nw: "\<not> strprefix ''infinity'' (map lower ?t)" "\<not> strprefix ''inf'' (map lower ?t)"
    "\<not> strprefix ''nan'' (map lower ?t)"
    using c lc by (auto simp: strprefix_def c_isdigit_def)
  have fr: "scan_fraction c_isdigit ?t = (?i, ?f, r)"
  proof -
    have a: "takeWhile c_isdigit ?t = ?i" "dropWhile c_isdigit ?t = CHR ''.'' # ?f @ r"
      using takeWhile_digits [OF digits10_digits [OF nn], of "CHR ''.'' # ?f @ r"]
      by (simp_all add: c_isdigit_def)
    have nd: "r = [] \<or> \<not> c_isdigit (hd r)" using r c_isdigit_not_space by auto
    have b: "takeWhile c_isdigit (?f @ r) = ?f" "dropWhile c_isdigit (?f @ r) = r"
      by (rule takeWhile_digits; use d nd in simp)+
    show ?thesis unfolding scan_fraction_def Let_def a by (simp add: b [simplified])
  qed
  have ex: "scan_exponent CHR ''e'' r = Some (0, r)"
    using r by (cases r) (auto simp: scan_exponent_def c_isspace_def lower_def)
  have val: "digits_val 0 (?i @ ?f) = n"
  proof -
    have "n mod (10 * 10) = 10 * (n div 10 mod 10) + n mod 10" by (rule zmod_zmult2_eq) simp
    then have a: "n mod 100 div 10 = n div 10 mod 10" by simp
    have b: "n div 10 div 10 = n div 100" by (simp add: zdiv_zmult2_eq [symmetric])
    have "digits_val 0 (?i @ ?f) = 10 * (10 * (n div 100) + n mod 100 div 10) + n mod 10"
      using d digits_val_digits10 [OF nn] by (simp add: digits_val_append)
    also have "\<dots> = n"
      using mult_div_mod_eq [of 10 "n div 10"] unfolding a b by (simp only: mult_div_mod_eq)
    finally show ?thesis .
  qed
  have no0x: "\<not> strprefix ''0x'' (map lower ?t)"
  proof
    assume "strprefix ''0x'' (map lower ?t)"
    then obtain e z where "?t = c # e # z" "lower e = CHR ''x''"
      using prefix_0x [of ?t] c(1) by auto
    moreover have "e = CHR ''.'' \<or> c_isdigit e" if "?t = c # e # z" for z
    proof (cases ?i)
      case (Cons a as)
      with that show ?thesis
        using digits10_digits [OF nn] by (cases as) auto
    qed simp
    ultimately have "e = CHR ''.'' \<or> c_isdigit e" "lower e = CHR ''x''" by blast+
    then show False by (auto simp: lower_def c_isdigit_def split: if_splits)
  qed
  have "scan_decimal ?t = Some (of_int n / 100, r)"
    using fr ex val by (simp add: scan_decimal_def pow10_def)
  then show ?thesis
    using ws sg nw no0x unfolding t scan_float_def scan_real_def cents_def n_def [symmetric]
    by (simp del: append.simps append_Cons)
qed

lemma print_float2_word:
  assumes "0 \<le> q"
  shows "is_word (print_float2 (Fin q))"
proof -
  have n: "0 \<le> round_half_even (q * 100)" using assms by (intro round_half_even_nonneg) simp
  then have "0 \<le> round_half_even (q * 100) div 100" by (simp add: pos_imp_zdiv_nonneg_iff)
  then show ?thesis
    using assms by (simp add: print_float2_def is_word_def Let_def digits10_nospace
        pos_imp_zdiv_nonneg_iff)
qed

lemma run_space_float:
  assumes "0 \<le> q" and "r = [] \<or> c_isspace (hd r)"
  shows "run_format (DBlank # DFloat # ds) (CHR '' '' # print_float2 (Fin q) @ r) =
    CFlt (cents q) # run_format ds r"
  using scan_float_cents [OF assms] skip_ws_word [OF print_float2_word [OF assms(1)]] by simp

lemma load_format:
  "parse_format ''load %s %f %f %f %s'' =
    map DLit ''load'' @ [DBlank, DStr, DBlank, DFloat, DBlank, DFloat, DBlank, DFloat, DBlank, DStr]"
  "parse_format ''load %s %f %f %f'' =
    map DLit ''load'' @ [DBlank, DStr, DBlank, DFloat, DBlank, DFloat, DBlank, DFloat]"
  by code_simp+

lemma loadavg_parsed:
  assumes d: "prop_ok d" and ld: "load_string (Fin x) (Fin y) (Fin z) = Some ldStr"
    and pos: "0 \<le> x" "0 \<le> y" "0 \<le> z"
  shows "parseMsg cl (loadavg_request a ldStr d) =
    Some (Some (LdAvgMsg cl a (cents x) (cents y) (cents z) d))"
proof -
  let ?b = "loadavg_request a ldStr d"
  let ?x = "print_float2 (Fin x)" and ?y = "print_float2 (Fin y)" and ?z = "print_float2 (Fin z)"
  note n = inet_ntoa_length [of a]
  have "ldStr = '' '' @ ?x @ '' '' @ ?y @ '' '' @ ?z"
    using ld by (simp add: load_string_def Let_def split: if_splits)
  then have b: "?b = ''load'' @ CHR '' '' # inet_ntoa a @ CHR '' '' # ?x @ CHR '' '' # ?y @ CHR '' '' # ?z @ CHR '' '' # d"
    by (simp add: loadavg_request_def)
  have p: "strprefix ''load'' ?b" "\<not> strprefix ''host'' ?b"
    by (simp_all add: b strprefix_def)
  have run: "run_format (DBlank # DStr # DBlank # DFloat # DBlank # DFloat # DBlank # DFloat # ds)
      (CHR '' '' # inet_ntoa a @ CHR '' '' # ?x @ CHR '' '' # ?y @ CHR '' '' # ?z @ CHR '' '' # d) =
      CStr (inet_ntoa a) # CFlt (cents x) # CFlt (cents y) # CFlt (cents z) # run_format ds (CHR '' '' # d)" for ds
    using run_space_word [OF inet_ntoa_word [of a], of "CHR '' '' # ?x @ CHR '' '' # ?y @ CHR '' '' # ?z @ CHR '' '' # d"]
      run_space_float [OF pos(1), of "CHR '' '' # ?y @ CHR '' '' # ?z @ CHR '' '' # d"]
      run_space_float [OF pos(2), of "CHR '' '' # ?z @ CHR '' '' # d"]
      run_space_float [OF pos(3), of "CHR '' '' # d"] by (simp del: run_format.simps)
  have tail: "run_format [DBlank, DStr] (CHR '' '' # d) = (if d = '''' then [] else [CStr d])"
  proof (cases "d = ''''")
    case False
    then have "is_word d" using d by (simp add: prop_ok_def is_word_def)
    from run_space_word [OF this, of "[]" "[]"] False show ?thesis by simp
  qed simp
  let ?c = "[CStr (inet_ntoa a), CFlt (cents x), CFlt (cents y), CFlt (cents z)]"
  have s4: "sscanf ?b ''load %s %f %f %f'' = ?c"
    unfolding sscanf_def load_format b run_lits run by simp
  have s5: "sscanf ?b ''load %s %f %f %f %s'' = ?c @ (if d = '''' then [] else [CStr d])"
    unfolding sscanf_def load_format b run_lits run tail by simp
  have "length (inet_ntoa a) < NAME_BUF" using n by (simp add: NAME_BUF_def)
  from parse_load_eq [OF s5 s4 this d, of cl] p show ?thesis
    by (simp only: parseMsg_def inet_addr_ntoa if_True if_False)
qed

end
