(* ===== verification/Dmucs_Hosts_Text.thy ===== *)
theory Dmucs_Hosts_Text
  imports Dmucs_Hosts_File Dmucs_Requests
begin

text \<open>
  What a hosts-info file means, stated on the lines somebody writes rather than on the loop that reads them:
  a line is blank, a comment, an entry (machine, number of cpus, power index, and whatever follows), or an
  entry whose first or second number is missing.  \<open>file_text\<close> writes such lines, \<open>listed\<close> says which
  entries count, and \<open>readFileIntoDb_text\<close> that these are the ones that are read.
\<close>

datatype machine =
    Dotted ip          \<comment> \<open>an address in dots\<close>
  | Named string

datatype file_line =
    Blanks string
  | Remark string string                                       \<comment> \<open>blanks, and what follows the \<open>#\<close>\<close>
  | Entry string machine string int string int string          \<comment> \<open>blanks, machine, blanks, cpus, blanks, power, the rest\<close>
  | NoCpus string machine string                               \<comment> \<open>what follows the machine is no number\<close>
  | NoPower string machine string int string                   \<comment> \<open>what follows the number of cpus is no number\<close>

subsection \<open>Writing the lines\<close>

fun machine_text :: "machine \<Rightarrow> string" where
  "machine_text (Dotted x) = inet_ntoa x"
| "machine_text (Named nm) = nm"

fun line_text :: "file_line \<Rightarrow> string" where
  "line_text (Blanks b) = b"
| "line_text (Remark b x) = b @ ''#'' @ x"
| "line_text (Entry b mc b1 n b2 p x) = b @ machine_text mc @ b1 @ string_of_int n @ b2 @ string_of_int p @ x"
| "line_text (NoCpus b mc x) = b @ machine_text mc @ x"
| "line_text (NoPower b mc b1 n x) = b @ machine_text mc @ b1 @ string_of_int n @ x"

fun file_text :: "file_line list \<Rightarrow> string" where
  \<comment> \<open>a file that ends with a newline ends with the line \<open>Blanks ''''\<close>\<close>
  "file_text [] = ''''"
| "file_text [l] = line_text l"
| "file_text (l # ls) = line_text l @ NL @ file_text ls"

subsection \<open>Lines that can be written so\<close>

definition inline :: "string \<Rightarrow> bool" where
  "inline x = (CHR 0x00 \<notin> set x \<and> CHR 0x0A \<notin> set x)"

definition blanks :: "string \<Rightarrow> bool" where
  "blanks b = (list_all c_isspace b \<and> inline b)"

definition no_number :: "string \<Rightarrow> bool" where
  \<comment> \<open>the next thing is no number: nothing, or a word that starts with no digit and no sign\<close>
  "no_number x = (case dropWhile c_isspace x of [] \<Rightarrow> True
     | c # _ \<Rightarrow> \<not> c_isdigit c \<and> c \<noteq> CHR ''+'' \<and> c \<noteq> CHR ''-'')"

definition is_int :: "int \<Rightarrow> bool" where
  "is_int n = (- (2 ^ 31) \<le> n \<and> n < 2 ^ 31)"

fun machine_ok :: "machine \<Rightarrow> bool" where
  "machine_ok (Dotted x) = (x \<noteq> INADDR_NONE)"
| "machine_ok (Named nm) = (is_word nm \<and> inline nm \<and> hd nm \<noteq> CHR ''#'' \<and> length nm < 256 \<and> inet_addr nm = INADDR_NONE)"

fun line_ok :: "file_line \<Rightarrow> bool" where
  "line_ok (Blanks b) = blanks b"
| "line_ok (Remark b x) = (blanks b \<and> CHR 0x0A \<notin> set x)"
| "line_ok (Entry b mc b1 n b2 p x) = (blanks b \<and> machine_ok mc \<and> blanks b1 \<and> b1 \<noteq> '''' \<and> is_int n \<and>
     blanks b2 \<and> b2 \<noteq> '''' \<and> is_int p \<and> CHR 0x0A \<notin> set x \<and> (x = '''' \<or> \<not> c_isdigit (hd x)))"
| "line_ok (NoCpus b mc x) = (blanks b \<and> machine_ok mc \<and> inline x \<and> (x = '''' \<or> c_isspace (hd x)) \<and> no_number x)"
| "line_ok (NoPower b mc b1 n x) = (blanks b \<and> machine_ok mc \<and> blanks b1 \<and> b1 \<noteq> '''' \<and> is_int n \<and>
     inline x \<and> (x = '''' \<or> \<not> c_isdigit (hd x)) \<and> no_number x)"

subsection \<open>What the lines mean\<close>

fun address_of :: "env \<Rightarrow> machine \<Rightarrow> ip option" where
  \<comment> \<open>an address is looked up in the name service, too\<close>
  "address_of e (Dotted x) = map_option snd (gethostbyaddr e 8 x)"
| "address_of e (Named nm) = map_option snd (gethostbyname e nm)"

fun listed :: "env \<Rightarrow> file_line list \<Rightarrow> (ip \<times> int \<times> int) list" where
  \<comment> \<open>address, cpus and power index of the entries, up to the first faulty one\<close>
  "listed e [] = []"
| "listed e (Blanks b # ls) = listed e ls"
| "listed e (Remark b x # ls) = listed e ls"
| "listed e (Entry b mc b1 n b2 p x # ls) = (case address_of e mc of
     None \<Rightarrow> listed e ls | Some a \<Rightarrow> (a, n, p) # listed e ls)"
| "listed e (NoCpus b mc x # ls) = []"
| "listed e (NoPower b mc b1 n x # ls) = []"

subsection \<open>One line\<close>

lemma zero_space [simp]: "\<not> c_isspace (CHR 0x00)" "c_isspace (CHR 0x0A)"
  by (simp_all add: c_isspace_def)

lemma skip_blanks [simp]: "list_all c_isspace b \<Longrightarrow> skip_ws (b @ r) = skip_ws r"
  by (induction b) (simp_all add: skip_ws_def)

lemma machine_word: "machine_ok mc \<Longrightarrow> is_word (machine_text mc)"
  by (cases mc) (simp_all add: inet_ntoa_word)

lemma inet_ntoa_plain: "c \<in> set (inet_ntoa a) \<Longrightarrow> c_isdigit c \<or> c = CHR ''.''"
  using digits10_digits [of "octet 0 a"] digits10_digits [of "octet 1 a"] digits10_digits [of "octet 2 a"]
    digits10_digits [of "octet 3 a"]
  by (auto simp: inet_ntoa_def octet_range list_all_iff)

lemma machine_inline:
  assumes "machine_ok mc"
  shows "inline (machine_text mc)" and "hd (machine_text mc) \<noteq> CHR ''#''" and "length (machine_text mc) < MACHINE_SIZE"
proof -
  have d: "\<not> c_isdigit (CHR 0x00)" "\<not> c_isdigit (CHR 0x0A)" "\<not> c_isdigit (CHR ''#'')" by (simp_all add: c_isdigit_def)
  have "CHR 0x00 \<notin> set (inet_ntoa a)" "CHR 0x0A \<notin> set (inet_ntoa a)" "CHR ''#'' \<notin> set (inet_ntoa a)" for a
    using inet_ntoa_plain [of "CHR 0x00" a] inet_ntoa_plain [of "CHR 0x0A" a] inet_ntoa_plain [of "CHR ''#''" a] d by auto
  moreover have "hd (inet_ntoa a) \<in> set (inet_ntoa a)" for a
    by (rule hd_in_set) (simp add: inet_ntoa_def)
  ultimately have "inline (inet_ntoa a)" "hd (inet_ntoa a) \<noteq> CHR ''#''" for a
    by (auto simp: inline_def) metis
  moreover have "length (inet_ntoa a) < 256" for a using inet_ntoa_length [of a] by simp
  ultimately show "inline (machine_text mc)" "hd (machine_text mc) \<noteq> CHR ''#''" "length (machine_text mc) < MACHINE_SIZE"
    using assms by (cases mc; simp add: MACHINE_SIZE_def)+
qed

lemma resolve_address: "machine_ok mc \<Longrightarrow> resolve_machine e (machine_text mc) = address_of e mc"
  by (cases mc) (simp_all add: resolve_machine_def inet_addr_ntoa)

lemma int_inline: "inline (string_of_int n)"
  using string_of_int_chars [of "CHR 0x00" n] string_of_int_chars [of "CHR 0x0A" n]
  by (auto simp: inline_def c_isdigit_def)

lemma inline_append [simp]: "inline (x @ y) \<longleftrightarrow> inline x \<and> inline y"
  by (auto simp: inline_def)

lemma getline_inline:
  assumes "CHR 0x0A \<notin> set l" and "r = [] \<or> hd r = CHR 0x0A"
  shows "getline (l @ r) = (l, drop 1 r)"
proof -
  have "list_all (\<lambda>c. c \<noteq> CHR 0x0A) l" using assms(1) by (auto simp: list_all_iff)
  moreover have "r = [] \<or> \<not> hd r \<noteq> CHR 0x0A" using assms(2) by simp
  ultimately show ?thesis by (simp add: getline_def takeWhile_digits)
qed

lemma c_str_inline: "inline x \<Longrightarrow> c_str (x @ y) = x @ c_str y"
  unfolding c_str_def inline_def by (subst takeWhile_append2) auto

lemma c_str_hd: "c_str x = '''' \<or> hd (c_str x) = hd x"
  by (cases x) (simp_all add: c_str_def)

lemma host_format3: "parse_format ''%s %d %d'' = [DStr, DBlank, DInt, DBlank, DInt]"
  by code_simp

lemma scan_int_skip: "scan_int (skip_ws s) = scan_int s"
  by (simp add: scan_int_def skip_ws_def)

lemma skip_skip [simp]: "skip_ws (skip_ws s) = skip_ws s"
  by (simp add: skip_ws_def)

lemma scan_no_number:
  assumes "no_number x"
  shows "scan_int x = None"
proof (cases "dropWhile c_isspace x")
  case Nil
  then show ?thesis by (simp add: scan_int_def skip_ws_def split_sign_def del: dropWhile_eq_Nil_conv)
next
  case (Cons c cs)
  then show ?thesis using assms by (simp add: no_number_def scan_int_def skip_ws_def split_sign_def)
qed

subsection \<open>The line that sscanf sees\<close>

lemma blank_hd: "blanks b \<Longrightarrow> b \<noteq> '''' \<Longrightarrow> b @ r = '''' \<or> c_isspace (hd (b @ r))"
  by (cases b) (simp_all add: blanks_def)

lemma blank_no_digit: "blanks b \<Longrightarrow> b \<noteq> '''' \<Longrightarrow> b @ r = '''' \<or> \<not> c_isdigit (hd (b @ r))"
  using blank_hd [of b r] c_isdigit_not_space by blast

lemma scan_int_number:
  assumes "is_int n" and "blanks b" and "r = '''' \<or> \<not> c_isdigit (hd r)"
  shows "scan_int (b @ string_of_int n @ r) = Some (n, r)"
proof -
  have "scan_int (b @ string_of_int n @ r) = scan_int (string_of_int n @ r)"
    using scan_int_skip [of "b @ string_of_int n @ r"] scan_int_skip [of "string_of_int n @ r"] assms(2)
    by (simp add: blanks_def)
  then show ?thesis using scan_int_string_of_int [of n r] assms by (simp add: is_int_def)
qed

lemma host_line_entry:
  assumes "machine_ok mc" and "blanks b1" "b1 \<noteq> ''''" and "is_int n" and "blanks b2" "b2 \<noteq> ''''" and "is_int p"
    and "x = '''' \<or> \<not> c_isdigit (hd x)"
  shows "host_line e (machine_text mc @ b1 @ string_of_int n @ b2 @ string_of_int p @ x) =
    Some (case address_of e mc of None \<Rightarrow> SkipLine | Some a \<Rightarrow> HostLine a n p)"
proof -
  have c: "c_str (machine_text mc @ b1 @ string_of_int n @ b2 @ string_of_int p @ x) =
      machine_text mc @ b1 @ string_of_int n @ b2 @ string_of_int p @ c_str x"
    using assms machine_inline [OF assms(1)] by (simp add: c_str_inline int_inline blanks_def)
  have x: "c_str x = '''' \<or> \<not> c_isdigit (hd (c_str x))" using c_str_hd [of x] assms by (auto simp: c_str_def)
  have "run_format [DStr, DBlank, DInt, DBlank, DInt] (machine_text mc @ b1 @ string_of_int n @ b2 @ string_of_int p @ c_str x) =
      [CStr (machine_text mc), CInt n, CInt p]"
    using assms x run_word [OF machine_word [OF assms(1)] blank_hd [of b1]] scan_int_number [of p b2 "c_str x"]
      scan_int_number [of n b1 "b2 @ string_of_int p @ c_str x"] blank_no_digit [of b2 "string_of_int p @ c_str x"]
    by (simp add: scan_int_skip del: append_is_Nil_conv)
  then show ?thesis
    using machine_inline [OF assms(1)] by (simp add: host_line_def sscanf_def host_format3 c resolve_address [OF assms(1)] split: option.split)
qed

lemma host_line_no_cpus:
  assumes "machine_ok mc" and "inline x" and "x = '''' \<or> c_isspace (hd x)" and "no_number x"
  shows "host_line e (machine_text mc @ x) = Some BadLine"
proof -
  have c: "c_str (machine_text mc @ x) = machine_text mc @ x"
    using c_str_inline [of "machine_text mc @ x" "[]"] assms machine_inline [OF assms(1)] by (simp add: c_str_def)
  have "run_format [DStr, DBlank, DInt, DBlank, DInt] (machine_text mc @ x) = [CStr (machine_text mc)]"
    using run_word [OF machine_word [OF assms(1)] assms(3)] scan_no_number [OF assms(4)] by (simp add: scan_int_skip)
  then show ?thesis
    using machine_inline [OF assms(1)] by (simp add: host_line_def sscanf_def host_format3 c)
qed

lemma host_line_no_power:
  assumes "machine_ok mc" and "blanks b1" "b1 \<noteq> ''''" and "is_int n"
    and "inline x" and "x = '''' \<or> \<not> c_isdigit (hd x)" and "no_number x"
  shows "host_line e (machine_text mc @ b1 @ string_of_int n @ x) = Some BadLine"
proof -
  have c: "c_str (machine_text mc @ b1 @ string_of_int n @ x) = machine_text mc @ b1 @ string_of_int n @ x"
    using c_str_inline [of "machine_text mc @ b1 @ string_of_int n @ x" "[]"] assms machine_inline [OF assms(1)]
    by (simp add: c_str_def int_inline blanks_def)
  have "run_format [DStr, DBlank, DInt, DBlank, DInt] (machine_text mc @ b1 @ string_of_int n @ x) = [CStr (machine_text mc), CInt n]"
    using assms run_word [OF machine_word [OF assms(1)] blank_hd [of b1]] scan_int_number [of n b1 x] scan_no_number [of x]
    by (simp add: scan_int_skip del: append_is_Nil_conv)
  then show ?thesis
    using machine_inline [OF assms(1)] by (simp add: host_line_def sscanf_def host_format3 c)
qed

subsection \<open>The loop over the lines\<close>

definition ins_entries :: "host_info_db \<Rightarrow> (ip \<times> int \<times> int) list \<Rightarrow> host_info_db" where
  "ins_entries m es = fold (\<lambda>(a, v). map_insert a v) es m"

lemma ins_entries_simps [simp]: "ins_entries m [] = m" "ins_entries m ((a, v) # es) = ins_entries (map_insert a v m) es"
  by (simp_all add: ins_entries_def)

lemma find_ins_entries:
  "msorted m \<Longrightarrow> map_find a (ins_entries m es) = (case map_find a m of None \<Rightarrow> map_of es a | Some v \<Rightarrow> Some v)"
  by (induction es arbitrary: m) (auto simp: map_find_insert msorted_insert split: option.split)

lemma read_loop_blanks: "list_all c_isspace b \<Longrightarrow> read_loop e m (b @ r) = read_loop e m r"
  by (subst (1 2) read_loop.simps) simp

lemma read_loop_end: "read_loop e m [] = Some m"
  by (subst read_loop.simps) (simp add: skip_ws_def)

lemma read_loop_remark:
  assumes "CHR 0x0A \<notin> set x" and "r = [] \<or> hd r = CHR 0x0A"
  shows "read_loop e m (CHR ''#'' # x @ r) = read_loop e m (drop 1 r)"
proof -
  have "skip_ws (CHR ''#'' # x @ r) = CHR ''#'' # x @ r" by (simp add: skip_ws_def c_isspace_def)
  moreover have "getline (CHR ''#'' # x @ r) = (CHR ''#'' # x, drop 1 r)"
    using getline_inline [of "CHR ''#'' # x" r] assms by simp
  ultimately show ?thesis by (subst read_loop.simps) simp
qed

lemma read_loop_word:
  assumes "machine_ok mc" and "CHR 0x0A \<notin> set x" and "r = [] \<or> hd r = CHR 0x0A"
  shows "read_loop e m (machine_text mc @ x @ r) = (case host_line e (machine_text mc @ x) of
     None \<Rightarrow> None | Some BadLine \<Rightarrow> Some m | Some SkipLine \<Rightarrow> read_loop e m (drop 1 r)
   | Some (HostLine a n p) \<Rightarrow> read_loop e (map_insert a (n, p) m) (drop 1 r))"
proof -
  have w: "is_word (machine_text mc)" by (rule machine_word [OF assms(1)])
  then have ne: "machine_text mc \<noteq> []" by (simp add: is_word_def)
  then have h: "hd (machine_text mc @ x @ r) \<noteq> CHR ''#''" using machine_inline(2) [OF assms(1)] by simp
  have g: "getline (machine_text mc @ x @ r) = (machine_text mc @ x, drop 1 r)"
    using getline_inline [of "machine_text mc @ x" r] assms(2,3) machine_inline(1) [OF assms(1)] by (simp add: inline_def)
  show ?thesis
    by (subst read_loop.simps) (simp only: skip_ws_word [OF w] Let_def h g ne append_is_Nil_conv if_False simp_thms split_conv)
qed

lemma drop_newline: "r = [] \<or> hd r = CHR 0x0A \<Longrightarrow> read_loop e m (drop 1 r) = read_loop e m r"
  using read_loop_blanks [of "[CHR 0x0A]" e m "drop 1 r"] by (cases r) simp_all

lemma read_line:
  assumes "line_ok l" and r: "r = [] \<or> hd r = CHR 0x0A"
  shows "read_loop e m (line_text l @ r) = (case l of
     Blanks b \<Rightarrow> read_loop e m r
   | Remark b x \<Rightarrow> read_loop e m r
   | Entry b mc b1 n b2 p x \<Rightarrow> (case address_of e mc of None \<Rightarrow> read_loop e m r
       | Some a \<Rightarrow> read_loop e (map_insert a (n, p) m) r)
   | NoCpus b mc x \<Rightarrow> Some m
   | NoPower b mc b1 n x \<Rightarrow> Some m)"
proof (cases l)
  case (Blanks b)
  then show ?thesis using assms by (simp add: read_loop_blanks blanks_def)
next
  case (Remark b x)
  then show ?thesis using assms read_loop_remark [of x r e m] drop_newline [OF r]
    by (simp add: read_loop_blanks blanks_def)
next
  case (Entry b mc b1 n b2 p x)
  have "CHR 0x0A \<notin> set (b1 @ string_of_int n @ b2 @ string_of_int p @ x)"
    using assms Entry int_inline [of n] int_inline [of p] by (simp add: blanks_def inline_def)
  then show ?thesis
    using assms Entry read_loop_word [of mc "b1 @ string_of_int n @ b2 @ string_of_int p @ x" r e m] drop_newline [OF r]
      host_line_entry [of mc b1 n b2 p x e]
    by (auto simp: read_loop_blanks blanks_def split: option.split)
next
  case (NoCpus b mc x)
  then show ?thesis using assms read_loop_word [of mc x r e m] host_line_no_cpus [of mc x e]
    by (simp add: read_loop_blanks blanks_def inline_def)
next
  case (NoPower b mc b1 n x)
  have "CHR 0x0A \<notin> set (b1 @ string_of_int n @ x)"
    using assms NoPower int_inline [of n] by (simp add: blanks_def inline_def)
  then show ?thesis
    using assms NoPower read_loop_word [of mc "b1 @ string_of_int n @ x" r e m] host_line_no_power [of mc b1 n x e]
    by (simp add: read_loop_blanks blanks_def)
qed

lemma read_lines: "list_all line_ok ls \<Longrightarrow> read_loop e m (file_text ls) = Some (ins_entries m (listed e ls))"
proof (induction ls arbitrary: m rule: file_text.induct)
  case 1
  then show ?case by (simp add: read_loop_end)
next
  case (2 l)
  then show ?case using read_line [of l "[]" e m] by (cases l) (auto simp: read_loop_end split: option.split)
next
  case (3 l l' ls)
  have "read_loop e m' (NL @ file_text (l' # ls)) = Some (ins_entries m' (listed e (l' # ls)))" for m'
    using 3 read_loop_blanks [of NL e m' "file_text (l' # ls)"] by (simp add: NL_def)
  moreover have "hd (NL @ file_text (l' # ls)) = CHR 0x0A" by (simp add: NL_def)
  ultimately show ?case
    using 3(2) read_line [of l "NL @ file_text (l' # ls)" e m]
    by (cases l) (simp_all del: listed.simps add: listed.simps(2-6) split: option.split)
qed

lemma readFileIntoDb_text:
  assumes "hosts_text e = Some (file_text ls)" and "list_all line_ok ls"
  shows "\<exists>m. readFileIntoDb e = Some m \<and> (\<forall>a. map_find a m = map_of (listed e ls) a)"
  using assms read_lines [of ls e "[]"] find_ins_entries [of "[]" _ "listed e ls"]
  by (simp add: readFileIntoDb_def map_find_def)

end
