(* ===== verification/Dmucs_Threads.thy ===== *)
theory Dmucs_Threads
  imports Dmucs_Server_Inv
begin

text \<open>
  The two threads that touch the same host: the main thread, while it handles a load report or a
  status message, and \<open>doSilentSearch\<close> of \<open>main.cc\<close>.  \<open>Dmucs_Server\<close> takes a handler as one
  step; in the code only the methods of \<open>DmucsDb\<close> are critical sections, and an event of a host's
  state (\<open>dmucs_host_state.cc\<close>) consists of several of them.

  Here a handler is a list of actions, each a critical section of \<open>DmucsDb\<close>, an access to the host
  outside of one, or a call that is replaced by the actions of its body (\<open>act_step\<close>).  The sweep
  holds the mutex from its beginning to its end and is one action.  An interleaving is a list of
  turns.  The accesses of the main thread outside critical sections are taken one at a time, and the
  statistics thread, which touches only counters that these handlers do not touch, is left out.
\<close>

subsection \<open>The actions of the main thread\<close>

datatype act =
    Avail hptr | Unavail hptr | Overloaded hptr      \<comment> \<open>\<open>state_->avail(this)\<close> and so on\<close>
  | DelCpus hptr int
  | RemoveFromDb DmucsHostState hptr
  | LeaveUnavail hptr                                 \<comment> \<open>what follows \<open>removeFromDb\<close> in \<open>DmucsHostStateUnavail::avail\<close>\<close>
  | SetState hptr DmucsHostState                      \<comment> \<open>\<open>state_ = state\<close>\<close>
  | AddToDb hptr                                      \<comment> \<open>\<open>state_->addToDb(this)\<close>, for the state of that moment\<close>
  | MoveCpus hptr int int
  | SetLoad hptr cfloat cfloat cfloat
  | SetUpdate hptr int
  | GetName env hptr
  | UpdateTier int hptr cfloat cfloat cfloat
  | Revive hptr                                       \<comment> \<open>the test of the load report and its \<open>avail\<close>\<close>

definition change_acts :: "hptr \<Rightarrow> DmucsHostState \<Rightarrow> act list" where
  "change_acts p st = [SetState p st, AddToDb p]"

definition leave_avail_acts :: "hptr \<Rightarrow> DmucsHostState \<Rightarrow> world \<Rightarrow> act list" where
  \<comment> \<open>the bodies of \<open>DmucsHostStateAvail\<close>\<close>
  "leave_avail_acts p st w = [DelCpus p (getTier (hosts w p)), RemoveFromDb StateAvail p] @ change_acts p st"

definition avail_acts :: "hptr \<Rightarrow> world \<Rightarrow> act list" where
  "avail_acts p w = (case h_state (hosts w p) of
     StateAvail \<Rightarrow> []
   | StateUnavail \<Rightarrow> [RemoveFromDb StateUnavail p, LeaveUnavail p]
   | StateSilent \<Rightarrow> RemoveFromDb StateSilent p # change_acts p StateAvail
   | StateOverloaded \<Rightarrow> RemoveFromDb StateOverloaded p # change_acts p StateAvail)"

definition unavail_acts :: "hptr \<Rightarrow> world \<Rightarrow> act list" where
  "unavail_acts p w = (case h_state (hosts w p) of
     StateAvail \<Rightarrow> leave_avail_acts p StateUnavail w
   | StateUnavail \<Rightarrow> []
   | StateSilent \<Rightarrow> RemoveFromDb StateSilent p # change_acts p StateUnavail
   | StateOverloaded \<Rightarrow> RemoveFromDb StateOverloaded p # change_acts p StateUnavail)"

definition overloaded_acts :: "hptr \<Rightarrow> world \<Rightarrow> act list" where
  "overloaded_acts p w =
     (if h_state (hosts w p) = StateAvail then leave_avail_acts p StateOverloaded w else [])"

definition leave_unavail_acts :: "hptr \<Rightarrow> world \<Rightarrow> act list" where
  "leave_unavail_acts p w =
     change_acts p (if getTier (hosts w p) = 0 then StateOverloaded else StateAvail)"

definition update_acts :: "int \<Rightarrow> hptr \<Rightarrow> cfloat \<Rightarrow> cfloat \<Rightarrow> cfloat \<Rightarrow> world \<Rightarrow> act list" where
  "update_acts t p ldAvg1 ldAvg5 ldAvg10 w =
     (let h = hosts w p;
          n = float_of_int (h_ncpus h);
          a = fdiv ldAvg1 n; b = fdiv ldAvg5 n; c = fdiv ldAvg10 n;
          newTier = calcTier a b c (h_pindex h);
          oldTier = getTier h
      in (if newTier \<noteq> oldTier then
            (if newTier = 0 then [Overloaded p] else [MoveCpus p oldTier newTier])
          else []) @ [SetLoad p a b c, SetUpdate p t])"

definition revive_acts :: "hptr \<Rightarrow> world \<Rightarrow> act list" where
  "revive_acts p w =
     (if isSilent (hosts w p) \<or> (isOverloaded (hosts w p) \<and> getTier (hosts w p) \<noteq> 0) then [Avail p] else [])"

fun act_step :: "act \<Rightarrow> world \<Rightarrow> (act list \<times> world) option" where
  \<comment> \<open>the actions a call is replaced by, and the world\<close>
  "act_step (Avail p) w = Some (avail_acts p w, w)"
| "act_step (Unavail p) w = Some (unavail_acts p w, w)"
| "act_step (Overloaded p) w = Some (overloaded_acts p w, w)"
| "act_step (DelCpus p tier) w = map_option (Pair []) (DmucsDb_delCpusFromTier p tier (h_ip (hosts w p)) w)"
| "act_step (RemoveFromDb st p) w = map_option (Pair []) (removeFromDb st p w)"
| "act_step (LeaveUnavail p) w = Some (leave_unavail_acts p w, w)"
| "act_step (SetState p st) w = Some ([], upd_host p (h_state_update (\<lambda>_. st)) w)"
| "act_step (AddToDb p) w = map_option (Pair []) (addToDb (h_state (hosts w p)) p w)"
| "act_step (MoveCpus p oldTier newTier) w = map_option (Pair []) (DmucsDb_moveCpus p oldTier newTier w)"
| "act_step (SetLoad p a b c) w = Some ([], upd_host p (set_ldavgs a b c) w)"
| "act_step (SetUpdate p t) w = Some ([], upd_host p (h_lastUpdate_update (\<lambda>_. t)) w)"
| "act_step (GetName e p) w = Some ([], resolve_name e p w)"
| "act_step (UpdateTier t p a b c) w = Some (update_acts t p a b c w, w)"
| "act_step (Revive p) w = Some (revive_acts p w, w)"

definition load_acts :: "env \<Rightarrow> hptr \<Rightarrow> cfloat \<Rightarrow> cfloat \<Rightarrow> cfloat \<Rightarrow> act list" where
  \<comment> \<open>the \<open>try\<close> of \<open>DmucsLdAvgMsg::handle\<close> once the host has been found\<close>
  "load_acts e p a b c = [GetName e p, UpdateTier (now e) p a b c, Revive p]"

definition status_acts :: "host_status_t \<Rightarrow> hptr \<Rightarrow> act list" where
  \<comment> \<open>what \<open>DmucsStatusMsg::handle\<close> does with the host it has found\<close>
  "status_acts st p = [if st = STATUS_AVAILABLE then Avail p else Unavail p]"

subsection \<open>Without interruption\<close>

fun act_weight :: "act \<Rightarrow> nat" where
  "act_weight (Avail p) = 5"
| "act_weight (Unavail p) = 5"
| "act_weight (Overloaded p) = 5"
| "act_weight (LeaveUnavail p) = 3"
| "act_weight (UpdateTier t p a b c) = 8"
| "act_weight (Revive p) = 6"
| "act_weight a = 1"

named_theorems act_defs
lemmas [act_defs] = change_acts_def leave_avail_acts_def avail_acts_def unavail_acts_def overloaded_acts_def
  leave_unavail_acts_def update_acts_def revive_acts_def Let_def

lemma act_weight_decreases:
  "act_step a w = Some (bs, w') \<Longrightarrow> sum_list (map act_weight bs) < act_weight a"
  by (cases a) (auto simp: act_defs split: DmucsHostState.splits if_splits)

function run_acts :: "act list \<Rightarrow> world \<Rightarrow> world option" where
  "run_acts [] w = Some w"
| "run_acts (a # as) w = (case act_step a w of None \<Rightarrow> None | Some (bs, w') \<Rightarrow> run_acts (bs @ as) w')"
  by pat_completeness auto
termination
  by (relation "measure (\<lambda>(as, w). sum_list (map act_weight as))") (auto dest!: act_weight_decreases)

declare run_acts.simps(2) [simp del]

lemma run_acts_append: "run_acts (as @ bs) w = Option.bind (run_acts as w) (run_acts bs)"
proof (induction as w rule: run_acts.induct)
  case (2 a as w)
  then show ?case by (cases "act_step a w") (auto simp: run_acts.simps(2))
qed simp

subsection \<open>With the sweep\<close>

datatype turn = MainTurn | SweepTurn int      \<comment> \<open>a sweep with the time its clock shows\<close>

fun turn_step :: "turn \<Rightarrow> act list \<times> world \<Rightarrow> (act list \<times> world) option" where
  "turn_step MainTurn ([], w) = Some ([], w)"
| "turn_step MainTurn (a # as, w) = map_option (\<lambda>(bs, w'). (bs @ as, w')) (act_step a w)"
| "turn_step (SweepTurn t) (as, w) = map_option (Pair as) (DmucsDb_handleSilentHosts t w)"

fun run_turns :: "turn list \<Rightarrow> act list \<times> world \<Rightarrow> (act list \<times> world) option" where
  "run_turns [] c = Some c"
| "run_turns (u # us) c = Option.bind (turn_step u c) (run_turns us)"

end
