(* ===== verification/Dmucs_Threads_Lemmas.thy ===== *)
theory Dmucs_Threads_Lemmas
  imports Dmucs_Threads
begin

text \<open>
  What the interleavings of \<open>Dmucs_Threads\<close> can do.  Run without interruption, the actions of a
  handler are the handler of \<open>Dmucs_Server\<close>; under every interleaving the handler ends and nothing
  crashes; and a sweep that finds no silent host has no effect wherever it comes.
\<close>

subsection \<open>Without interruption\<close>

lemma run_change: "run_acts (change_acts p st @ as) w = Option.bind (changeState p st w) (run_acts as)"
  by (cases "addToDb st p (upd_host p (h_state_update (\<lambda>_. st)) w)")
    (simp_all add: change_acts_def run_acts.simps(2) changeState_def)

lemmas run_change_fun = ext [of "run_acts (change_acts p st @ as)" for p st as, OF run_change]

lemma run_remove:
  "run_acts (RemoveFromDb st p # as) w = Option.bind (removeFromDb st p w) (run_acts as)"
  by (cases "removeFromDb st p w") (simp_all add: run_acts.simps(2))

lemma run_leave_avail:
  "run_acts (leave_avail_acts p st w @ as) w = Option.bind (do {
     w1 \<leftarrow> DmucsDb_delCpusFromTier p (getTier (hosts w p)) (h_ip (hosts w p)) w;
     w2 \<leftarrow> removeFromDb StateAvail p w1;
     changeState p st w2 }) (run_acts as)"
  by (cases "DmucsDb_delCpusFromTier p (getTier (hosts w p)) (h_ip (hosts w p)) w")
    (simp_all add: leave_avail_acts_def run_acts.simps(2) [of "DelCpus p t" for t] run_remove run_change_fun)

lemma run_unavail [simp]: "run_acts (Unavail p # as) w = Option.bind (DmucsHost_unavail p w) (run_acts as)"
  by (simp add: run_acts.simps(2) [of "Unavail p"] unavail_acts_def DmucsHost_unavail_def run_leave_avail run_remove run_change_fun
      StateAvail_unavail_def StateSilent_unavail_def StateOverloaded_unavail_def split: DmucsHostState.split)

lemma run_overloaded [simp]: "run_acts (Overloaded p # as) w = Option.bind (DmucsHost_overloaded p w) (run_acts as)"
  by (simp add: run_acts.simps(2) [of "Overloaded p"] overloaded_acts_def DmucsHost_overloaded_def run_leave_avail
      StateAvail_overloaded_def split: DmucsHostState.split)

lemma run_leave_unavail:
  "run_acts (LeaveUnavail p # as) w =
     Option.bind (changeState p (if getTier (hosts w p) = 0 then StateOverloaded else StateAvail) w) (run_acts as)"
  by (simp add: run_acts.simps(2) [of "LeaveUnavail p"] leave_unavail_acts_def run_change)

lemmas run_leave_unavail_fun = ext [of "run_acts (LeaveUnavail p # as)" for p as, OF run_leave_unavail]

lemma run_avail [simp]: "run_acts (Avail p # as) w = Option.bind (DmucsHost_avail p w) (run_acts as)"
  by (simp add: run_acts.simps(2) [of "Avail p"] avail_acts_def DmucsHost_avail_def run_remove run_change_fun run_leave_unavail_fun
      StateUnavail_avail_def StateSilent_avail_def StateOverloaded_avail_def Let_def if_distrib [of "\<lambda>s. changeState p s w" for w]
      split: DmucsHostState.split)

lemma run_simple [simp]:
  "run_acts (MoveCpus p o' n # as) w = Option.bind (DmucsDb_moveCpus p o' n w) (run_acts as)"
  "run_acts (SetLoad p a b c # as) w = run_acts as (upd_host p (set_ldavgs a b c) w)"
  "run_acts (SetUpdate p t # as) w = run_acts as (upd_host p (h_lastUpdate_update (\<lambda>_. t)) w)"
  "run_acts (GetName e p # as) w = run_acts as (resolve_name e p w)"
  by (cases "DmucsDb_moveCpus p o' n w"; simp add: run_acts.simps(2))+

lemma run_update [simp]:
  "run_acts (UpdateTier t p a b c # as) w = Option.bind (updateTier t p a b c w) (run_acts as)"
  by (auto simp: run_acts.simps(2) [of "UpdateTier t p a b c"] update_acts_def updateTier_def Let_def map_option_case
      split: option.split)

lemma run_revive [simp]: "run_acts (Revive p # as) w = Option.bind (revive p w) (run_acts as)"
  by (simp add: run_acts.simps(2) [of "Revive p"] revive_acts_def revive_def)

lemma run_acts_Nil [simp]: "run_acts [] = Some"
  by (simp add: fun_eq_iff)

lemma run_load: "run_acts (load_acts e p a b c) w =
    Option.bind (updateTier (now e) p a b c (resolve_name e p w)) (revive p)"
  by (simp add: load_acts_def fun_eq_iff cong: bind_option_cong)

subsection \<open>What every action and the sweep keep\<close>

text \<open>
  No action and no sweep adds or drops a host, or changes its property or its number of cpus; this
  is enough for the next one to find what it looks for.
\<close>

definition same_known :: "world \<Rightarrow> world \<Rightarrow> bool" where
  "same_known w w' \<longleftrightarrow> map fst (dbDb w') = map fst (dbDb w) \<and>
     (\<forall>d. map_option allHosts (map_find d (dbDb w')) = map_option allHosts (map_find d (dbDb w))) \<and>
     (\<forall>q. h_dprop (hosts w' q) = h_dprop (hosts w q) \<and> h_ncpus (hosts w' q) = h_ncpus (hosts w q))"

definition tinv :: "world \<Rightarrow> bool" where
  "tinv w \<longleftrightarrow> msorted (dbDb w) \<and> (\<forall>d db p. map_find d (dbDb w) = Some db \<longrightarrow> p \<in> set (allHosts db) \<longrightarrow>
     h_dprop (hosts w p) = d \<and> 0 \<le> h_ncpus (hosts w p))"

definition safe :: "world \<Rightarrow> world option \<Rightarrow> bool" where
  "safe w r \<longleftrightarrow> (\<exists>w'. r = Some w' \<and> same_known w w')"

lemma winv_tinv: "winv w \<Longrightarrow> tinv w"
  using winv_D(1,3) [of w] dinv_host by (fastforce simp: tinv_def)

lemma same_known_refl [simp]: "same_known w w"
  by (simp add: same_known_def)

lemma same_known_trans: "same_known a b \<Longrightarrow> same_known b c \<Longrightarrow> same_known a c"
  by (simp add: same_known_def)

lemma same_known_find:
  assumes "same_known w w'" and "map_find d (dbDb w) = Some db"
  shows "\<exists>db'. map_find d (dbDb w') = Some db' \<and> allHosts db' = allHosts db"
proof -
  have "map_option allHosts (map_find d (dbDb w')) = Some (allHosts db)"
    using assms by (simp add: same_known_def)
  then show ?thesis by auto
qed

lemma same_known_sym: "same_known w w' \<Longrightarrow> same_known w' w"
  by (simp add: same_known_def)

lemma same_known_knows: "same_known w w' \<Longrightarrow> knows w p \<Longrightarrow> knows w' p"
  unfolding knows_def using same_known_find [of w w' "h_dprop (hosts w p)"] by (auto simp: same_known_def)

lemma same_known_tinv: "same_known w w' \<Longrightarrow> tinv w \<Longrightarrow> tinv w'"
proof -
  assume s: "same_known w w'" and t: "tinv w"
  have "msorted (dbDb w')" using s t by (simp add: tinv_def same_known_def msorted_def ksorted_def)
  moreover have "h_dprop (hosts w' p) = d \<and> 0 \<le> h_ncpus (hosts w' p)"
    if f: "map_find d (dbDb w') = Some db'" "p \<in> set (allHosts db')" for d db' p
  proof -
    obtain db where "map_find d (dbDb w) = Some db" "allHosts db = allHosts db'"
      using same_known_find [OF same_known_sym [OF s] f(1)] by blast
    with t f(2) s show ?thesis by (simp add: tinv_def same_known_def)
  qed
  ultimately show ?thesis by (simp add: tinv_def)
qed

lemma knows_find:
  assumes "tinv w" and "knows w p"
  obtains db where "map_find (h_dprop (hosts w p)) (dbDb w) = Some db" "p \<in> set (allHosts db)" "0 \<le> h_ncpus (hosts w p)"
  using assms unfolding knows_def tinv_def by blast

lemma safe_on_db:
  assumes "map_find d (dbDb w) = Some db" and "f db = Some db'" and "allHosts db' = allHosts db"
  shows "safe w (on_db d f w)"
  using assms by (auto simp: safe_def on_db_put same_known_def put_db_def map_find_update)

lemma safe_bind:
  assumes "safe w r" and "\<And>w'. r = Some w' \<Longrightarrow> same_known w w' \<Longrightarrow> safe w' (f w')"
  shows "safe w (Option.bind r f)"
  using assms unfolding safe_def by (metis bind.bind_lunit same_known_trans)

lemma safe_Some [simp]: "safe w (Some w') \<longleftrightarrow> same_known w w'"
  by (simp add: safe_def)

lemma same_known_upd_host:
  "(\<And>h. h_dprop (f h) = h_dprop h \<and> h_ncpus (f h) = h_ncpus h) \<Longrightarrow> same_known w (upd_host p f w)"
  by (simp add: same_known_def)

lemma safe_on_host:
  assumes "tinv w" and "knows w p"
    and "\<And>db. 0 \<le> h_ncpus (hosts w p) \<Longrightarrow> \<exists>db'. f db = Some db' \<and> allHosts db' = allHosts db"
  shows "safe w (on_db (h_dprop (hosts w p)) f w)"
proof (rule knows_find [OF assms(1,2)])
  fix db assume db: "map_find (h_dprop (hosts w p)) (dbDb w) = Some db" "0 \<le> h_ncpus (hosts w p)"
  obtain db' where "f db = Some db'" "allHosts db' = allHosts db" using assms(3) [OF db(2), of db] by blast
  with db show ?thesis by (intro safe_on_db)
qed

lemma safe_delCpus: "tinv w \<Longrightarrow> knows w p \<Longrightarrow> safe w (DmucsDb_delCpusFromTier p t x w)"
  unfolding DmucsDb_delCpusFromTier_def by (erule (1) safe_on_host) (simp add: delCpusFromTier_eq)

lemma safe_moveCpus: "tinv w \<Longrightarrow> knows w p \<Longrightarrow> safe w (DmucsDb_moveCpus p t t' w)"
  unfolding DmucsDb_moveCpus_def
  by (erule (1) safe_on_host) (simp add: DpropDb_moveCpus_def delCpusFromTier_eq addCpusToTier_def Let_def)

lemma safe_removeFromDb: "tinv w \<Longrightarrow> knows w p \<Longrightarrow> safe w (removeFromDb st p w)"
  by (cases st) (auto simp: DmucsDb_delFromAvailDb_def DmucsDb_delFromUnavailDb_def DmucsDb_delFromSilentDb_def
      DmucsDb_delFromOverloadedDb_def DpropDb_delFromAvailDb_def DpropDb_delFromUnavailDb_def DpropDb_delFromSilentDb_def
      DpropDb_delFromOverloadedDb_def split: option.split intro!: safe_on_host)

lemma safe_addToDb: "tinv w \<Longrightarrow> knows w p \<Longrightarrow> safe w (addToDb st p w)"
  unfolding addToDb_on_db
  by (erule (1) safe_on_host) (cases st, auto simp: enter_db_def DpropDb_addToAvailDb_def DpropDb_addToUnavailDb_def
      DpropDb_addToSilentDb_def DpropDb_addToOverloadedDb_def addCpusToTier_def Let_def)

lemma safe_changeState: "tinv w \<Longrightarrow> knows w p \<Longrightarrow> safe w (changeState p st w)"
proof -
  assume a: "tinv w" "knows w p"
  let ?w = "upd_host p (h_state_update (\<lambda>_. st)) w"
  have s: "same_known w ?w" by (rule same_known_upd_host) simp
  from safe_addToDb [OF same_known_tinv [OF s a(1)] same_known_knows [OF s a(2)], of st] s
  show ?thesis unfolding changeState_def safe_def by (blast intro: same_known_trans)
qed

lemma known_hosts_find: "msorted (dbDb w) \<Longrightarrow>
    p \<in> known_hosts w \<longleftrightarrow> (\<exists>d db. map_find d (dbDb w) = Some db \<and> p \<in> set (allHosts db))"
  by (force simp: known_hosts_def map_find_iff)

lemma tinv_knows:
  assumes "tinv w"
  shows "knows w p \<longleftrightarrow> p \<in> known_hosts w"
proof -
  have "msorted (dbDb w)" using assms by (simp add: tinv_def)
  then show ?thesis using assms unfolding known_hosts_find [OF \<open>msorted (dbDb w)\<close>] knows_def tinv_def by blast
qed

lemma same_known_hosts: "tinv w \<Longrightarrow> same_known w w' \<Longrightarrow> known_hosts w' = known_hosts w"
  using tinv_knows [of w] tinv_knows [of w'] same_known_knows [of w w'] same_known_knows [of w' w]
    same_known_tinv [of w w'] same_known_sym [of w w'] by blast

subsection \<open>The sweep\<close>

lemma safe_silent: 
  assumes "tinv w" and "knows w p"
  shows "safe w (DmucsHost_silent p w)"
proof -
  have r: "safe w (Option.bind (removeFromDb st p w) (changeState p StateSilent))"
    if "tinv w" "knows w p" for st w
    by (rule safe_bind [OF safe_removeFromDb [OF that]])
      (rule safe_changeState [OF same_known_tinv same_known_knows], (assumption | rule that)+)
  have "safe w (StateAvail_silent p w)"
    unfolding StateAvail_silent_def
    by (rule safe_bind [OF safe_delCpus [OF assms]])
      (rule r [OF same_known_tinv same_known_knows], (assumption | rule assms)+)
  with r [OF assms] show ?thesis
    by (simp add: DmucsHost_silent_def StateOverloaded_silent_def del: removeFromDb.simps split: DmucsHostState.split)
qed

lemma safe_silent_loop:
  "tinv w \<Longrightarrow> (\<And>p. p \<in> set ps \<Longrightarrow> knows w p) \<Longrightarrow> safe w (silent_loop t ps w)"
proof (induction ps arbitrary: w)
  case (Cons p ps)
  show ?case
  proof (cases "seemsDown t (hosts w p)")
    case True
    have "safe w (Option.bind (DmucsHost_silent p w) (silent_loop t ps))"
      using Cons by (intro safe_bind [OF safe_silent]) (auto intro: same_known_tinv same_known_knows)
    with True show ?thesis by simp
  next
    case False
    with Cons show ?thesis by simp
  qed
qed simp

lemma safe_sweep_loop:
  "tinv w \<Longrightarrow> set ds \<subseteq> fst ` set (dbDb w) \<Longrightarrow> safe w (sweep_loop t ds w)"
proof (induction ds arbitrary: w)
  case (Cons d ds)
  obtain db where db: "map_find d (dbDb w) = Some db"
    using Cons.prems(2) map_find_None [of d "dbDb w"] by (cases "map_find d (dbDb w)") auto
  have "knows w p" if "p \<in> set (allHosts db)" for p
    using Cons.prems(1) db that unfolding tinv_def knows_def by metis
  then have "safe w (DpropDb_handleSilentHosts t d w)"
    using db safe_silent_loop [OF Cons.prems(1), of "allHosts db" t] by (simp add: DpropDb_handleSilentHosts_def)
  then have "safe w (Option.bind (DpropDb_handleSilentHosts t d w) (sweep_loop t ds))"
  proof (rule safe_bind)
    fix w' assume k: "same_known w w'"
    then have m: "map fst (dbDb w') = map fst (dbDb w)" by (simp add: same_known_def)
    show "safe w' (sweep_loop t ds w')"
      using Cons.prems(2) arg_cong [OF m, of set] by (intro Cons.IH same_known_tinv [OF k Cons.prems(1)]) simp
  qed
  then show ?case by simp
qed simp

lemma safe_sweep: "tinv w \<Longrightarrow> safe w (DmucsDb_handleSilentHosts t w)"
  unfolding DmucsDb_handleSilentHosts_def by (rule safe_sweep_loop) simp_all

subsection \<open>Interleavings\<close>

fun act_host :: "act \<Rightarrow> hptr" where
  "act_host (Avail p) = p" | "act_host (Unavail p) = p" | "act_host (Overloaded p) = p"
| "act_host (DelCpus p t) = p" | "act_host (RemoveFromDb st p) = p" | "act_host (LeaveUnavail p) = p"
| "act_host (SetState p st) = p" | "act_host (AddToDb p) = p" | "act_host (MoveCpus p t t') = p"
| "act_host (SetLoad p a b c) = p" | "act_host (SetUpdate p t) = p" | "act_host (GetName e p) = p"
| "act_host (UpdateTier t p a b c) = p" | "act_host (Revive p) = p"

lemma act_step_host: "act_step a w = Some (bs, w') \<Longrightarrow> b \<in> set bs \<Longrightarrow> act_host b = act_host a"
  by (cases a) (auto simp: act_defs split: DmucsHostState.splits if_splits)

lemma resolve_name_keeps: "h_dprop (snd (DmucsHost_getName e h)) = h_dprop h \<and> h_ncpus (snd (DmucsHost_getName e h)) = h_ncpus h \<and>
    h_lastUpdate (snd (DmucsHost_getName e h)) = h_lastUpdate h"
  by (simp add: DmucsHost_getName_def Let_def)

lemma act_step_safe:
  assumes "tinv w" and "knows w (act_host a)"
  shows "\<exists>bs w'. act_step a w = Some (bs, w') \<and> same_known w w'"
  using assms safe_delCpus [of w] safe_removeFromDb [of w] safe_addToDb [of w] safe_moveCpus [of w]
  by (cases a) (fastforce simp: safe_def resolve_name_def resolve_name_keeps set_ldavgs_def intro!: same_known_upd_host)+

definition mains :: "turn list \<Rightarrow> nat" where
  "mains us = length (filter ((=) MainTurn) us)"

definition knows_acts :: "world \<Rightarrow> act list \<Rightarrow> bool" where
  "knows_acts w as \<longleftrightarrow> list_all (\<lambda>a. knows w (act_host a)) as"

lemma knows_acts_step:
  assumes "tinv w" and "knows_acts w (a # as)"
  obtains bs w' where "act_step a w = Some (bs, w')" "same_known w w'" "tinv w'" "knows_acts w' (bs @ as)"
    "sum_list (map act_weight (bs @ as)) < sum_list (map act_weight (a # as))"
proof -
  obtain bs w' where s: "act_step a w = Some (bs, w')" "same_known w w'"
    using act_step_safe [of w a] assms by (auto simp: knows_acts_def)
  have "knows_acts w' (bs @ as)"
    using assms(2) act_step_host [OF s(1)] by (auto simp: knows_acts_def list_all_iff intro: same_known_knows [OF s(2)])
  with that [OF s same_known_tinv [OF s(2) assms(1)]] act_weight_decreases [OF s(1)] show ?thesis by simp
qed

lemma run_turns_safe:
  assumes "tinv w" and "knows_acts w as"
  shows "\<exists>as' w'. run_turns us (as, w) = Some (as', w') \<and> same_known w w' \<and>
    (sum_list (map act_weight as) \<le> mains us \<longrightarrow> as' = [])"
  using assms
proof (induction us arbitrary: as w)
  case Nil
  have "as = []" if "sum_list (map act_weight as) = 0"
  proof (cases as)
    case (Cons a bs)
    with that show ?thesis by (cases a) simp_all
  qed simp
  then show ?case by (simp add: mains_def)
next
  case (Cons u us)
  show ?case
  proof (cases u)
    case MainTurn
    show ?thesis
    proof (cases as)
      case Nil
      with Cons.IH [OF Cons.prems(1), of "[]"] MainTurn show ?thesis by (auto simp: knows_acts_def)
    next
      case (Cons a as1)
      obtain bs w1 where s: "act_step a w = Some (bs, w1)" "same_known w w1" "tinv w1" "knows_acts w1 (bs @ as1)"
        "sum_list (map act_weight (bs @ as1)) < sum_list (map act_weight (a # as1))"
        using knows_acts_step [OF Cons.prems(1)] Cons.prems(2) Cons by metis
      obtain as' w' where r: "run_turns us (bs @ as1, w1) = Some (as', w')" "same_known w1 w'"
        "sum_list (map act_weight (bs @ as1)) \<le> mains us \<longrightarrow> as' = []"
        using Cons.IH [OF s(3,4)] by blast
      have "mains (u # us) = Suc (mains us)" using MainTurn by (simp add: mains_def)
      with s(5) r(3) have "sum_list (map act_weight as) \<le> mains (u # us) \<longrightarrow> as' = []" using Cons by simp
      with r(1,2) s(1,2) Cons MainTurn same_known_trans show ?thesis by auto
    qed
  next
    case (SweepTurn t)
    obtain w1 where w1: "DmucsDb_handleSilentHosts t w = Some w1" "same_known w w1"
      using safe_sweep [OF Cons.prems(1), of t] by (auto simp: safe_def)
    have "knows_acts w1 as" using Cons.prems(2) same_known_knows [OF w1(2)] by (auto simp: knows_acts_def list_all_iff)
    from Cons.IH [OF same_known_tinv [OF w1(2) Cons.prems(1)] this] w1 SweepTurn same_known_trans [OF w1(2)]
    show ?thesis by (auto simp: mains_def)
  qed
qed

subsection \<open>A sweep that finds nobody silent\<close>

definition fresh :: "int set \<Rightarrow> world \<Rightarrow> bool" where
  "fresh T w \<longleftrightarrow> (\<forall>t\<in>T. \<forall>p\<in>known_hosts w. \<not> seemsDown t (hosts w p))"

definition sweep_times :: "turn list \<Rightarrow> int set" where
  "sweep_times us = {t. SweepTurn t \<in> set us}"

fun act_now :: "act \<Rightarrow> int option" where
  "act_now (SetUpdate p t) = Some t"
| "act_now (UpdateTier t p a b c) = Some t"
| "act_now a = None"

definition acts_fresh :: "int set \<Rightarrow> act list \<Rightarrow> bool" where
  "acts_fresh T as \<longleftrightarrow> (\<forall>t\<in>T. \<forall>a\<in>set as. \<forall>t0. act_now a = Some t0 \<longrightarrow> t - t0 \<le> DMUCS_HOST_SILENT_TIME)"

lemma on_db_hosts: "on_db d f w = Some w' \<Longrightarrow> hosts w' = hosts w"
  by (auto simp: on_db_def bind_eq_Some_conv)

lemma removeFromDb_hosts: "removeFromDb st p w = Some w' \<Longrightarrow> hosts w' = hosts w"
  by (cases st) (auto dest!: on_db_hosts simp: DmucsDb_delFromAvailDb_def DmucsDb_delFromUnavailDb_def
      DmucsDb_delFromSilentDb_def DmucsDb_delFromOverloadedDb_def)

lemma act_step_lastUpdate:
  assumes "act_step a w = Some (bs, w')"
  shows "h_lastUpdate (hosts w' q) = h_lastUpdate (hosts w q) \<or> act_now a = Some (h_lastUpdate (hosts w' q))"
  using assms
  by (cases a) (auto simp: resolve_name_def resolve_name_keeps set_ldavgs_def DmucsDb_delCpusFromTier_def DmucsDb_moveCpus_def
      addToDb_on_db dest!: on_db_hosts removeFromDb_hosts)

lemma act_step_now: "act_step a w = Some (bs, w') \<Longrightarrow> b \<in> set bs \<Longrightarrow> act_now b = Some t \<Longrightarrow> act_now a = Some t"
  by (cases a) (auto simp: act_defs split: DmucsHostState.splits if_splits)

lemma sweep_fresh:
  assumes "tinv w" and "fresh T w" and "t \<in> T"
  shows "DmucsDb_handleSilentHosts t w = Some w"
proof -
  have l: "silent_loop t ps w = Some w" if "set ps \<subseteq> known_hosts w" for ps
    using that assms(2,3) by (induction ps) (auto simp: fresh_def)
  have "sweep_loop t ds w = Some w" if "set ds \<subseteq> fst ` set (dbDb w)" for ds
    using that
  proof (induction ds)
    case (Cons d ds)
    obtain db where db: "map_find d (dbDb w) = Some db"
      using Cons.prems map_find_None [of d "dbDb w"] by (cases "map_find d (dbDb w)") auto
    have "set (allHosts db) \<subseteq> known_hosts w"
      using known_hosts_find [of w] db assms(1) by (auto simp: tinv_def)
    with Cons db l show ?case by (simp add: DpropDb_handleSilentHosts_def)
  qed simp
  then show ?thesis by (simp add: DmucsDb_handleSilentHosts_def)
qed

lemma run_turns_fresh:
  assumes "tinv w" and "knows_acts w as" and "fresh T w" and "acts_fresh T as" and "sweep_times us \<subseteq> T"
    and "run_turns us (as, w) = Some ([], w')"
  shows "run_acts as w = Some w'"
  using assms
proof (induction us arbitrary: as w)
  case (Cons u us)
  have T: "sweep_times us \<subseteq> T" using Cons.prems(5) by (auto simp: sweep_times_def)
  show ?case
  proof (cases u)
    case MainTurn
    show ?thesis
    proof (cases as)
      case Nil
      with Cons.IH [OF Cons.prems(1-4) T] Cons.prems MainTurn show ?thesis by simp
    next
      case (Cons a as1)
      obtain bs w1 where s: "act_step a w = Some (bs, w1)" "same_known w w1" "tinv w1" "knows_acts w1 (bs @ as1)"
        using knows_acts_step [OF Cons.prems(1)] Cons.prems(2) Cons by metis
      have n: "t - t0 \<le> DMUCS_HOST_SILENT_TIME" if "t \<in> T" "act_now a = Some t0" for t t0
        using Cons.prems(4) Cons that by (auto simp: acts_fresh_def)
      have "\<not> seemsDown t (hosts w1 p)" if "t \<in> T" "p \<in> known_hosts w" for t p
      proof -
        have "t - h_lastUpdate (hosts w p) \<le> DMUCS_HOST_SILENT_TIME"
          using Cons.prems(3) that by (simp add: fresh_def seemsDown_def not_less)
        with n [OF that(1)] act_step_lastUpdate [OF s(1), of p] show ?thesis by (auto simp: seemsDown_def)
      qed
      then have "fresh T w1" using same_known_hosts [OF Cons.prems(1) s(2)] by (simp add: fresh_def)
      moreover have "acts_fresh T (bs @ as1)"
        using Cons.prems(4) Cons act_step_now [OF s(1)] n by (auto simp: acts_fresh_def)
      ultimately have "run_acts (bs @ as1) w1 = Some w'"
        using Cons.IH [OF s(3,4) _ _ T] Cons.prems(6) s(1) Cons MainTurn by simp
      with s(1) Cons show ?thesis by (simp add: run_acts.simps(2))
    qed
  next
    case (SweepTurn t)
    then have "t \<in> T" using Cons.prems(5) by (auto simp: sweep_times_def)
    from sweep_fresh [OF Cons.prems(1,3) this] Cons.IH [OF Cons.prems(1-4) T] Cons.prems(6) SweepTurn
    show ?thesis by simp
  qed
qed simp

subsection \<open>The handlers\<close>

lemma load_report_acts:
  assumes "DmucsDb_getHost host d w = Inr p"
  shows "load_report e host a b c d w inst = map_option (\<lambda>w'. (w', inst)) (run_acts (load_acts e p a b c) w)"
  using assms by (simp add: load_report_def run_load map_conv_bind_option o_def)

lemma status_report_acts:
  assumes "DmucsDb_getHost host d w = Inr p"
  shows "status_report e host st d w inst = map_option (\<lambda>w'. (w', inst)) (run_acts (status_acts st p) w)"
proof -
  have "DmucsDb_haveHost host d w"
    using assms by (auto simp: DmucsDb_getHost_def DmucsDb_haveHost_def DpropDb_getHost_def DpropDb_haveHost_def
        split: option.splits)
  with assms show ?thesis by (simp add: status_report_def status_acts_def)
qed

definition handler_acts :: "hptr \<Rightarrow> int \<Rightarrow> act list \<Rightarrow> bool" where
  \<comment> \<open>what a handler that has found the host \<open>p\<close> at the time \<open>t\<close> still does\<close>
  "handler_acts p t as \<longleftrightarrow> (\<exists>e a b c. now e = t \<and> as = load_acts e p a b c) \<or> (\<exists>st. as = status_acts st p)"

lemma handler_actsI: "handler_acts p (now e) (load_acts e p a b c)" "handler_acts p t (status_acts st p)"
  by (auto simp: handler_acts_def)

lemma handler_acts_weight: "handler_acts p t as \<Longrightarrow> sum_list (map act_weight as) \<le> 15"
  by (auto simp: handler_acts_def load_acts_def status_acts_def)

lemma handler_acts_host: "handler_acts p t as \<Longrightarrow> knows w p \<Longrightarrow> knows_acts w as"
  by (auto simp: handler_acts_def load_acts_def status_acts_def knows_acts_def)

lemma handler_acts_fresh:
  "handler_acts p t0 as \<Longrightarrow> (\<And>t. t \<in> T \<Longrightarrow> t - t0 \<le> DMUCS_HOST_SILENT_TIME) \<Longrightarrow> acts_fresh T as"
  by (auto simp: handler_acts_def load_acts_def status_acts_def acts_fresh_def split: if_splits)

lemma handler_interrupted:
  assumes "winv w" and "knows w p" and "handler_acts p t as" and "15 \<le> mains us"
  shows "\<exists>w'. run_turns us (as, w) = Some ([], w') \<and> known_hosts w' = known_hosts w"
proof -
  have t: "tinv w" using assms(1) by (rule winv_tinv)
  obtain as' w' where r: "run_turns us (as, w) = Some (as', w')" "same_known w w'"
      "sum_list (map act_weight as) \<le> mains us \<longrightarrow> as' = []"
    using run_turns_safe [OF t handler_acts_host [OF assms(3,2)]] by blast
  have "sum_list (map act_weight as) \<le> mains us" using handler_acts_weight [OF assms(3)] assms(4) by simp
  with r same_known_hosts [OF t r(2)] show ?thesis by simp
qed

lemma handler_undisturbed:
  assumes "winv w" and "knows w p" and "handler_acts p t0 as" and "15 \<le> mains us"
    and "\<And>t. t \<in> sweep_times us \<Longrightarrow> t - t0 \<le> DMUCS_HOST_SILENT_TIME"
    and "fresh (sweep_times us) w"
  shows "\<exists>w'. run_turns us (as, w) = Some ([], w') \<and> run_acts as w = Some w'"
proof -
  obtain w' where r: "run_turns us (as, w) = Some ([], w')" using handler_interrupted [OF assms(1-4)] by blast
  with run_turns_fresh [OF winv_tinv [OF assms(1)] handler_acts_host [OF assms(3,2)] assms(6)
      handler_acts_fresh [OF assms(3,5)] order_refl] show ?thesis by blast
qed

end
