(* ===== verification/Dmucs_Examples.thy ===== *)
theory Dmucs_Examples
  imports Dmucs_Held Dmucs_Hosts_Text Dmucs_Threads_Lemmas
begin

text \<open>
  Concrete states on which the properties are applied: a database with one host, a server that has
  just started, one after a round in which a new host reported its load, and one after a client was given a cpu.
\<close>

definition demo_env :: env where
  "demo_env = \<lparr>now = 1000, rnd = 1, gethostbyaddr = (\<lambda>len a. Some (''host1'', a)),
     gethostbyname = (\<lambda>nm. Some (nm, 67305985)), hosts_text = Some (''1.2.3.4 2 3'' @ NL), hosts_ctime = Some 5\<rparr>"

definition demo_ip :: ip where
  "demo_ip = 67305985"

definition demo_world :: world where
  "demo_world = the (DmucsDb_addNewHost 0
     (DmucsDb_new\<lparr>hosts := (hosts DmucsDb_new)(0 := DmucsHost_new demo_ip ''x'' 2 3), nexthost := 1\<rparr>))"

definition demo_start :: server where
  "demo_start = the (server_start 3)"

definition demo_stream :: "string \<Rightarrow> stream_end \<Rightarrow> ssocket" where
  "demo_stream q en = \<lparr>sk_type = PM_ACCEPT, queue = q, coming = [], ending = en, backlog = 0\<rparr>"

definition demo_round :: round_input where
  "demo_round = \<lparr>ri_select = (\<lambda>n m t. (1, {3}, (0, 0))), ri_env = demo_env, ri_buf = '''',
     ri_read = (\<lambda>_. demo_stream '''' PeerClosed), ri_sends = None,
     ri_accept = Some (1, 4, 9), ri_env2 = demo_env,
     ri_read2 = demo_stream (cstring_bytes ''load 1.2.3.4 0.50 0.50 0.50 x'') StillOpen, ri_sends2 = None\<rparr>"

definition demo_server :: server where
  "demo_server = the (server_round demo_round demo_start)"

lemma demo_added: "host_added demo_ip ''x'' 2 3 DmucsDb_new demo_world"
proof -
  have "\<not> DmucsDb_haveHost demo_ip ''x'' DmucsDb_new"
    by (simp add: DmucsDb_haveHost_def DmucsDb_new_def)
  from addNewHost_ok [OF winv_new this, of 2 3] show ?thesis
    by (auto simp: demo_world_def DmucsDb_new_def)
qed

lemma demo_winv: "winv demo_world"
  using demo_added by (simp add: host_added_def)

lemma demo_knows: "knows demo_world 0"
  using demo_added by (simp add: host_added_def DmucsDb_new_def)

lemma demo_getHost: "DmucsDb_getHost demo_ip ''x'' demo_world = Inr 0"
  by code_simp

lemma demo_new_reachable: "server_start 3 = Some demo_start"
  by (simp add: demo_start_def server_start_def Smaskset_def legal_fd_def FD_SETSIZE_def)

lemma demo_start_reachable: "reachable demo_start"
  by (rule reachable.start [OF demo_new_reachable])

lemma demo_round_ok: "round_ok demo_round demo_start"
  by code_simp

lemma demo_round_returns: "\<not> round_stuck demo_round demo_start"
  by code_simp

lemma demo_server_step: "server_round demo_round demo_start = Some demo_server"
  using server_round_ok(1) [OF reachable_sinv [OF demo_start_reachable] demo_round_ok] demo_round_returns
  by (auto simp: demo_server_def)

lemma demo_server_reachable: "reachable demo_server"
  by (rule reachable.step [OF demo_start_reachable server_step.round [OF demo_round_ok demo_server_step]])

lemma demo_file_ok: "file_ok demo_env"
  by code_simp

text \<open>A client that has asked for a cpu.\<close>

definition demo_ask :: round_input where
  "demo_ask = \<lparr>ri_select = (\<lambda>n m t. (1, {3}, (0, 0))), ri_env = demo_env, ri_buf = '''',
     ri_read = (\<lambda>_. demo_stream '''' PeerClosed), ri_sends = None,
     ri_accept = Some (2, 5, 9), ri_env2 = demo_env,
     ri_read2 = demo_stream (cstring_bytes ''host 1.2.3.4 x'') StillOpen, ri_sends2 = Some [100]\<rparr>"

definition demo_holder :: server where
  "demo_holder = the (server_round demo_ask demo_server)"

lemma demo_ask_ok: "round_ok demo_ask demo_server"
  by code_simp

lemma demo_ask_returns: "\<not> round_stuck demo_ask demo_server"
  by code_simp

lemma demo_holder_step: "server_round demo_ask demo_server = Some demo_holder"
  using server_round_ok(1) [OF reachable_sinv [OF demo_server_reachable] demo_ask_ok] demo_ask_returns
  by (auto simp: demo_holder_def)

lemma demo_holder_reachable: "reachable demo_holder"
  by (rule reachable.step [OF demo_server_reachable server_step.round [OF demo_ask_ok demo_holder_step]])

lemma demo_holds: "holds 2 ''x'' demo_ip (sw demo_holder)" "fdList demo_holder = [2]"
  by code_simp+

lemma first_load_report_is_dropped_example:
  "map_option (\<lambda>(w', inst). (h_lastUpdate (hosts w' 0), h_ldavg1 (hosts w' 0), h_state (hosts w' 0)))
    (load_report demo_env demo_ip (Fin 9) (Fin 9) (Fin 9) ''x'' DmucsDb_new None) = Some (0, Fin 0, StateAvail)"
proof -
  have "DmucsDb_getHost demo_ip ''x'' DmucsDb_new = Inl DmucsHostNotFound"
    by (simp add: DmucsDb_getHost_def DmucsDb_new_def)
  note first_load_report_is_dropped [OF this, of demo_env "Fin 9" "Fin 9" "Fin 9" None]
  moreover have "map_option (\<lambda>(w', inst). (h_lastUpdate (hosts w' 0), h_ldavg1 (hosts w' 0), h_state (hosts w' 0)))
    (map_option snd (createHost demo_env demo_ip ''x'' DmucsDb_new None)) = Some (0, Fin 0, StateAvail)"
    by code_simp
  ultimately show ?thesis by simp
qed

text \<open>
  Two interleavings of a handler with the sweep, for a host that has not reported for more than a minute.
\<close>

definition demo_down_turns :: "turn list" where
  "demo_down_turns = [MainTurn, MainTurn, MainTurn, SweepTurn 1000, MainTurn, MainTurn]"

definition demo_report_turns :: "turn list" where
  "demo_report_turns = [MainTurn, MainTurn, MainTurn, SweepTurn 1000] @ replicate 8 MainTurn"

lemma demo_down_race:
  "\<exists>w'. run_turns demo_down_turns (status_acts STATUS_UNAVAILABLE 0, sw demo_server) = Some ([], w') \<and>
    silentHosts (dprop_db_of w' 0) = [0] \<and> unavailHosts (dprop_db_of w' 0) = [0]"
proof -
  have "map_option (\<lambda>(as, w). (length as, silentHosts (dprop_db_of w 0), unavailHosts (dprop_db_of w 0)))
      (run_turns demo_down_turns (status_acts STATUS_UNAVAILABLE 0, sw demo_server)) = Some (0, [0], [0])"
    by code_simp
  then show ?thesis by auto
qed

lemma demo_report_race:
  "\<exists>w'. run_turns demo_report_turns (load_acts demo_env 0 (Fin 9) (Fin 9) (Fin 1), sw demo_server) = Some ([], w') \<and>
    h_ncpus (hosts w' 0) = 2 \<and>
    count_list (tier_cpus (getTier (hosts w' 0)) (dprop_db_of w' 0)) (h_ip (hosts w' 0)) = 4"
proof -
  have "map_option (\<lambda>(as, w). (length as, h_ncpus (hosts w 0),
        count_list (tier_cpus (getTier (hosts w 0)) (dprop_db_of w 0)) (h_ip (hosts w 0))))
      (run_turns demo_report_turns (load_acts demo_env 0 (Fin 9) (Fin 9) (Fin 1), sw demo_server)) = Some (0, 2, 4)"
    by code_simp
  then show ?thesis by auto
qed

lemma demo_server_getHost: "DmucsDb_getHost demo_ip ''x'' (sw demo_server) = Inr 0"
  by code_simp

lemma demo_server_winv: "winv (sw demo_server)"
  using reachable_sinv [OF demo_server_reachable] by (simp add: sinv_def)

lemma demo_server_knows: "knows (sw demo_server) 0"
  using getHost_Inr [OF demo_server_winv demo_server_getHost] by blast

text \<open>A client that connects and sends half a request.\<close>

definition demo_silent :: round_input where
  "demo_silent = demo_ask\<lparr>ri_read2 := demo_stream ''host 1.2'' StillOpen\<rparr>"

lemma demo_silent_ok: "round_ok demo_silent demo_server"
  by code_simp

lemma demo_silent_accepted:
  "0 < fst (Smaskwait (ri_select demo_silent) (smaskst demo_server))"
  "listener demo_server \<in> rmask (smaskst (woken demo_silent demo_server))"
  "ri_accept demo_silent \<noteq> None" "stalls (ri_read2 demo_silent)"
  by code_simp+

text \<open>A hosts-info file.\<close>

definition demo_lines :: "file_line list" where
  "demo_lines = [Remark '''' '' the machines'', Blanks '' '', Entry '''' (Dotted 67305985) '' '' 2 '' '' 3 '' fast'',
     Entry '' '' (Named ''big'') '' '' 8 '' '' 9 '''', Entry '''' (Named ''gone'') '' '' 1 '' '' 1 '''', Entry '''' (Dotted 67305985) '' '' 4 '' '' 5 '''',
     NoPower '''' (Named ''slow'') '' '' 1 '' one'', Entry '''' (Dotted 16777343) '' '' 6 '' '' 7 '''']"

definition demo_names :: env where
  "demo_names = demo_env\<lparr>gethostbyname := (\<lambda>nm. if nm = ''big'' then Some (''big'', 33620225) else None),
     hosts_text := Some (file_text demo_lines)\<rparr>"

lemma demo_lines_ok: "hosts_text demo_names = Some (file_text demo_lines)" "list_all line_ok demo_lines"
  by (simp add: demo_names_def) code_simp

lemma demo_listed:
  "listed demo_names demo_lines = [(67305985, 2, 3), (33620225, 8, 9), (67305985, 4, 5)]"
  by code_simp

text \<open>A client that is connected and has asked for nothing yet.\<close>

lemma demo_accepted:
  obtains s where "sinv s" and "7 \<in> set (fdList s)" and "sw s = sw demo_server"
proof -
  have "sinv demo_server" by (rule reachable_sinv [OF demo_server_reachable])
  moreover have "fdList demo_server = []" "listener demo_server = 3" by code_simp+
  moreover have "legal_fd 5" by code_simp
  ultimately obtain s where "addFd 7 (demo_server\<lparr>skt := (skt demo_server)(7 := 5), peer := (peer demo_server)(7 := 9)\<rparr>) = Some s"
    "sinv s" "7 \<in> set (fdList s)"
    using addFd_ok [of demo_server 7 5 9] by auto
  moreover from this(1) have "sw s = sw demo_server" by (auto simp: addFd_def)
  ultimately show ?thesis by (intro that)
qed

end
