(* ===== verification/Ssl_Wire.thy ===== *)
theory Ssl_Wire
  imports Ssl_Io_Lemmas "HOL-Library.Monad_Syntax"
begin

text \<open>
  What the PortMaster and the programs that talk to it share: the events of \<open>sockets.h\<close>, 16 bit
  words in network order, and a connection: the stream that comes in (\<open>Ssl_Io\<close>) and the bytes that
  have been written.
\<close>

type_synonym event = "16 word"

definition PM_SERVER_EV :: event where "PM_SERVER_EV = 1"
definition PM_CLIENT_EV :: event where "PM_CLIENT_EV = 2"
definition PM_CLOSE :: event where "PM_CLOSE = 3"
definition PM_RESEND :: event where "PM_RESEND = 4"
definition PM_QUIT :: event where "PM_QUIT = 5"
definition PM_SORRY :: event where "PM_SORRY = 6"
definition PM_OK :: event where "PM_OK = 7"
definition PM_TABLE :: event where "PM_TABLE = 9"
definition PM_RMSERVER :: event where "PM_RMSERVER = 10"
definition PM_FWINIT :: event where "PM_FWINIT = 11"
definition PM_SHARE :: event where "PM_SHARE = 12"
definition PM_OKSHARE :: event where "PM_OKSHARE = 13"
definition PM_CLIENTWAIT :: event where "PM_CLIENTWAIT = 14"

definition PM_MAXTRY :: nat where "PM_MAXTRY = 20"

definition PORTMASTER :: "16 word" where "PORTMASTER = 1750"

lemmas pm_events = PM_SERVER_EV_def PM_CLIENT_EV_def PM_CLOSE_def PM_RESEND_def PM_QUIT_def PM_SORRY_def
  PM_OK_def PM_TABLE_def PM_RMSERVER_def PM_FWINIT_def PM_SHARE_def PM_OKSHARE_def PM_CLIENTWAIT_def

definition BUFSIZE :: nat where
  \<comment> \<open>of \<open>Spm.c\<close>, \<open>Sopen.c\<close> and \<open>Srmsrvr.c\<close>\<close>
  "BUFSIZE = 128"

definition put16 :: "16 word \<Rightarrow> string" where
  \<comment> \<open>the bytes of \<open>htons(w)\<close>\<close>
  "put16 w = [char_of (unat w div 256), char_of (unat w mod 256)]"

definition get16 :: "string \<Rightarrow> 16 word" where
  \<comment> \<open>\<open>ntohs\<close> of the first two bytes\<close>
  "get16 bs = of_nat (256 * of_char (bs ! 0) + of_char (bs ! 1))"

record conn =
  io :: ssocket
  cid :: nat                      \<comment> \<open>identity of the \<open>Socket\<close>\<close>
  out :: string                   \<comment> \<open>what has been written to the peer\<close>
  peeraddr :: "string option"     \<comment> \<open>the 6 bytes \<open>sa_data\<close> of \<open>getpeername\<close>\<close>

definition put_bytes :: "string \<Rightarrow> conn \<Rightarrow> conn" where
  \<comment> \<open>\<open>Swrite\<close> with its result dropped\<close>
  "put_bytes bs c = c\<lparr>out := out c @ bs\<rparr>"

definition put_event :: "event \<Rightarrow> conn \<Rightarrow> conn" where
  "put_event e c = put_bytes (put16 e) c"

definition put_string :: "string \<Rightarrow> conn \<Rightarrow> conn" where
  \<comment> \<open>\<open>Sputs\<close>\<close>
  "put_string s c = put_bytes (cstring_bytes s) c"

definition ready :: "conn \<Rightarrow> (bool \<times> conn) option" where
  \<comment> \<open>\<open>Stimeoutwait(c,TIMEOUT,0L) >= 0\<close>: what is still to arrive arrives in time, a peer that
     sends nothing more and does not close is waited for in vain\<close>
  "ready c = do {
     (r, so) \<leftarrow> Stimeoutwait (Some (io c)) True;
     Some (0 \<le> r, c\<lparr>io := the so\<rparr>) }"

definition read_event :: "string \<Rightarrow> conn \<Rightarrow> (int \<times> event \<times> conn) option" where
  \<comment> \<open>\<open>Sreadbytes\<close> into a 16 bit variable, and \<open>ntohs\<close>; \<open>junk\<close> is what the variable held before\<close>
  "read_event junk c = do {
     (n, bs, so) \<leftarrow> Sreadbytes (Some (io c)) 2;
     Some (n, get16 (overwrite bs junk), c\<lparr>io := the so\<rparr>) }"

definition read_string :: "string \<Rightarrow> nat \<Rightarrow> conn \<Rightarrow> (bool \<times> string \<times> conn) option" where
  \<comment> \<open>\<open>Sgets\<close> into a buffer that holds \<open>buf\<close>\<close>
  "read_string buf n c = do {
     (ok, buf', so) \<leftarrow> Sgets buf n (Some (io c));
     Some (ok, buf', c\<lparr>io := the so\<rparr>) }"

subsection \<open>Words\<close>

lemma get16_put16 [simp]: "get16 (put16 w @ x) = w" "get16 (put16 w) = w"
proof -
  have "unat w < 65536" using unsigned_less [of w, where ?'a = nat] by simp
  then have "unat w div 256 < 256" by (simp add: less_mult_imp_div_less)
  then have "256 * ((of_char (char_of (unat w div 256) :: char)) :: nat) + of_char (char_of (unat w mod 256) :: char) = unat w"
    by simp
  then show "get16 (put16 w @ x) = w" "get16 (put16 w) = w" by (simp_all add: get16_def put16_def)
qed

lemma length_put16 [simp]: "length (put16 w) = 2"
  by (simp add: put16_def)

subsection \<open>Connections whose bytes have all arrived\<close>

text \<open>
  By \<open>Sgets_loop_spec\<close> and \<open>readbytes_spec\<close> the pieces in which the bytes arrive make no difference;
  the facts below are about a connection that has received all of them.
\<close>

definition flat :: "skt_type \<Rightarrow> string \<Rightarrow> stream_end \<Rightarrow> ssocket" where
  "flat t q e = \<lparr>sk_type = t, queue = q, coming = [], ending = e, backlog = 0\<rparr>"

lemma flat_simps [simp]:
  "sk_type (flat t q e) = t" "queue (flat t q e) = q" "coming (flat t q e) = []" "ending (flat t q e) = e"
  "arrive (flat t q e) = flat t q e" "stream (flat t q e) = q" "(flat t q e)\<lparr>queue := q'\<rparr> = flat t q' e"
  by (simp_all add: flat_def arrive_def stream_def)

definition fed :: "conn \<Rightarrow> string \<Rightarrow> stream_end \<Rightarrow> conn" where
  \<comment> \<open>the connection with these bytes to be read\<close>
  "fed c q e = c\<lparr>io := flat PM_ACCEPT q e\<rparr>"

lemma fed_simps [simp]:
  "io (fed c q e) = flat PM_ACCEPT q e" "cid (fed c q e) = cid c" "out (fed c q e) = out c"
  "peeraddr (fed c q e) = peeraddr c" "fed (fed c q e) q' e' = fed c q' e'"
  "put_bytes bs (fed c q e) = fed (put_bytes bs c) q e" "(fed c q e)\<lparr>io := flat PM_ACCEPT q' e'\<rparr> = fed c q' e'"
  by (simp_all add: fed_def put_bytes_def)

lemma put_simps [simp]:
  "cid (put_bytes bs c) = cid c" "peeraddr (put_bytes bs c) = peeraddr c" "io (put_bytes bs c) = io c"
  "out (put_bytes bs c) = out c @ bs"
  by (simp_all add: put_bytes_def)

lemma put_event_fed [simp]: "put_event ev (fed c q e) = fed (put_event ev c) q e"
  by (simp add: put_event_def)

lemma put_string_fed [simp]: "put_string s (fed c q e) = fed (put_string s c) q e"
  by (simp add: put_string_def)

lemma put_conn_simps [simp]:
  "cid (put_event ev c) = cid c" "cid (put_string s c) = cid c"
  "peeraddr (put_event ev c) = peeraddr c" "peeraddr (put_string s c) = peeraddr c"
  "out (put_event ev c) = out c @ put16 ev" "out (put_string s c) = out c @ cstring_bytes s"
  by (simp_all add: put_event_def put_string_def)

lemma ready_fed [simp]: "ready (fed c q e) = Some (q \<noteq> [] \<and> e \<noteq> SelectError, fed c q e)"
  by (cases e; cases q)
    (simp_all add: ready_def Stimeoutwait_def select_now_def readable_def Let_def peek_count_def recv_peek_eq PM_BIGBUF_def)

lemma recv_flat: "q \<noteq> [] \<Longrightarrow> recv n (flat t q e) = Some (int (length (take n q)), take n q, flat t (drop n q) e)"
  by (simp add: recv_def recv_peek_eq)

lemma readbytes_flat:
  assumes "0 < n" and "n \<le> length q"
  shows "readbytes_loop n [] (flat t q e) = Some (int n, take n q, flat t (drop n q) e)"
  using readbytes_avail [of n "flat t q e"] assms by simp

lemma read_event_fed [simp]: "read_event junk (fed c (put16 w @ q) e) = Some (2, w, fed c q e)"
proof -
  have "Sreadbytes (Some (flat PM_ACCEPT (put16 w @ q) e)) 2 = Some (2, put16 w, Some (flat PM_ACCEPT q e))"
    using readbytes_flat [of 2 "put16 w @ q" PM_ACCEPT e] by (simp add: Sreadbytes_def)
  then show ?thesis by (simp add: read_event_def overwrite_def)
qed

lemma read_event_short:
  assumes "length q < 2" and "e = PeerClosed \<or> e = StillOpen"
  shows "read_event junk (fed c q e) = None"
  using readbytes_spec [of "[]" 2 "flat PM_ACCEPT q e"] assms
  by (auto simp: read_event_def Sreadbytes_def readbytes_result_def)

lemma Sgets_loop_flat_end:
  assumes "t \<noteq> PM_SERVER" and "0 < n"
  shows "Sgets_loop n acc (flat t [] e) = (if e = StillOpen then None else Some (False, acc, flat t [] e))"
proof (cases "e = StillOpen")
  case True
  with Swait_data [of "flat t [] e"] assms show ?thesis by (subst Sgets_loop.simps) simp
next
  case False
  then obtain r where "r \<noteq> 0" "Swait (Some (flat t [] e)) = Some (r, Some (flat t [] e))"
    using Swait_data [of "flat t [] e"] assms by auto
  with False assms show ?thesis
    by (subst Sgets_loop.simps) (cases e; simp add: recv_peek_eq)
qed

lemma Sgets_loop_flat:
  assumes "t \<noteq> PM_SERVER" and "0 < n" and "q \<noteq> []"
  shows "Sgets_loop n [] (flat t q e) =
    (if NUL \<in> set (take n q) then Some (True, cstr q @ [NUL], flat t (drop (length (cstr q) + 1) q) e)
     else if n \<le> length q then Some (True, take n q @ [NUL], flat t (drop n q) e)
     else if e = StillOpen then None else Some (False, q, flat t [] e))"
proof -
  obtain r where r: "r \<noteq> 0" "Swait (Some (flat t q e)) = Some (r, Some (flat t q e))"
    using Swait_data [of "flat t q e"] assms by auto
  have pk: "recv_peek n (flat t q e) = Some (int (length (take n q)), take n q, flat t q e)"
    using assms(3) by (simp add: recv_peek_eq)
  have ne: "take n q \<noteq> []" using assms by simp
  note step = Sgets_loop_step [OF r pk ne assms(2), of "[]"]
  consider (nul) "NUL \<in> set (take n q)" | (full) "NUL \<notin> set (take n q)" "n \<le> length q"
    | (part) "NUL \<notin> set q" "length q < n" by fastforce
  then show ?thesis
  proof cases
    case nul
    have c: "cstr q = cstr (take n q)" using cstr_prefix [OF nul, of "drop n q"] by simp
    have "length (cstr (take n q)) + 1 \<le> length q" using cstr_shorter [OF nul] by simp
    with nul step show ?thesis by (simp add: c readbytes_flat)
  next
    case full
    with step assms show ?thesis by (simp add: readbytes_flat)
  next
    case part
    with assms step readbytes_flat [of "length q" q t e] Sgets_loop_flat_end [of t "n - length q" q e]
    show ?thesis by simp
  qed
qed

text \<open>A string is read with the bytes behind it left, if the buffer is large enough for it.\<close>

definition fits_buf :: "nat \<Rightarrow> string \<Rightarrow> bool" where
  "fits_buf n str = (length (cstr str) + 3 \<le> n)"

lemma read_string_fed:
  assumes "fits_buf n str"
  shows "\<exists>buf'. read_string buf n (fed c (cstring_bytes str @ q) e) = Some (True, buf', fed c q e) \<and>
    cstr buf' = cstr str"
proof -
  obtain k where k: "n - 2 = length (cstr str) + Suc k"
    using that [of "n - 3 - length (cstr str)"] assms unfolding fits_buf_def by linarith
  have "Sgets_loop (n - 2) [] (flat PM_ACCEPT (cstring_bytes str @ q) e) =
      Some (True, cstr str @ [NUL], flat PM_ACCEPT q e)"
    using k by (simp add: Sgets_loop_flat cstring_bytes_def cstr_idem)
  from Sgets_intro [OF this, of buf] show ?thesis by (auto simp: read_string_def)
qed

end
