(* ===== verification/Ssl_Open.thy ===== *)
theory Ssl_Open
  imports C_Text Ssl_Wire
begin

text \<open>
  Opening and closing: \<open>Smkskt.c\<close>, \<open>Sopen.c\<close>, \<open>Saccept.c\<close>, \<open>Srmsrvr.c\<close>, \<open>Sclose.c\<close>, \<open>Sopenv.c\<close>, and
  the programs \<open>EXE/spmtable.c\<close>, \<open>EXE/spmchk.c\<close> and \<open>EXE/srmsrvr.c\<close>.

  The network is a parameter: what the system calls answer, and for the \<open>n\<close>-th connection to a host
  and port the stream that comes from there.  The state counts the connections and keeps those that
  are used no more (most paths close them, some just drop them), with what was written to them.

  The variable \<open>mesg\<close> is sent in network order and read in place; when a read fails it keeps what it
  held, on a little-endian machine the bytes of \<open>put16\<close> before \<open>ntohs\<close> and their reverse after it.
\<close>

record net =
  n_hostname :: "string option"            \<comment> \<open>\<open>gethostname\<close>\<close>
  n_getenv :: "string \<Rightarrow> string option"
  n_socket :: bool                         \<comment> \<open>\<open>socket\<close> succeeds\<close>
  n_resolves :: "string \<Rightarrow> bool"            \<comment> \<open>\<open>gethostbyname\<close>\<close>
  n_connect :: "nat \<Rightarrow> string \<Rightarrow> 16 word \<Rightarrow> conn option"
  n_bind :: "16 word \<Rightarrow> 16 word option"     \<comment> \<open>\<open>bind\<close> and \<open>getsockname\<close>: the port that was bound\<close>

record netst =
  tries :: nat
  finished :: "conn list"

record socket =
  sk_conn :: conn
  sk_port :: "16 word"
  sk_kind :: skt_type
  sk_sktname :: string
  sk_hostname :: string

definition nullconn :: conn where
  \<comment> \<open>a descriptor that is not connected\<close>
  "nullconn = \<lparr>io = flat PM_CLIENT '''' StillOpen, cid = 0, out = '''', peeraddr = None\<rparr>"

definition makeSocket :: "string \<Rightarrow> string option \<Rightarrow> skt_type \<Rightarrow> socket" where
  "makeSocket hostname nm sktType = \<lparr>sk_conn = nullconn, sk_port = 0, sk_kind = sktType,
     sk_sktname = (case nm of None \<Rightarrow> '''' | Some x \<Rightarrow> x), sk_hostname = hostname\<rparr>"

definition hang_up :: "conn \<Rightarrow> netst \<Rightarrow> netst" where
  \<comment> \<open>\<open>shutdown\<close>, \<open>close\<close>, \<open>freeSocket\<close>\<close>
  "hang_up c st = st\<lparr>finished := finished st @ [c]\<rparr>"

definition local_host :: "net \<Rightarrow> string" where
  \<comment> \<open>the zeroed static buffer if \<open>gethostname\<close> fails\<close>
  "local_host nw = (case n_hostname nw of None \<Rightarrow> '''' | Some h \<Rightarrow> h)"

definition Sopen_clientport :: "net \<Rightarrow> string \<Rightarrow> string option \<Rightarrow> 16 word \<Rightarrow> netst \<Rightarrow> socket option \<times> netst" where
  "Sopen_clientport nw hostname nm port st =
     (let host = (if hostname = '''' then local_host nw else hostname);
          skt = (makeSocket host nm PM_CLIENT)\<lparr>sk_port := port\<rparr>
      in if \<not> n_socket nw then (None, st)
         else if \<not> n_resolves nw host then (None, st)
         else (case n_connect nw (tries st) host port of
             None \<Rightarrow> (None, st\<lparr>tries := tries st + 1\<rparr>)
           | Some c \<Rightarrow> (Some (skt\<lparr>sk_conn := c\<rparr>), st\<lparr>tries := tries st + 1\<rparr>)))"

definition Saccept :: "socket option \<Rightarrow> conn option \<Rightarrow> socket option" where
  \<comment> \<open>with what \<open>accept\<close> gives\<close>
  "Saccept skt acc = (case skt of None \<Rightarrow> None
     | Some s \<Rightarrow> (case acc of None \<Rightarrow> None
         | Some c \<Rightarrow> Some ((makeSocket (sk_hostname s) (Some (sk_sktname s)) PM_ACCEPT)\<lparr>sk_conn := c\<rparr>)))"

subsection \<open>Clients\<close>

datatype answer = Silent | Refused | Granted

function client_ask :: "event \<Rightarrow> nat \<Rightarrow> conn \<Rightarrow> (answer \<times> conn) option" where
  \<comment> \<open>the loop of \<open>Sopen_client\<close>\<close>
  "client_ask ev resend c = do {
     (ok, c1) \<leftarrow> ready (put_event ev c);
     if \<not> ok then Some (Silent, c1) else do {
       (_, mesg, c2) \<leftarrow> read_event (put16 ev) c1;
       if PM_MAXTRY \<le> resend + 1 \<or> mesg = PM_SORRY then Some (Refused, c2)
       else if mesg = PM_OK then Some (Granted, c2)
       else client_ask ev (resend + 1) c2 } }"
  by pat_completeness auto
termination
  by (relation "measure (\<lambda>(ev, n, c). PM_MAXTRY - n)") auto

declare client_ask.simps [simp del]

definition client_port :: "conn \<Rightarrow> ((string \<times> event) option \<times> conn) option" where
  \<comment> \<open>the rest of the protocol: the host to connect to (empty: the one that was asked for), the port\<close>
  "client_port c = do {
     (_, mesg, c1) \<leftarrow> read_event (rev (put16 PM_OK)) c;
     let answer = (\<lambda>skthost c2. do {
       (ok, c3) \<leftarrow> ready c2;
       if \<not> ok then Some (None, c3) else do {
         (_, port, c4) \<leftarrow> read_event (rev (put16 mesg)) c3;
         Some (Some (skthost, port), c4) } });
     (if mesg = PM_OKSHARE then do {
        (ok, c2) \<leftarrow> ready c1;
        if \<not> ok then Some (None, c2) else do {
          (_, buf, c3) \<leftarrow> read_string (replicate BUFSIZE NUL) BUFSIZE c2;
          answer (cstr buf) c3 } }
      else if mesg \<noteq> PM_OK then Some (None, c1)
      else answer '''' c1) }"

definition client_protocol :: "bool \<Rightarrow> string \<Rightarrow> conn \<Rightarrow> ((string \<times> event) option \<times> conn) option" where
  "client_protocol blocking nm c = do {
     (a, c1) \<leftarrow> client_ask (if blocking then PM_CLIENTWAIT else PM_CLIENT_EV) 0 c;
     if a \<noteq> Granted then Some (None, c1) else do {
       let c2 = put_string nm c1;
       (gone, c3) \<leftarrow> (if blocking then do {
           (r, so) \<leftarrow> Swait (Some (io c2)); Some (r < 0, c2\<lparr>io := the so\<rparr>) } else Some (False, c2));
       if gone then Some (None, c3) else do {
         (ok, c4) \<leftarrow> ready c3;
         if \<not> ok then Some (None, c4) else client_port c4 } } }"

definition Sopen_client :: "net \<Rightarrow> nat \<Rightarrow> string \<Rightarrow> string \<Rightarrow> bool \<Rightarrow> netst \<Rightarrow> (socket option \<times> netst) option" where
  "Sopen_client nw sslport hostname nm blocking st =
     (if sslport \<noteq> 0 then Some (Sopen_clientport nw hostname (Some nm) (of_nat sslport) st)
      else
        let (skt, st1) = Sopen_clientport nw hostname (Some nm) PORTMASTER st;
            (skt, st1) = (case (skt, n_getenv nw ''PMSHARE'') of
              (None, Some pmshare) \<Rightarrow> Sopen_clientport nw pmshare (Some nm) PORTMASTER st1
            | _ \<Rightarrow> (skt, st1))
        in case skt of None \<Rightarrow> Some (None, st1)
           | Some s \<Rightarrow> do {
               (r, c) \<leftarrow> client_protocol blocking nm (sk_conn s);
               let st2 = hang_up c st1;
               (case r of None \<Rightarrow> Some (None, st2)
                | Some (skthost, port) \<Rightarrow>
                    Some (Sopen_clientport nw (if skthost \<noteq> '''' then skthost else hostname) (Some nm) port st2)) })"

subsection \<open>Servers\<close>

function server_ask :: "event \<Rightarrow> nat \<Rightarrow> conn \<Rightarrow> (answer \<times> conn) option" where
  \<comment> \<open>the loop of \<open>Sopen_server\<close>: a failed read ends it, too\<close>
  "server_ask ev resend c = do {
     (ok, c1) \<leftarrow> ready (put_event ev c);
     if \<not> ok then Some (Silent, c1) else do {
       (n, mesg, c2) \<leftarrow> read_event (put16 ev) c1;
       if n \<le> 0 then Some (Silent, c2)
       else if PM_MAXTRY \<le> resend + 1 \<or> mesg = PM_SORRY then Some (Refused, c2)
       else if mesg = PM_OK then Some (Granted, c2)
       else server_ask ev (resend + 1) c2 } }"
  by pat_completeness auto
termination
  by (relation "measure (\<lambda>(ev, n, c). PM_MAXTRY - n)") auto

declare server_ask.simps [simp del]

definition server_protocol ::
    "string option \<Rightarrow> string \<Rightarrow> string \<Rightarrow> 16 word \<Rightarrow> conn \<Rightarrow> (bool \<times> conn) option" where
  \<comment> \<open>whether the PortMaster has accepted the server; then \<open>listen\<close> and the final \<open>PM_OK\<close>\<close>
  "server_protocol pmshare hostname nm port c = do {
     (a, c1) \<leftarrow> server_ask (if pmshare \<noteq> None then PM_SHARE else PM_SERVER_EV) 0 c;
     if a \<noteq> Granted then Some (False, c1) else do {
       let c2 = put_bytes (put16 port)
         (put_string nm (if pmshare \<noteq> None then put_string hostname c1 else c1));
       (ok, c3) \<leftarrow> ready c2;
       if \<not> ok then Some (False, c3) else do {
         (_, mesg, c4) \<leftarrow> read_event (rev (put16 PM_OK)) c3;
         if mesg \<noteq> PM_OK then Some (False, c4) else Some (True, put_event PM_OK c4) } } }"

definition cut_at :: "string \<Rightarrow> string" where
  \<comment> \<open>what is left when the first \<open>@\<close> is overwritten with a NUL\<close>
  "cut_at s = takeWhile (\<lambda>c. c \<noteq> CHR ''@'') s"

definition Sopen_server :: "net \<Rightarrow> nat \<Rightarrow> string option \<Rightarrow> netst \<Rightarrow> (socket option \<times> netst) option" where
  "Sopen_server nw sslport nm0 st =
     (let nm = (case nm0 of None \<Rightarrow> '''' | Some x \<Rightarrow> cut_at x); pmshare = n_getenv nw ''PMSHARE''
      in case n_hostname nw of None \<Rightarrow> Some (None, st)
         | Some hostname \<Rightarrow>
           (let skt = makeSocket (case pmshare of Some h \<Rightarrow> h | None \<Rightarrow> hostname) (Some nm) PM_SERVER
            in if \<not> n_socket nw then Some (None, st)
               else (case n_bind nw (of_nat sslport) of None \<Rightarrow> Some (None, st)
                 | Some port \<Rightarrow>
                   (let skt = skt\<lparr>sk_port := port\<rparr>
                    in if nm = '''' then Some (Some skt, st)
                       else let (pmskt, st1) = Sopen_clientport nw (case pmshare of Some h \<Rightarrow> h | None \<Rightarrow> hostname)
                              (Some ''PMClient'') PORTMASTER st
                         in case pmskt of None \<Rightarrow> Some (None, st1)
                            | Some pm \<Rightarrow> do {
                                (ok, c) \<leftarrow> server_protocol pmshare hostname nm port (sk_conn pm);
                                Some (if ok then Some skt else None, hang_up c st1) }))))"

subsection \<open>Srmsrvr\<close>

function rmsrvr_ask :: "nat \<Rightarrow> conn \<Rightarrow> (answer \<times> conn) option" where
  \<comment> \<open>the loop of \<open>Srmsrvr\<close>, which goes on after \<open>PM_SORRY\<close>\<close>
  "rmsrvr_ask trycnt c = do {
     (ok, c1) \<leftarrow> ready (put_event PM_RMSERVER c);
     if \<not> ok then Some (Silent, c1) else do {
       (n, mesg, c2) \<leftarrow> read_event (put16 PM_RMSERVER) c1;
       if n \<le> 0 then Some (Refused, c2)
       else if PM_MAXTRY \<le> trycnt + 1 then Some (Refused, c2)
       else if mesg = PM_OK then Some (Granted, c2)
       else rmsrvr_ask (trycnt + 1) c2 } }"
  by pat_completeness auto
termination
  by (relation "measure (\<lambda>(n, c). PM_MAXTRY - n)") auto

declare rmsrvr_ask.simps [simp del]

definition Srmsrvr :: "net \<Rightarrow> string \<Rightarrow> netst \<Rightarrow> (event \<times> string \<times> netst) option" where
  \<comment> \<open>with what becomes of the argument: the \<open>@\<close> is not put back when the PortMaster is silent\<close>
  "Srmsrvr nw skthost st =
     (let nm = cut_at skthost; has_at = CHR ''@'' \<in> set skthost;
          hostname = (if has_at then drop (length nm + 1) skthost
            else case n_getenv nw ''PMSHARE'' of Some h \<Rightarrow> h | None \<Rightarrow> local_host nw);
          (pmskt, st1) = Sopen_clientport nw hostname (Some ''SktRmSrvr'') PORTMASTER st
      in case pmskt of None \<Rightarrow> Some (PM_SORRY, skthost, st1)
         | Some pm \<Rightarrow> do {
             (a, c) \<leftarrow> rmsrvr_ask 0 (sk_conn pm);
             (case a of
                Silent \<Rightarrow> Some (PM_SORRY, nm, hang_up c st1)
              | Refused \<Rightarrow> Some (PM_SORRY, skthost, hang_up c st1)
              | Granted \<Rightarrow> do {
                  (_, mesg, c1) \<leftarrow> read_event (rev (put16 PM_OK)) (put_string nm c);
                  Some (mesg, skthost, hang_up c1 st1) }) })"

subsection \<open>Sopen\<close>

definition scan_ulong :: "string \<Rightarrow> nat \<Rightarrow> nat" where
  \<comment> \<open>\<open>sscanf(s,"%lu",&x)\<close> of a text of digits\<close>
  "scan_ulong s x = (let ds = takeWhile c_isdigit s
     in if ds = [] then x else min (nat (digits_val 0 ds)) (2 ^ 64 - 1))"

definition mode_port :: "string option \<Rightarrow> string \<Rightarrow> nat option" where
  \<comment> \<open>\<open>sslport\<close>; a null pointer is dereferenced if no digit follows the mode\<close>
  "mode_port skthost mode =
     (if mode = [] then None
      else if drop 1 mode \<noteq> [] \<and> c_isdigit (mode ! 1) then Some (scan_ulong (drop 1 mode) 0)
      else (case skthost of None \<Rightarrow> None
        | Some sh \<Rightarrow>
            (if take 1 sh = ''$'' then
               (let s = dropWhile c_isdigit (drop 1 sh)
                in if s = [] \<or> take 1 s = ''@'' then Some (scan_ulong (drop 1 sh) 0) else Some 0)
             else Some 0)))"

definition Sopen :: "net \<Rightarrow> string option \<Rightarrow> string \<Rightarrow> netst \<Rightarrow> (socket option \<times> netst) option" where
  "Sopen nw skthost mode st = do {
     sslport \<leftarrow> mode_port skthost mode;
     let unnamed = ((skthost = None \<or> skthost = Some '''') \<and> sslport = 0);
     (if take 1 mode = ''s'' \<or> take 1 mode = ''S'' then
        (if unnamed then Some (None, st)
         else do {
           (ret, st1) \<leftarrow> Sopen_server nw sslport skthost st;
           (case (ret, take 1 mode = ''S'', skthost) of
              (None, True, Some sh) \<Rightarrow> do {
                (_, sh', st2) \<leftarrow> Srmsrvr nw (cut_at sh) st1;
                Sopen_server nw sslport (Some sh') st2 }
            | (None, True, None) \<Rightarrow> None
            | _ \<Rightarrow> Some (ret, st1)) })
      else if take 1 mode = ''b'' \<or> take 1 mode = ''c'' then
        (let sh = (case skthost of None \<Rightarrow> '''' | Some x \<Rightarrow> x); nm = cut_at sh;
             hostname = (if CHR ''@'' \<in> set sh then drop (length nm + 1) sh else local_host nw)
         in if BUFSIZE \<le> length sh then None
            else if unnamed then Some (None, st)
            else Sopen_client nw sslport hostname nm (take 1 mode = ''b'') st)
      else Some (None, st)) }"

subsection \<open>Sclose\<close>

function close_ask :: "nat \<Rightarrow> conn \<Rightarrow> (answer \<times> conn) option" where
  \<comment> \<open>the loop of \<open>Sclose\<close>\<close>
  "close_ask trycnt c = do {
     (ok, c1) \<leftarrow> ready (put_event PM_CLOSE c);
     if \<not> ok then Some (Silent, c1) else do {
       (n, mesg, c2) \<leftarrow> read_event (put16 PM_CLOSE) c1;
       if n \<le> 0 then Some (Refused, c2)
       else if PM_MAXTRY \<le> trycnt + 1 then Some (Refused, c2)
       else if mesg = PM_OK then Some (Granted, c2)
       else close_ask (trycnt + 1) c2 } }"
  by pat_completeness auto
termination
  by (relation "measure (\<lambda>(n, c). PM_MAXTRY - n)") auto

declare close_ask.simps [simp del]

definition Sclose :: "net \<Rightarrow> socket option \<Rightarrow> netst \<Rightarrow> netst option" where
  \<comment> \<open>if the PortMaster cannot be reached, the calls on the null pointer fail and the socket is closed\<close>
  "Sclose nw skt st = (case skt of None \<Rightarrow> Some st
     | Some s \<Rightarrow>
       if sk_kind s = PM_SERVER \<and> sk_sktname s \<noteq> '''' then
         (let (pmskt, st1) = Sopen_clientport nw (sk_hostname s) (Some ''SktClose'') PORTMASTER st
          in case pmskt of None \<Rightarrow> Some (hang_up (sk_conn s) st1)
             | Some pm \<Rightarrow> do {
                 (a, c) \<leftarrow> close_ask 0 (sk_conn pm);
                 (if a \<noteq> Granted then Some (hang_up (sk_conn s) (hang_up c st1))
                  else do {
                      (ok, c1) \<leftarrow> ready (put_bytes (put16 (sk_port s)) c);
                      if \<not> ok then Some (hang_up (sk_conn s) (hang_up c1 st1)) else do {
                        (_, _, c2) \<leftarrow> read_event (rev (put16 PM_OK)) c1;
                        Some (hang_up (sk_conn s) (hang_up c2 st1)) } }) })
       else Some (hang_up (sk_conn s) st))"

subsection \<open>Searching a path\<close>

text \<open>
  \<open>Sopenv\<close> tries the machines of an environment variable.  \<open>fopenv\<close> does the same with directories
  and files; it overwrites the separator behind the directory it tries, and puts it back only when it
  goes on: a variable of a process that has opened a file ends there.
\<close>

function path_entries :: "string \<Rightarrow> string list" where
  \<comment> \<open>the loop \<open>while(*env)\<close>\<close>
  "path_entries env = (if env = [] then [] else
     (let s = dropWhile (\<lambda>c. c \<noteq> CHR '':'') env
      in takeWhile (\<lambda>c. c \<noteq> CHR '':'') env # path_entries (drop 1 s)))"
  by pat_completeness auto
termination
  by (relation "measure length") (auto simp: Let_def dropWhile_eq_drop less_Suc_eq_le)

declare path_entries.simps [simp del]

fun openv_loop :: "net \<Rightarrow> string \<Rightarrow> string \<Rightarrow> string list \<Rightarrow> netst \<Rightarrow> (socket option \<times> netst) option" where
  \<comment> \<open>\<open>buf\<close> has 256 bytes\<close>
  "openv_loop nw nm ctrl [] st = Some (None, st)"
| "openv_loop nw nm ctrl (e # es) st =
     (let buf = nm @ ''@'' @ e
      in if 256 \<le> length buf then None
         else do {
           (skt, st1) \<leftarrow> Sopen nw (Some buf) ctrl st;
           if skt \<noteq> None then Some (skt, st1) else openv_loop nw nm ctrl es st1 })"

definition Sopenv :: "net \<Rightarrow> string \<Rightarrow> string \<Rightarrow> string option \<Rightarrow> netst \<Rightarrow> (socket option \<times> netst) option" where
  "Sopenv nw nm ctrl env_var st = do {
     (skt, st1) \<leftarrow> Sopen nw (Some nm) ctrl st;
     if skt \<noteq> None then Some (skt, st1)
     else if ctrl = ''s'' \<or> ctrl = ''S'' then Some (None, st1)
     else (case n_getenv nw (case env_var of None \<Rightarrow> ''SKTPATH'' | Some v \<Rightarrow> if v = '''' then ''SKTPATH'' else v) of
         None \<Rightarrow> Some (None, st1)
       | Some env \<Rightarrow> openv_loop nw (cut_at nm) ctrl (path_entries env) st1) }"

function fopenv_loop :: "(string \<Rightarrow> 'f option) \<Rightarrow> string \<Rightarrow> string \<Rightarrow> string \<Rightarrow> 'f option \<times> string" where
  \<comment> \<open>the variable's text before \<open>env\<close> and from there on; with its text afterwards\<close>
  "fopenv_loop fop nm before env = (if env = [] then (None, before)
     else let d = takeWhile (\<lambda>c. c \<noteq> CHR '':'') env; s = dropWhile (\<lambda>c. c \<noteq> CHR '':'') env
       in case fop (d @ ''/'' @ nm) of
            Some fp \<Rightarrow> (Some fp, before @ d)
          | None \<Rightarrow> (if s = [] then (None, before @ env)
              else fopenv_loop fop nm (before @ d @ '':'') (drop 1 s)))"
  by pat_completeness auto
termination
  by (relation "measure (\<lambda>(fop, nm, before, env). length env)")
    (auto simp: Let_def dropWhile_eq_drop less_Suc_eq_le)

declare fopenv_loop.simps [simp del]

definition fopenv :: "(string \<Rightarrow> 'f option) \<Rightarrow> string \<Rightarrow> string option \<Rightarrow> 'f option \<times> string option" where
  \<comment> \<open>\<open>fopen\<close>, the file, and the environment variable\<close>
  "fopenv fop filename env = (case fop filename of Some fp \<Rightarrow> (Some fp, env)
     | None \<Rightarrow> (case env of None \<Rightarrow> (None, None)
         | Some v \<Rightarrow> map_prod id Some (fopenv_loop fop filename '''' v)))"

end
