(* ===== verification/Ssl_Tools.thy ===== *)
theory Ssl_Tools
  imports Ssl_Open
begin

text \<open>
  The programs that come with the library: \<open>EXE/spmtable.c\<close> (lists the servers a PortMaster knows),
  \<open>EXE/spmchk.c\<close> (whether a PortMaster runs) and \<open>EXE/srmsrvr.c\<close> (removes servers).  What they print
  is given without its colours.
\<close>

datatype pm_report =
    NoPortMaster          \<comment> \<open>unable to connect\<close>
  | NotResponding
  | Refusing
  | NoEntryCount
  | NoServers
  | Servers "string list" \<comment> \<open>the lines received; fewer than announced after an error\<close>

definition sread_event :: "string \<Rightarrow> conn \<Rightarrow> (event \<times> conn) option" where
  \<comment> \<open>\<open>Sread\<close> of two bytes, which may give one only\<close>
  "sread_event junk c = do {
     (_, bs, so) \<leftarrow> Sread (Some (io c)) 2;
     Some (get16 (overwrite bs junk), c\<lparr>io := the so\<rparr>) }"

function table_ask :: "nat \<Rightarrow> conn \<Rightarrow> (answer \<times> conn) option" where
  \<comment> \<open>after \<open>PM_MAXTRY\<close> tries the program goes on all the same\<close>
  "table_ask itry c =
     (if PM_MAXTRY \<le> itry then Some (Granted, c)
      else do {
        (ok, c1) \<leftarrow> ready (put_event PM_TABLE c);
        if \<not> ok then Some (Silent, c1) else do {
          (mesg, c2) \<leftarrow> sread_event (put16 PM_TABLE) c1;
          if mesg = PM_OK then Some (Granted, c2)
          else if mesg = PM_SORRY then Some (Refused, c2)
          else table_ask (itry + 1) c2 } })"
  by pat_completeness auto
termination
  by (relation "measure (\<lambda>(n, c). PM_MAXTRY - n)") auto

declare table_ask.simps [simp del]

fun table_rows :: "nat \<Rightarrow> string \<Rightarrow> conn \<Rightarrow> (string list \<times> conn) option" where
  \<comment> \<open>the number of rows still to come, and \<open>locbuf\<close>\<close>
  "table_rows 0 buf c = Some ([], c)"
| "table_rows (Suc cnt) buf c = do {
     (ok, c1) \<leftarrow> ready c;
     if \<not> ok then Some ([], c1) else do {
       (got, buf', c2) \<leftarrow> read_string buf 256 c1;
       if \<not> got then Some ([], c2) else do {
         (rows, c3) \<leftarrow> table_rows cnt buf' c2;
         Some (cstr buf' # rows, c3) } } }"

definition table_protocol :: "string \<Rightarrow> conn \<Rightarrow> (pm_report \<times> conn) option" where
  \<comment> \<open>\<open>stack\<close> is what \<open>locbuf\<close> and \<open>cnt\<close> hold at first\<close>
  "table_protocol stack c = do {
     (a, c1) \<leftarrow> table_ask 0 c;
     (case a of Silent \<Rightarrow> Some (NotResponding, c1) | Refused \<Rightarrow> Some (Refusing, c1)
      | Granted \<Rightarrow> do {
          (ok, c2) \<leftarrow> ready c1;
          if \<not> ok then Some (NoEntryCount, c2) else do {
            (cnt, c3) \<leftarrow> sread_event stack c2;
            if cnt = 0 then Some (NoServers, c3) else do {
              (rows, c4) \<leftarrow> table_rows (unat cnt) stack c3;
              Some (Servers rows, c4) } } }) }"

definition printPMtable :: "net \<Rightarrow> string \<Rightarrow> string \<Rightarrow> netst \<Rightarrow> (pm_report \<times> netst) option" where
  "printPMtable nw stack host st =
     (let (pmskt, st1) = Sopen_clientport nw host (Some ''PMClient'') PORTMASTER st
      in case pmskt of None \<Rightarrow> Some (NoPortMaster, st1)
         | Some pm \<Rightarrow> do { (r, c) \<leftarrow> table_protocol stack (sk_conn pm); Some (r, hang_up c st1) })"

fun print_tables :: "net \<Rightarrow> string \<Rightarrow> string list \<Rightarrow> netst \<Rightarrow> ((string \<times> pm_report) list \<times> netst) option" where
  "print_tables nw stack [] st = Some ([], st)"
| "print_tables nw stack (h # hs) st = do {
     (r, st1) \<leftarrow> printPMtable nw stack h st;
     (rs, st2) \<leftarrow> print_tables nw stack hs st1;
     Some ((h, r) # rs, st2) }"

function split_machines :: "string \<Rightarrow> string list" where
  \<comment> \<open>the parts between the separators, empty ones included\<close>
  "split_machines s = (let r = dropWhile (\<lambda>c. c \<noteq> CHR '':'') s; m = takeWhile (\<lambda>c. c \<noteq> CHR '':'') s
     in if r = [] then [m] else m # split_machines (drop 1 r))"
  by pat_completeness auto
termination
  by (relation "measure length") (auto simp: Let_def dropWhile_eq_drop less_Suc_eq_le)

declare split_machines.simps [simp del]

definition spmtable_arg :: "net \<Rightarrow> string \<Rightarrow> string list" where
  \<comment> \<open>the machines an argument stands for\<close>
  "spmtable_arg nw arg =
     (if take 1 arg = ''-'' then
        (let envvar = drop 1 arg
         in case n_getenv nw (if envvar \<noteq> [] then envvar else ''SKTPATH'') of
              None \<Rightarrow> [] | Some machines \<Rightarrow> split_machines machines)
      else [arg])"

definition spmtable_main :: "net \<Rightarrow> string \<Rightarrow> string list \<Rightarrow> netst \<Rightarrow> ((string \<times> pm_report) list \<times> netst) option" where
  "spmtable_main nw stack args st = print_tables nw stack
     (if args \<noteq> [] then concat (map (spmtable_arg nw) args)
      else (case n_getenv nw ''PMSHARE'' of Some h \<Rightarrow> [h] | None \<Rightarrow> [local_host nw])) st"

definition spmchk_main :: "net \<Rightarrow> string list \<Rightarrow> netst \<Rightarrow> (int \<times> netst) option" where
  \<comment> \<open>the exit status; \<open>hostnm\<close> has 256 bytes\<close>
  "spmchk_main nw args st =
     (let hostnm = (case args of [] \<Rightarrow> local_host nw | a # _ \<Rightarrow> a)
      in if 256 \<le> length hostnm then None
         else (case Sopen_clientport nw hostnm (Some ''PMClient'') PORTMASTER st of
             (None, st1) \<Rightarrow> Some (2, st1)
           | (Some s, st1) \<Rightarrow> map_option (Pair 0) (Sclose nw (Some s) st1)))"

fun srmsrvr_main :: "net \<Rightarrow> string list \<Rightarrow> netst \<Rightarrow> (string list \<times> netst) option" where
  \<comment> \<open>the servers that could not be removed\<close>
  "srmsrvr_main nw [] st = Some ([], st)"
| "srmsrvr_main nw (a # as) st = do {
     (r, a', st1) \<leftarrow> Srmsrvr nw a st;
     (failed, st2) \<leftarrow> srmsrvr_main nw as st1;
     Some (if r \<noteq> PM_OK then a' # failed else failed, st2) }"

end
