(* ===== verification/Ssl_Text.thy ===== *)
theory Ssl_Text
  imports C_Text Ssl_Io_Lemmas
begin

text \<open>
  The text utilities of the Simple Sockets Library: \<open>stpblk.c\<close>, \<open>srmtrblk.c\<close>, \<open>stpnxt.c\<close> and
  \<open>strnxtfmt.c\<close>.

  A \<open>char *\<close> into a string is the rest of the string from there; of two pointers into the same
  string the one with the longer rest is the smaller one.
\<close>

definition stpblk :: "string \<Rightarrow> string" where
  "stpblk p = dropWhile c_isspace p"

definition FF :: char where
  "FF = CHR 0x0C"

definition srmtrblk :: "string \<Rightarrow> string" where
  \<comment> \<open>blanks at the end, but no form feed\<close>
  "srmtrblk s = rev (dropWhile (\<lambda>c. c_isspace c \<and> c \<noteq> FF) (rev s))"

subsection \<open>stpnxt\<close>

definition skip_sign :: "string \<Rightarrow> string" where
  "skip_sign s = (case s of [] \<Rightarrow> [] | c # cs \<Rightarrow> if c = CHR ''-'' \<or> c = CHR ''+'' then cs else s)"

definition skip_char :: "char \<Rightarrow> string \<Rightarrow> string" where
  \<comment> \<open>\<open>if (*s == c) ++s;\<close>\<close>
  "skip_char c s = (case s of [] \<Rightarrow> [] | x # xs \<Rightarrow> if x = c then xs else s)"

definition fmt_code :: "string \<Rightarrow> string" where
  \<comment> \<open>from behind a \<open>%\<close> to the format code character: flag, width, precision and length modifier\<close>
  "fmt_code fmt = (let f1 = skip_char (CHR ''-'') fmt;
       f2 = (case f1 of [] \<Rightarrow> [] | c # _ \<Rightarrow>
          if c_isdigit c then dropWhile (\<lambda>x. c_isdigit x \<or> x = CHR ''.'') f1 else f1)
     in (case f2 of [] \<Rightarrow> [] | c # cs \<Rightarrow> if c = CHR ''l'' \<or> c = CHR ''h'' then cs else f2))"

definition stp_hex :: "string \<Rightarrow> string" where
  "stp_hex s = (let s1 = skip_sign s;
       s2 = (if take 2 s1 = ''0x'' then drop 2 s1 else s1)
     in dropWhile (\<lambda>c. hex_val c \<noteq> None) s2)"

definition stp_float :: "string \<Rightarrow> string" where
  \<comment> \<open>what follows the digits of \<open>%e\<close>, \<open>%f\<close>, \<open>%g\<close> and \<open>%u\<close>\<close>
  "stp_float s = (let s2 = dropWhile c_isdigit (skip_char (CHR ''.'') s)
     in (case s2 of [] \<Rightarrow> [] | c # cs \<Rightarrow>
        if c = CHR ''e'' then dropWhile c_isdigit (skip_sign cs) else s2))"

definition stp_code :: "char \<Rightarrow> string \<Rightarrow> string + (string \<times> string)" where
  \<comment> \<open>the switch: \<open>Inl\<close> is an early return, \<open>Inr (s, ss)\<close> the two pointers after it\<close>
  "stp_code k s =
     (if k = CHR ''s'' then Inr (dropWhile (\<lambda>c. \<not> c_isspace c) (stpblk s), s)
      else if k = CHR ''c'' then Inr (drop 1 s, s)
      else if k = CHR ''x'' then Inr (stp_hex (stpblk s), stpblk s)
      else if k = CHR ''o'' then Inr (dropWhile is_octal (skip_sign (stpblk s)), stpblk s)
      else if k = CHR ''d'' then Inr (dropWhile c_isdigit (skip_sign (stpblk s)), stpblk s)
      else if k = CHR ''e'' \<or> k = CHR ''f'' \<or> k = CHR ''g'' \<or> k = CHR ''u'' then
        Inr (stp_float (dropWhile c_isdigit (skip_sign (stpblk s))), stpblk s)
      else if k = CHR ''%'' then
        (let s1 = stpblk s in if take 1 s1 \<noteq> [k] then Inl s1 else Inr (s1, s))
      else if k = CHR ''b'' then Inr (stpblk s, s)
      else Inr (s, s))"

lemma dropWhile_Cons_length: "dropWhile P xs = c # cs \<Longrightarrow> length cs < length xs"
  by (metis Suc_le_lessD length_Cons length_dropWhile_le)

lemma fmt_code_length: "length (fmt_code f) \<le> length f"
  by (auto simp: fmt_code_def skip_char_def Let_def split: list.split dest!: dropWhile_Cons_length)

function stpnxt_loop :: "string \<Rightarrow> string \<Rightarrow> string" where
  "stpnxt_loop s fmt = (if s = [] then s else (case fmt of [] \<Rightarrow> s | c # f \<Rightarrow>
     if c = CHR ''%'' then
       (case fmt_code f of [] \<Rightarrow> s
        | k # f' \<Rightarrow> (case stp_code k s of Inl r \<Rightarrow> r
           | Inr (s', ss) \<Rightarrow> if length ss \<le> length s' then ss else stpnxt_loop s' f'))
     else if c_isspace c then stpnxt_loop s f
     else (case stpblk s of [] \<Rightarrow> [] | x # s' \<Rightarrow> if x \<noteq> c then x # s' else stpnxt_loop s' f)))"
  by pat_completeness auto
termination
proof (relation "measure (\<lambda>(s, fmt). length fmt)")
  show "((s', f'), (s, fmt)) \<in> measure (\<lambda>(s, fmt). length fmt)"
    if "fmt = c # f" and "fmt_code f = k # f'" for s fmt c f k f' and s' :: string
    using that fmt_code_length [of f] by simp
qed auto

declare stpnxt_loop.simps [simp del]

definition stpnxt :: "string option \<Rightarrow> string \<Rightarrow> string option" where
  "stpnxt s fmt = map_option (\<lambda>s. stpnxt_loop s fmt) s"

subsection \<open>strnxtfmt\<close>

definition fmt_flag :: "char \<Rightarrow> bool" where
  "fmt_flag c = (c_isdigit c \<or> c \<in> {CHR ''l'', CHR ''L'', CHR ''h'', CHR ''-'', CHR ''.''})"

fun next_fmt :: "string \<Rightarrow> string \<times> string" where
  \<comment> \<open>the single format string, and where \<open>fmt\<close> stands after it\<close>
  "next_fmt [] = ([], [])"
| "next_fmt [c] = ([c], [])"
| "next_fmt (c # d # cs) =
     (if c = CHR ''%'' then
        (if d = CHR ''%'' then (case next_fmt cs of (a, b) \<Rightarrow> (c # d # a, b))
         else (case dropWhile fmt_flag (d # cs) of [] \<Rightarrow> (c # d # cs, [])
            | k # r \<Rightarrow> (c # takeWhile fmt_flag (d # cs) @ [k], r)))
      else (case next_fmt (d # cs) of (a, b) \<Rightarrow> (c # a, b)))"

definition strnxtfmt :: "string option \<Rightarrow> string \<Rightarrow> (string option \<times> string) option" where
  \<comment> \<open>with the static variable \<open>f\<close>; a single format that does not fit into \<open>locbuf\<close> overruns it\<close>
  "strnxtfmt fmt f = (let s = (case fmt of None \<Rightarrow> f | Some x \<Rightarrow> x)
     in if s = [] then Some (None, s)
        else (case next_fmt s of (a, r) \<Rightarrow> if length a < 256 then Some (Some a, r) else None))"

subsection \<open>Facts\<close>

lemma stpblk_skip_ws: "stpblk = skip_ws"
  by (simp add: fun_eq_iff stpblk_def skip_ws_def)

lemma digit_not_space: "c_isdigit c \<Longrightarrow> \<not> c_isspace c"
  by (auto simp: c_isdigit_def c_isspace_def)

text \<open>Where \<open>sscanf\<close> converts a word or a number, \<open>stpnxt\<close> goes to where the conversion ends.\<close>

lemma stpnxt_word:
  assumes "skip_ws s \<noteq> []"
  shows "stpnxt_loop s ''%s'' = skip_word (skip_ws s)"
proof -
  have "s \<noteq> []" using assms by (auto simp: skip_ws_def)
  obtain c t where t: "skip_ws s = c # t" using assms by (cases "skip_ws s") auto
  have l: "length (skip_ws s) \<le> length s" by (simp add: skip_ws_def length_dropWhile_le)
  have "\<not> c_isspace c" using t by (metis hd_dropWhile list.sel(1) list.simps(3) skip_ws_def)
  then have "length (skip_word (skip_ws s)) < length s"
    using t l length_dropWhile_le [of "\<lambda>c. \<not> c_isspace c" t] by (simp add: skip_word_def)
  with \<open>s \<noteq> []\<close> show ?thesis
    by (simp add: stpnxt_loop.simps fmt_code_def skip_char_def c_isdigit_def stp_code_def stpblk_skip_ws skip_word_def
        split: list.split)
qed

lemma split_sign_skip: "snd (split_sign s) = skip_sign s"
  by (simp add: split_sign_def skip_sign_def split: list.split)

lemma stpnxt_number:
  assumes "scan_int s = Some (i, r)"
  shows "stpnxt_loop s ''%d'' = r"
proof -
  let ?t = "skip_sign (skip_ws s)"
  have r: "takeWhile c_isdigit ?t \<noteq> []" "dropWhile c_isdigit ?t = r"
    using assms split_sign_skip [of "skip_ws s"]
    by (auto simp: scan_int_def Let_def split: prod.splits if_splits)
  then obtain c t where t: "?t = c # t" "c_isdigit c"
    by (cases ?t) (auto split: if_splits)
  have "length ?t \<le> length (skip_ws s)" by (simp add: skip_sign_def split: list.split)
  then have "length r < length (skip_ws s)"
    using r(2) t length_dropWhile_le [of c_isdigit t] by simp
  moreover have "s \<noteq> []" using t by (auto simp: skip_ws_def skip_sign_def)
  ultimately show ?thesis using r(2)
    by (simp add: stpnxt_loop.simps fmt_code_def skip_char_def c_isdigit_def stp_code_def stpblk_skip_ws
        split: list.split)
qed

text \<open>The literal \<open>%%\<close> is compared but not stepped over.\<close>

lemma stpnxt_percent: "stpnxt_loop (CHR ''%'' # s) ''%%d'' = CHR ''%'' # s"
  by (simp add: stpnxt_loop.simps fmt_code_def skip_char_def c_isdigit_def stp_code_def stpblk_def c_isspace_def Let_def)

lemma next_fmt_append: "next_fmt fmt = (a, b) \<Longrightarrow> a @ b = fmt"
proof (induction fmt arbitrary: a b rule: next_fmt.induct)
  case (3 c d cs)
  then show ?case
  proof (cases "c = CHR ''%'' \<and> d \<noteq> CHR ''%''")
    case True
    with 3(3) takeWhile_dropWhile_id [of fmt_flag "d # cs"] show ?thesis
      by (auto split: list.splits simp del: takeWhile.simps dropWhile.simps takeWhile_dropWhile_id)
  qed (auto split: prod.splits if_splits)
qed auto

lemma next_fmt_progress: "fmt \<noteq> [] \<Longrightarrow> fst (next_fmt fmt) \<noteq> []"
  by (cases fmt rule: next_fmt.cases) (auto split: prod.split list.split)

function conversions :: "string \<Rightarrow> nat" where
  "conversions [] = 0"
| "conversions [c] = (if c = CHR ''%'' then 1 else 0)"
| "conversions (c # d # cs) = (if c = CHR ''%'' then
     (if d = CHR ''%'' then conversions cs else 1 + conversions (drop 1 (dropWhile fmt_flag (d # cs))))
   else conversions (d # cs))"
  by pat_completeness auto
termination
  by (relation "measure length") (auto intro: le_less_trans [OF length_dropWhile_le] simp: le_imp_less_Suc less_Suc_eq_le
      intro!: le_trans [OF diff_le_self] le_SucI length_dropWhile_le)

lemma next_fmt_conversions:
  "next_fmt fmt = (a, b) \<Longrightarrow> conversions fmt = (if b = [] then conversions fmt else 1 + conversions b)"
proof (induction fmt arbitrary: a b rule: next_fmt.induct)
  case (3 c d cs)
  then show ?case by (auto split: prod.splits if_splits list.splits simp del: dropWhile.simps takeWhile.simps)
qed auto

function fmt_pieces :: "string \<Rightarrow> string list" where
  \<comment> \<open>what \<open>strnxtfmt\<close> gives when it is called until it returns the null pointer\<close>
  "fmt_pieces fmt = (if fmt = [] then [] else fst (next_fmt fmt) # fmt_pieces (snd (next_fmt fmt)))"
  by pat_completeness auto
termination
proof (relation "measure length")
  fix fmt :: string
  assume "fmt \<noteq> []"
  from next_fmt_progress [OF this] next_fmt_append [of fmt "fst (next_fmt fmt)" "snd (next_fmt fmt)"]
  have "length (snd (next_fmt fmt)) < length fmt"
    by (metis add_less_cancel_right length_append length_greater_0_conv less_add_same_cancel2 prod.collapse)
  then show "(snd (next_fmt fmt), fmt) \<in> measure length" by simp
qed auto

declare fmt_pieces.simps [simp del]

lemma fmt_pieces_concat: "concat (fmt_pieces fmt) = fmt"
proof (induction fmt rule: fmt_pieces.induct)
  case (1 fmt)
  then show ?case
    using next_fmt_append [of fmt "fst (next_fmt fmt)" "snd (next_fmt fmt)"]
    by (subst fmt_pieces.simps) auto
qed

lemma fmt_pieces_length: "conversions fmt \<le> length (fmt_pieces fmt) \<and> length (fmt_pieces fmt) \<le> conversions fmt + 1"
proof (induction fmt rule: fmt_pieces.induct)
  case (1 fmt)
  show ?case
  proof (cases "fmt = []")
    case True then show ?thesis by (simp add: fmt_pieces.simps)
  next
    case False
    have one: "conversions x \<le> 1" if "next_fmt x = (a, [])" for x a
      using that by (induction x arbitrary: a rule: next_fmt.induct)
        (auto split: prod.splits if_splits list.splits simp: iffD2 [OF dropWhile_eq_Nil_conv])
    obtain a b where ab: "next_fmt fmt = (a, b)" by fastforce
    show ?thesis
    proof (cases "b = []")
      case True
      with one ab False show ?thesis by (simp add: fmt_pieces.simps)
    next
      case b: False
      with next_fmt_conversions [OF ab] 1 [OF False] ab False show ?thesis
        by (subst (1 2) fmt_pieces.simps) simp
    qed
  qed
qed

text \<open>
  \<open>strnxtfmt\<close> cuts a format into pieces that are the format when they are put together again, and
  their number is the number of its conversions, or one more.
\<close>

lemma strnxtfmt_splits_format:
  "concat (fmt_pieces fmt) = fmt \<and> conversions fmt \<le> length (fmt_pieces fmt) \<and>
   length (fmt_pieces fmt) \<le> conversions fmt + 1 \<and>
   strnxtfmt (Some fmt) f = (if fmt = [] then Some (None, [])
     else if length (hd (fmt_pieces fmt)) < 256
     then Some (Some (hd (fmt_pieces fmt)), concat (List.tl (fmt_pieces fmt))) else None)"
proof -
  have "snd (next_fmt fmt) = concat (fmt_pieces (snd (next_fmt fmt)))" by (simp add: fmt_pieces_concat)
  then have "strnxtfmt (Some fmt) f = (if fmt = [] then Some (None, [])
     else if length (hd (fmt_pieces fmt)) < 256
     then Some (Some (hd (fmt_pieces fmt)), concat (List.tl (fmt_pieces fmt))) else None)"
    by (subst (1 2 3) fmt_pieces.simps) (simp add: strnxtfmt_def split_beta)
  then show ?thesis using fmt_pieces_concat [of fmt] fmt_pieces_length [of fmt] by simp
qed

end
