(* ===== verification/Spm.thy ===== *)
theory Spm
  imports Ssl_Wire Ssl_Text
begin

text \<open>
  The PortMaster (\<open>EXE/Spm.c\<close>): the table of servers, the clients that wait for a server, the
  firewall, and the handling of one connection after the other.

  The doubly linked lists are lists.  A handler gives how it ends (it returns, jumps back to
  \<open>timedout\<close> in \<open>main\<close>, or calls \<open>exit\<close>; \<open>Kept\<close> is a return after which the connection stays open), the state and the connection; \<open>None\<close> is a handler that
  blocks or loops for ever.  Memory is never exhausted.
\<close>

record port_table =
  pt_sktname :: string
  pt_sharehost :: "string option"
  pt_port :: "16 word"

record client_waiting =
  cw_client :: conn
  cw_sktname :: string

record spm =
  phd :: "port_table list"
  cwhd :: "client_waiting list"
  spmfwhd :: "int list list"
  hostaddr :: "int list"
  sktname :: string                \<comment> \<open>the static buffers\<close>
  sharehost :: string
  sclosed :: "conn list"           \<comment> \<open>the connections closed so far\<close>

record spm_env =
  spm_stack :: string              \<comment> \<open>what local variables without initial value hold\<close>
  spm_getenv :: "string option"    \<comment> \<open>the environment variable \<open>SPMFIREWALL\<close>\<close>
  spm_fopen :: "string \<Rightarrow> string option"   \<comment> \<open>the contents of a file\<close>
  spm_malloc :: "int list"         \<comment> \<open>what fresh memory holds\<close>

datatype outcome = Returned | Kept | Timedout | Exited

type_synonym spm_result = "(outcome \<times> spm \<times> conn) option"

definition await :: "spm \<Rightarrow> conn \<Rightarrow> (conn \<Rightarrow> spm_result) \<Rightarrow> spm_result" where
  \<comment> \<open>\<open>if(Stimeoutwait(client,TIMEOUT,0L) < 0) longjmp(timedout,1);\<close>\<close>
  "await s c k = do { (ok, c1) \<leftarrow> ready c; if ok then k c1 else Some (Timedout, s, c1) }"

definition makePortTable :: "16 word \<Rightarrow> string option \<Rightarrow> spm \<Rightarrow> port_table \<times> spm" where
  "makePortTable port share s =
     (let p = \<lparr>pt_sktname = cstr (sktname s), pt_sharehost = share, pt_port = port\<rparr>
      in (p, s\<lparr>phd := phd s @ [p]\<rparr>))"

definition delPortTable :: "port_table \<Rightarrow> spm \<Rightarrow> spm" where
  \<comment> \<open>always called with the first node for which a condition holds\<close>
  "delPortTable p s = s\<lparr>phd := remove1 p (phd s)\<rparr>"

definition send_port :: "port_table \<Rightarrow> conn \<Rightarrow> conn" where
  \<comment> \<open>\<open>PM_OK\<close>, or \<open>PM_OKSHARE\<close> and the host, and the port number\<close>
  "send_port p c = put_bytes (put16 (pt_port p))
     (case pt_sharehost p of
        Some h \<Rightarrow> put_string h (put_event PM_OKSHARE c)
      | None \<Rightarrow> put_event PM_OK c)"

subsection \<open>Servers\<close>

partial_function (option) serve_loop ::
    "port_table \<Rightarrow> string \<Rightarrow> client_waiting list \<Rightarrow> client_waiting list \<Rightarrow> spm \<Rightarrow> spm option" where
  \<comment> \<open>the loop over the waiting clients; a pointer into the list is the list from there on\<close>
  "serve_loop p nm cw cwnxt s = (case cw of [] \<Rightarrow> Some s
     | x # nxt \<Rightarrow>
         if cw_sktname x = nm then
           serve_loop p nm nxt nxt
             (s\<lparr>cwhd := remove1 x (cwhd s), sclosed := sclosed s @ [send_port p (cw_client x)]\<rparr>)
         else serve_loop p nm cwnxt cwnxt s)"

definition register :: "spm_env \<Rightarrow> event \<Rightarrow> spm \<Rightarrow> conn \<Rightarrow> spm_result" where
  \<comment> \<open>\<open>pm_server\<close> once the name is in \<open>sktname\<close>\<close>
  "register e event s c =
     (if \<exists>p\<in>set (phd s). cstr (sktname s) = pt_sktname p then Some (Returned, s, put_event PM_SORRY c)
      else await s c (\<lambda>c1. do {
        (_, port, c2) \<leftarrow> read_event (spm_stack e) c1;
        let (p, s2) = makePortTable port (if event = PM_SHARE then Some (cstr (sharehost s)) else None) s;
        await s2 (put_event PM_OK c2) (\<lambda>c3. do {
          (_, mesg, c4) \<leftarrow> read_event (spm_stack e) c3;
          if mesg \<noteq> PM_OK then Some (Timedout, s2, c4)
          else do {
            s3 \<leftarrow> serve_loop p (cstr (sktname s2)) (cwhd s2) [] s2;
            Some (Returned, s3, c4) } }) }))"

definition pm_server :: "spm_env \<Rightarrow> event \<Rightarrow> spm \<Rightarrow> conn \<Rightarrow> spm_result" where
  "pm_server e event s c =
     (let c0 = put_event PM_OK c;
          rest = (\<lambda>s1 c1. await s1 c1 (\<lambda>c2. do {
            (_, buf, c3) \<leftarrow> read_string (sktname s1) BUFSIZE c2;
            register e event (s1\<lparr>sktname := buf\<rparr>) c3 }))
      in if event = PM_SHARE then
           await s c0 (\<lambda>c1. do {
             (_, buf, c2) \<leftarrow> read_string (sharehost s) BUFSIZE c1;
             rest (s\<lparr>sharehost := buf\<rparr>) c2 })
         else rest (s\<lparr>sharehost := (sharehost s)[0 := NUL]\<rparr>) c0)"

subsection \<open>Clients\<close>

definition pm_client :: "bool \<Rightarrow> spm \<Rightarrow> conn \<Rightarrow> spm_result" where
  "pm_client waiting s c = await s (put_event PM_OK c) (\<lambda>c1. do {
     (_, buf, c2) \<leftarrow> read_string (sktname s) BUFSIZE c1;
     let s1 = s\<lparr>sktname := buf\<rparr>;
     (case List.find (\<lambda>p. pt_sktname p = cstr buf) (phd s1) of
        Some p \<Rightarrow> Some (Returned, s1, send_port p c2)
      | None \<Rightarrow>
          if waiting then
            Some (Returned, s1\<lparr>cwhd := cwhd s1 @ [\<lparr>cw_client = c2, cw_sktname = cstr buf\<rparr>]\<rparr>, c2)
          else Some (Returned, s1, put_event PM_SORRY c2)) })"

subsection \<open>The other requests\<close>

definition pm_close :: "spm_env \<Rightarrow> spm \<Rightarrow> conn \<Rightarrow> spm_result" where
  "pm_close e s c = await s (put_event PM_OK c) (\<lambda>c1. do {
     (_, port, c2) \<leftarrow> read_event (spm_stack e) c1;
     (case List.find (\<lambda>p. pt_port p = port) (phd s) of
        Some p \<Rightarrow> Some (Returned, delPortTable p s, put_event PM_OK c2)
      | None \<Rightarrow> Some (Returned, s, put_event PM_SORRY c2)) })"

definition pm_quit :: "spm \<Rightarrow> conn \<Rightarrow> spm_result" where
  "pm_quit s c = await s (put_event PM_OK c) (\<lambda>c1. do {
     (_, buf, c2) \<leftarrow> read_string (sktname s) BUFSIZE c1;
     let s1 = s\<lparr>sktname := buf\<rparr>;
     (if cstr buf = ''PortMaster'' then Some (Exited, s1, c2)
      else Some (Returned, s1, put_event PM_SORRY c2)) })"

definition table_line :: "port_table \<Rightarrow> string" where
  \<comment> \<open>the two formats of \<open>Sprintf\<close>\<close>
  "table_line p = pt_sktname p @ (case pt_sharehost p of Some h \<Rightarrow> ''@'' @ h | None \<Rightarrow> '''') @ '' : '' @
     string_of_int (uint (pt_port p))"

definition pm_table :: "spm \<Rightarrow> conn \<Rightarrow> spm_result" where
  \<comment> \<open>the count is a 16 bit word\<close>
  "pm_table s c = Some (Returned, s,
     fold (\<lambda>p. put_string (table_line p)) (phd s)
       (put_bytes (put16 (of_nat (length (phd s)))) (put_event PM_OK c)))"

definition pm_rmserver :: "spm_env \<Rightarrow> spm \<Rightarrow> conn \<Rightarrow> spm_result" where
  "pm_rmserver e s c = await s (put_event PM_OK c) (\<lambda>c1. do {
     (_, locbuf, c2) \<leftarrow> read_string (spm_stack e) BUFSIZE c1;
     (case List.find (\<lambda>p. pt_sktname p = cstr locbuf) (phd s) of
        Some p \<Rightarrow> Some (Returned, delPortTable p s, put_event PM_OK c2)
      | None \<Rightarrow> Some (Returned, s, put_event PM_SORRY c2)) })"

subsection \<open>The firewall\<close>

definition SPMFWDATA :: nat where
  "SPMFWDATA = 6"

definition fw_match :: "string \<Rightarrow> int list \<Rightarrow> bool" where
  "fw_match name data = list_all (\<lambda>i. data ! i = - 1 \<or> data ! i = of_char (name ! i)) [0..<SPMFWDATA]"

definition firewall :: "spm \<Rightarrow> conn \<Rightarrow> bool" where
  \<comment> \<open>whether the connection is rejected\<close>
  "firewall s c = (if spmfwhd s = [] then False
     else (case peeraddr c of None \<Rightarrow> True
       | Some name \<Rightarrow> \<not> list_ex (fw_match name) (spmfwhd s)))"

definition schar :: "int \<Rightarrow> int" where
  \<comment> \<open>the value stored in a \<open>char\<close>, which is signed\<close>
  "schar i = (i + 128) mod 256 - 128"

definition hostaddr_init :: "string \<Rightarrow> int list" where
  \<comment> \<open>the four bytes of \<open>h_addr_list[0]\<close>, and 256 added to those that are negative\<close>
  "hostaddr_init addr = map (\<lambda>b. let h = schar (of_char b) in if h < 0 then schar (h + 256) else h) addr"

function fw_items :: "spm_env \<Rightarrow> nat \<Rightarrow> string \<Rightarrow> int list" where
  \<comment> \<open>the items from number \<open>i\<close> on; a number that cannot be read leaves what the memory held\<close>
  "fw_items e i b = (if SPMFWDATA \<le> i then []
     else if take 1 b = ''*'' then - 1 # fw_items e (Suc i) (stpblk (drop 1 b))
     else (case scan_int b of Some (n, _) \<Rightarrow> n | None \<Rightarrow> spm_malloc e ! i) #
       fw_items e (Suc i) (stpnxt_loop b ''%d%b''))"
  by pat_completeness auto
termination
  by (relation "measure (\<lambda>(e, i, b). SPMFWDATA - i)") auto

declare fw_items.simps [simp del]

definition NEWLINE :: char where
  "NEWLINE = CHR 0x0A"

definition fgets :: "nat \<Rightarrow> string \<Rightarrow> (string \<times> string) option" where
  \<comment> \<open>the line, its newline included, and the rest\<close>
  "fgets n s = (if s = [] then None
     else let l = length (takeWhile (\<lambda>c. c \<noteq> NEWLINE) s) + 1; k = min l (n - 1)
       in Some (take k s, drop k s))"

function fw_lines :: "spm_env \<Rightarrow> string \<Rightarrow> int list list \<Rightarrow> int list list" where
  "fw_lines e content fw = (case fgets BUFSIZE content of None \<Rightarrow> fw
     | Some (buf, rest) \<Rightarrow>
         (let b = stpblk (takeWhile (\<lambda>c. c \<noteq> CHR ''#'') (cstr buf))
          in if b = [] then fw_lines e rest fw else fw_lines e rest (fw_items e 0 b # fw)))"
  by pat_completeness auto
termination
proof (relation "measure (\<lambda>(e, content, fw). length content)")
  have "length rest < length content" if "Some (buf, rest) = fgets BUFSIZE content" for buf rest content
    using that by (auto simp: fgets_def BUFSIZE_def Let_def min_def split: if_splits)
  then show "\<And>e content fw x2 buf rest b. fgets BUFSIZE content = Some x2 \<Longrightarrow> (buf, rest) = x2 \<Longrightarrow> b = stpblk (takeWhile (\<lambda>c. c \<noteq> CHR ''#'') (cstr buf)) \<Longrightarrow>
      b = [] \<Longrightarrow> ((e, rest, fw), e, content, fw) \<in> measure (\<lambda>(e, content, fw). length content)"
    and "\<And>e content fw x2 buf rest b. fgets BUFSIZE content = Some x2 \<Longrightarrow> (buf, rest) = x2 \<Longrightarrow> b = stpblk (takeWhile (\<lambda>c. c \<noteq> CHR ''#'') (cstr buf)) \<Longrightarrow>
      b \<noteq> [] \<Longrightarrow> ((e, rest, fw_items e 0 b # fw), e, content, fw) \<in> measure (\<lambda>(e, content, fw). length content)"
    by simp_all
qed simp

declare fw_lines.simps [simp del]

definition firewall_init :: "spm_env \<Rightarrow> string \<Rightarrow> spm \<Rightarrow> spm" where
  "firewall_init e fwfile s =
     (let s0 = s\<lparr>spmfwhd := []\<rparr>
      in case (if fwfile = [] then spm_getenv e else Some fwfile) of
           None \<Rightarrow> s0
         | Some f \<Rightarrow> (case spm_fopen e f of None \<Rightarrow> s0
             | Some content \<Rightarrow> s0\<lparr>spmfwhd := fw_lines e content [[- 1, - 1] @ hostaddr s]\<rparr>))"

definition pm_fwinit :: "spm_env \<Rightarrow> spm \<Rightarrow> conn \<Rightarrow> spm_result" where
  "pm_fwinit e s c = Some (Returned, firewall_init e '''' s, put_event PM_OK c)"

subsection \<open>main\<close>

definition is_queued :: "conn \<Rightarrow> spm \<Rightarrow> bool" where
  \<comment> \<open>\<open>cwtl && client == cwtl->client\<close>\<close>
  "is_queued c s = (cwhd s \<noteq> [] \<and> cid (cw_client (List.last (cwhd s))) = cid c)"

function event_loop :: "spm_env \<Rightarrow> nat \<Rightarrow> spm \<Rightarrow> conn \<Rightarrow> spm_result" where
  \<comment> \<open>the inner loop, with \<open>resend_cnt\<close>\<close>
  "event_loop e resend_cnt s c = await s c (\<lambda>c1. do {
     (_, event, c2) \<leftarrow> read_event (spm_stack e) c1;
     (if event = PM_SERVER_EV \<or> event = PM_SHARE then pm_server e event s c2
      else if event = PM_CLIENTWAIT then
        map_option (\<lambda>(r, s1, c3). (if r = Returned \<and> is_queued c3 s1 then Kept else r, s1, c3)) (pm_client True s c2)
      else if event = PM_CLIENT_EV then pm_client False s c2
      else if event = PM_CLOSE then pm_close e s c2
      else if event = PM_QUIT then pm_quit s c2
      else if event = PM_TABLE then pm_table s c2
      else if event = PM_RMSERVER then pm_rmserver e s c2
      else if event = PM_FWINIT then pm_fwinit e s c2
      else if PM_MAXTRY < resend_cnt + 1 then Some (Returned, s, put_event PM_RESEND c2)
      else event_loop e (resend_cnt + 1) s (put_event PM_RESEND c2)) })"
  by pat_completeness auto
termination
  by (relation "measure (\<lambda>(e, n, s, c). PM_MAXTRY + 1 - n)") auto

declare event_loop.simps [simp del]

definition spm_accept :: "spm_env \<Rightarrow> conn \<Rightarrow> spm \<Rightarrow> (bool \<times> spm) option" where
  \<comment> \<open>one round of \<open>main\<close>, for a connection that \<open>Saccept\<close> has given; whether the PortMaster goes on\<close>
  "spm_accept e c s =
     (if firewall s c then Some (True, s\<lparr>sclosed := sclosed s @ [put_event PM_SORRY c]\<rparr>)
      else do {
        (r, s1, c1) \<leftarrow> event_loop e 0 s c;
        Some (r \<noteq> Exited,
          if r = Kept then s1 else s1\<lparr>sclosed := sclosed s1 @ [c1]\<rparr>) })"

definition spm_start :: "spm_env \<Rightarrow> string option \<Rightarrow> string \<Rightarrow> spm" where
  \<comment> \<open>the address of the host, if it is known, and the argument of \<open>-f\<close>\<close>
  "spm_start e he fwfile =
     (let s = \<lparr>phd = [], cwhd = [], spmfwhd = [], hostaddr = [0, 0, 0, 0],
        sktname = replicate BUFSIZE NUL, sharehost = replicate BUFSIZE NUL, sclosed = []\<rparr>
      in case he of None \<Rightarrow> s | Some addr \<Rightarrow> firewall_init e fwfile (s\<lparr>hostaddr := hostaddr_init addr\<rparr>))"

end
