(* ===== verification/Spm_Lemmas.thy ===== *)
theory Spm_Lemmas
  imports Spm
begin

text \<open>
  Facts on the PortMaster: the directory of servers as a map, the loop over the waiting clients in
  closed form, what each request does to the state and what it answers, and the invariant that all
  names in the table are different.
\<close>

subsection \<open>The directory\<close>

locale directory =
  fixes wf :: "'s \<Rightarrow> bool"
    and look :: "'k \<Rightarrow> 's \<Rightarrow> 'v option"
    and enter :: "'k \<Rightarrow> 'v \<Rightarrow> 's \<Rightarrow> 's"
    and remove :: "'k \<Rightarrow> 's \<Rightarrow> 's"
  assumes wf_enter: "wf s \<Longrightarrow> look k s = None \<Longrightarrow> wf (enter k v s)"
    and wf_remove: "wf s \<Longrightarrow> wf (remove k s)"
    and look_enter: "wf s \<Longrightarrow> look k s = None \<Longrightarrow> look k' (enter k v s) = (if k' = k then Some v else look k' s)"
    and look_remove: "wf s \<Longrightarrow> look k' (remove k s) = (if k' = k then None else look k' s)"
begin

lemma enter_remove: "wf s \<Longrightarrow> look k s = None \<Longrightarrow> look k' (remove k (enter k v s)) = look k' s"
  by (simp add: wf_enter look_enter look_remove)

lemma remove_enter:
  "wf s \<Longrightarrow> look k' (enter k v (remove k s)) = (if k' = k then Some v else look k' s)"
  by (simp add: look_enter wf_remove look_remove)

lemma enter_after_remove: "wf s \<Longrightarrow> wf (enter k v (remove k s))"
  by (simp add: wf_enter wf_remove look_remove)

end

definition names :: "spm \<Rightarrow> string list" where
  "names s = map pt_sktname (phd s)"

definition names_ok :: "spm \<Rightarrow> bool" where
  "names_ok s = distinct (names s)"

definition pt_find :: "string \<Rightarrow> port_table list \<Rightarrow> port_table option" where
  "pt_find nm ps = List.find (\<lambda>p. pt_sktname p = nm) ps"

definition pt_remove :: "string \<Rightarrow> port_table list \<Rightarrow> port_table list" where
  \<comment> \<open>the search and \<open>delPortTable\<close> of \<open>pm_rmserver\<close>\<close>
  "pt_remove nm ps = (case pt_find nm ps of None \<Rightarrow> ps | Some p \<Rightarrow> remove1 p ps)"

definition pt_enter :: "string \<Rightarrow> string option \<times> 16 word \<Rightarrow> port_table list \<Rightarrow> port_table list" where
  "pt_enter nm v ps = ps @ [\<lparr>pt_sktname = nm, pt_sharehost = fst v, pt_port = snd v\<rparr>]"

definition pt_look :: "string \<Rightarrow> port_table list \<Rightarrow> (string option \<times> 16 word) option" where
  "pt_look nm ps = map_option (\<lambda>p. (pt_sharehost p, pt_port p)) (pt_find nm ps)"

lemma pt_find_None [simp]: "pt_find nm ps = None \<longleftrightarrow> nm \<notin> pt_sktname ` set ps"
  by (auto simp: pt_find_def find_None_iff)

lemma pt_find_simps [simp]:
  "pt_find nm [] = None" "pt_find nm (p # ps) = (if pt_sktname p = nm then Some p else pt_find nm ps)"
  by (simp_all add: pt_find_def)

lemma pt_find_Some: "pt_find nm ps = Some p \<Longrightarrow> p \<in> set ps \<and> pt_sktname p = nm"
  by (induction ps) (auto split: if_splits)

lemma pt_remove_simps [simp]:
  "pt_remove nm [] = []" "pt_remove nm (p # ps) = (if pt_sktname p = nm then ps else p # pt_remove nm ps)"
  by (auto simp: pt_remove_def split: option.split dest: pt_find_Some)

lemma pt_remove_set: "set (pt_remove nm ps) \<subseteq> set ps"
  by (induction ps) auto

lemma pt_remove_distinct: "distinct (map pt_sktname ps) \<Longrightarrow> distinct (map pt_sktname (pt_remove nm ps))"
  using pt_remove_set by (induction ps) (fastforce)+

lemma pt_find_remove:
  "distinct (map pt_sktname ps) \<Longrightarrow> pt_find nm' (pt_remove nm ps) = (if nm' = nm then None else pt_find nm' ps)"
  by (induction ps) (auto simp del: pt_find_None simp: image_iff iffD2 [OF pt_find_None] dest: pt_find_Some)

lemma pt_find_enter: "pt_find nm' (ps @ [p]) =
    (case pt_find nm' ps of Some q \<Rightarrow> Some q | None \<Rightarrow> if pt_sktname p = nm' then Some p else None)"
  by (induction ps) auto

interpretation pt: directory "\<lambda>ps. distinct (map pt_sktname ps)" pt_look pt_enter pt_remove
proof
  fix s :: "port_table list" and k k' v
  assume d: "distinct (map pt_sktname s)"
  show "distinct (map pt_sktname (pt_remove k s))" by (rule pt_remove_distinct [OF d])
  show "pt_look k' (pt_remove k s) = (if k' = k then None else pt_look k' s)"
    by (simp add: pt_look_def pt_find_remove [OF d])
  assume n: "pt_look k s = None"
  then show "distinct (map pt_sktname (pt_enter k v s))" using d by (auto simp: pt_enter_def pt_look_def)
  show "pt_look k' (pt_enter k v s) = (if k' = k then Some v else pt_look k' s)"
    using n by (auto simp: pt_enter_def pt_look_def pt_find_enter simp del: pt_find_None split: option.split)
qed

subsection \<open>The waiting clients\<close>

lemma serve_stuck:
  assumes "cw_sktname x \<noteq> nm"
  shows "serve_loop p nm (x # xs) (x # xs) s = None"
proof -
  have "cw = x # xs \<longrightarrow> nx = x # xs \<longrightarrow> nm' = nm \<longrightarrow> False" if "serve_loop p nm' cw nx s = Some y" for p nm' cw nx s y
    using that
  proof (induction rule: serve_loop.raw_induct [rotated, consumes 1, case_names step])
    case (step loop p nm' cw nx s y)
    then show ?case using assms by (auto split: list.splits if_splits)
  qed
  from this [of p nm "x # xs" "x # xs" s] show ?thesis
    by (cases "serve_loop p nm (x # xs) (x # xs) s") simp_all
qed

definition served :: "port_table \<Rightarrow> client_waiting list \<Rightarrow> spm \<Rightarrow> spm" where
  "served p ws s = s\<lparr>cwhd := [], sclosed := sclosed s @ map (\<lambda>w. send_port p (cw_client w)) ws\<rparr>"

lemma serve_all:
  "cwhd s = ws \<Longrightarrow> serve_loop p nm ws ws s =
     (if list_all (\<lambda>w. cw_sktname w = nm) ws then Some (served p ws s) else None)"
proof (induction ws arbitrary: s)
  case Nil
  then show ?case by (subst serve_loop.simps) (simp add: served_def)
next
  case (Cons x ws)
  show ?case
  proof (cases "cw_sktname x = nm")
    case True
    with Cons show ?thesis by (subst serve_loop.simps) (simp add: served_def)
  qed (simp add: serve_stuck)
qed

lemma serve_loop_result:
  "serve_loop p nm (cwhd s) [] s =
     (if cwhd s = [] \<or> cw_sktname (hd (cwhd s)) \<noteq> nm then Some s
      else if list_all (\<lambda>w. cw_sktname w = nm) (cwhd s) then Some (served p (cwhd s) s) else None)"
proof (cases "cwhd s")
  case Nil
  then show ?thesis by (subst serve_loop.simps) simp
next
  case (Cons x ws)
  show ?thesis
  proof (cases "cw_sktname x = nm")
    case True
    with Cons show ?thesis by (subst serve_loop.simps) (simp add: serve_all served_def)
  next
    case False
    with Cons show ?thesis by (subst serve_loop.simps, simp) (subst serve_loop.simps, simp)
  qed
qed


subsection \<open>The requests\<close>

lemma await_fed [simp]:
  "await s (fed c q e) k = (if q \<noteq> [] \<and> e \<noteq> SelectError then k (fed c q e) else Some (Timedout, s, fed c q e))"
  by (simp add: await_def)

lemma cstring_not_Nil [simp]: "cstring_bytes x \<noteq> []" "cstring_bytes x @ y \<noteq> []"
  by (simp_all add: cstring_bytes_def)

lemma put16_not_Nil [simp]: "put16 x \<noteq> []" "put16 x @ y \<noteq> []"
  by (simp_all add: put16_def)

lemma send_port_fed [simp]: "send_port p (fed c q e) = fed (send_port p c) q e"
  by (simp add: send_port_def split: option.split)

lemma send_port_simps [simp]: "cid (send_port p c) = cid c" "peeraddr (send_port p c) = peeraddr c"
  by (simp_all add: send_port_def split: option.split)

definition port_reply :: "port_table \<Rightarrow> string" where
  "port_reply p = (case pt_sharehost p of Some h \<Rightarrow> put16 PM_OKSHARE @ cstring_bytes h | None \<Rightarrow> put16 PM_OK) @
     put16 (pt_port p)"

lemma out_send_port [simp]: "out (send_port p c) = out c @ port_reply p"
  by (simp add: send_port_def port_reply_def split: option.split)

definition same_but_buffers :: "spm \<Rightarrow> spm \<Rightarrow> bool" where
  "same_but_buffers s s' \<longleftrightarrow> s' = s\<lparr>sktname := sktname s', sharehost := sharehost s'\<rparr>"

lemma same_but_buffers_simps:
  assumes "same_but_buffers s s'"
  shows "phd s' = phd s" "cwhd s' = cwhd s" "spmfwhd s' = spmfwhd s" "hostaddr s' = hostaddr s" "sclosed s' = sclosed s"
  using assms by (simp_all add: same_but_buffers_def) (metis spm.simps spm.surjective spm.update_convs)+

lemma same_but_buffers_intro [simp]:
  "same_but_buffers s s" "same_but_buffers s (s\<lparr>sktname := b\<rparr>)" "same_but_buffers s (s\<lparr>sharehost := b'\<rparr>)"
  "same_but_buffers s (s\<lparr>sktname := b, sharehost := b'\<rparr>)"
  by (simp_all add: same_but_buffers_def)

lemma pm_client_known:
  assumes "fits_buf BUFSIZE nm" and "e \<noteq> SelectError" and "pt_find (cstr nm) (phd s) = Some p"
  shows "\<exists>s'. pm_client waiting s (fed c (cstring_bytes nm @ q) e) =
      Some (Returned, s', fed (send_port p (put_event PM_OK c)) q e) \<and> same_but_buffers s s'"
proof -
  obtain b where b: "read_string (sktname s) BUFSIZE (fed (put_event PM_OK c) (cstring_bytes nm @ q) e) =
      Some (True, b, fed (put_event PM_OK c) q e)" "cstr b = cstr nm"
    using read_string_fed [OF assms(1)] by blast
  with assms show ?thesis by (simp add: pm_client_def pt_find_def)
qed

lemma pm_client_unknown:
  assumes "fits_buf BUFSIZE nm" and "e \<noteq> SelectError" and "pt_find (cstr nm) (phd s) = None"
  shows "\<exists>s'. same_but_buffers s s' \<and> pm_client waiting s (fed c (cstring_bytes nm @ q) e) =
      (let c' = fed (put_event PM_OK c) q e in
       if waiting then Some (Returned, s'\<lparr>cwhd := cwhd s @ [\<lparr>cw_client = c', cw_sktname = cstr nm\<rparr>]\<rparr>, c')
       else Some (Returned, s', put_event PM_SORRY c'))"
proof -
  obtain b where b: "read_string (sktname s) BUFSIZE (fed (put_event PM_OK c) (cstring_bytes nm @ q) e) =
      Some (True, b, fed (put_event PM_OK c) q e)" "cstr b = cstr nm"
    using read_string_fed [OF assms(1)] by blast
  have f: "List.find (\<lambda>p. pt_sktname p = cstr nm) (phd s) = None" using assms(3) by (simp add: pt_find_def)
  show ?thesis
    by (rule exI [of _ "s\<lparr>sktname := b\<rparr>"]) (use b f assms in \<open>simp add: pm_client_def Let_def\<close>)
qed

end
