(* ===== verification/Spm_Requests.thy ===== *)
theory Spm_Requests
  imports Spm_Lemmas
begin

text \<open>
  The PortMaster as a directory service: the bytes of each request, the abstract step of the
  directory with the bytes of the answer, and the proof that a connection served by \<open>main\<close>
  implements that step.
\<close>

datatype pm_request =
    Register string "16 word"
  | Share string string "16 word"
  | Lookup string
  | Unlist "16 word"
  | RemoveServer string
  | Table

fun request_bytes :: "pm_request \<Rightarrow> string" where
  "request_bytes (Register nm port) =
     put16 PM_SERVER_EV @ cstring_bytes nm @ put16 port @ put16 PM_OK"
| "request_bytes (Share h nm port) =
     put16 PM_SHARE @ cstring_bytes h @ cstring_bytes nm @ put16 port @ put16 PM_OK"
| "request_bytes (Lookup nm) = put16 PM_CLIENT_EV @ cstring_bytes nm"
| "request_bytes (Unlist port) = put16 PM_CLOSE @ put16 port"
| "request_bytes (RemoveServer nm) = put16 PM_RMSERVER @ cstring_bytes nm"
| "request_bytes Table = put16 PM_TABLE"

fun request_fits :: "pm_request \<Rightarrow> bool" where
  "request_fits (Register nm port) = fits_buf BUFSIZE nm"
| "request_fits (Share h nm port) = (fits_buf BUFSIZE h \<and> fits_buf BUFSIZE nm)"
| "request_fits (Lookup nm) = fits_buf BUFSIZE nm"
| "request_fits (Unlist port) = True"
| "request_fits (RemoveServer nm) = fits_buf BUFSIZE nm"
| "request_fits Table = True"

fun request_server :: "pm_request \<Rightarrow> string option" where
  \<comment> \<open>the name of the server that a request announces\<close>
  "request_server (Register nm port) = Some (cstr nm)"
| "request_server (Share h nm port) = Some (cstr nm)"
| "request_server _ = None"

fun dir_step :: "pm_request \<Rightarrow> port_table list \<Rightarrow> port_table list \<times> string" where
  "dir_step (Register nm port) ps = (case pt_look (cstr nm) ps of
     Some _ \<Rightarrow> (ps, put16 PM_SORRY) | None \<Rightarrow> (pt_enter (cstr nm) (None, port) ps, put16 PM_OK))"
| "dir_step (Share h nm port) ps = (case pt_look (cstr nm) ps of
     Some _ \<Rightarrow> (ps, put16 PM_SORRY) | None \<Rightarrow> (pt_enter (cstr nm) (Some (cstr h), port) ps, put16 PM_OK))"
| "dir_step (Lookup nm) ps = (ps, case pt_look (cstr nm) ps of
     None \<Rightarrow> put16 PM_SORRY
   | Some (Some h, port) \<Rightarrow> put16 PM_OKSHARE @ cstring_bytes h @ put16 port
   | Some (None, port) \<Rightarrow> put16 PM_OK @ put16 port)"
| "dir_step (Unlist port) ps = (case List.find (\<lambda>p. pt_port p = port) ps of
     Some p \<Rightarrow> (remove1 p ps, put16 PM_OK) | None \<Rightarrow> (ps, put16 PM_SORRY))"
| "dir_step (RemoveServer nm) ps = (case pt_look (cstr nm) ps of
     Some _ \<Rightarrow> (pt_remove (cstr nm) ps, put16 PM_OK) | None \<Rightarrow> (ps, put16 PM_SORRY))"
| "dir_step Table ps =
     (ps, put16 (of_nat (length ps)) @ concat (map (\<lambda>p. cstring_bytes (table_line p)) ps))"

lemma pt_look_port_reply:
  "pt_find nm ps = Some p \<Longrightarrow> snd (dir_step (Lookup x) ps) = port_reply p" if "cstr x = nm"
  using that by (simp add: pt_look_def port_reply_def split: option.split)

subsection \<open>Registration\<close>

lemma register_known:
  "cstr (sktname s) \<in> pt_sktname ` set (phd s) \<Longrightarrow> register env ev s c = Some (Returned, s, put_event PM_SORRY c)"
  by (auto simp: register_def)

definition new_entry :: "event \<Rightarrow> 16 word \<Rightarrow> spm \<Rightarrow> port_table" where
  "new_entry ev port s = \<lparr>pt_sktname = cstr (sktname s),
     pt_sharehost = (if ev = PM_SHARE then Some (cstr (sharehost s)) else None), pt_port = port\<rparr>"

lemma register_new:
  assumes "cstr (sktname s) \<notin> pt_sktname ` set (phd s)" and "e \<noteq> SelectError"
  shows "register env ev s (fed c (put16 port @ put16 mesg @ q) e) =
    (let p = new_entry ev port s; s2 = s\<lparr>phd := phd s @ [p]\<rparr>; c2 = fed (put_event PM_OK c) q e
     in if mesg \<noteq> PM_OK then Some (Timedout, s2, c2)
        else map_option (\<lambda>s3. (Returned, s3, c2)) (serve_loop p (cstr (sktname s)) (cwhd s2) [] s2))"
proof -
  have "\<not> (\<exists>p\<in>set (phd s). cstr (sktname s) = pt_sktname p)" using assms(1) by auto
  then show ?thesis using assms(2)
    by (simp add: register_def Let_def makePortTable_def new_entry_def map_option_case bind_eq_Some_conv
        split: option.split)
qed

lemma pm_server_reads:
  assumes "fits_buf BUFSIZE nm" and "e \<noteq> SelectError"
  shows "\<exists>s1. same_but_buffers s s1 \<and> cstr (sktname s1) = cstr nm \<and>
    pm_server env PM_SERVER_EV s (fed c (cstring_bytes nm @ q) e) = register env PM_SERVER_EV s1 (fed (put_event PM_OK c) q e)"
proof -
  obtain b where b: "read_string (sktname s) BUFSIZE (fed (put_event PM_OK c) (cstring_bytes nm @ q) e) =
      Some (True, b, fed (put_event PM_OK c) q e)" "cstr b = cstr nm"
    using read_string_fed [OF assms(1)] by blast
  show ?thesis
    by (rule exI [of _ "s\<lparr>sharehost := (sharehost s)[0 := NUL], sktname := b\<rparr>"])
      (use b assms in \<open>simp add: pm_server_def pm_events same_but_buffers_def\<close>)
qed

lemma pm_server_reads_share:
  assumes "fits_buf BUFSIZE nm" and "fits_buf BUFSIZE h" and "e \<noteq> SelectError"
  shows "\<exists>s1. same_but_buffers s s1 \<and> cstr (sktname s1) = cstr nm \<and> cstr (sharehost s1) = cstr h \<and>
    pm_server env PM_SHARE s (fed c (cstring_bytes h @ cstring_bytes nm @ q) e) =
      register env PM_SHARE s1 (fed (put_event PM_OK c) q e)"
proof -
  obtain b where b: "read_string (sharehost s) BUFSIZE (fed (put_event PM_OK c) (cstring_bytes h @ cstring_bytes nm @ q) e) =
      Some (True, b, fed (put_event PM_OK c) (cstring_bytes nm @ q) e)" "cstr b = cstr h"
    using read_string_fed [OF assms(2)] by blast
  obtain b' where b': "read_string (sktname s) BUFSIZE (fed (put_event PM_OK c) (cstring_bytes nm @ q) e) =
      Some (True, b', fed (put_event PM_OK c) q e)" "cstr b' = cstr nm"
    using read_string_fed [OF assms(1)] by blast
  show ?thesis
    by (rule exI [of _ "s\<lparr>sharehost := b, sktname := b'\<rparr>"])
      (use b b' assms in \<open>simp add: pm_server_def same_but_buffers_def\<close>)
qed

subsection \<open>One connection\<close>

definition handled :: "pm_request \<Rightarrow> spm \<Rightarrow> conn \<Rightarrow> (bool \<times> spm) option \<Rightarrow> bool" where
  \<comment> \<open>the answer and the new state are those of the abstract directory\<close>
  "handled r s c res \<longleftrightarrow> (\<exists>s' c'. res = Some (True, s') \<and>
     phd s' = fst (dir_step r (phd s)) \<and> cwhd s' = cwhd s \<and> spmfwhd s' = spmfwhd s \<and> hostaddr s' = hostaddr s \<and>
     sclosed s' = sclosed s @ [c'] \<and> cid c' = cid c \<and>
     out c' = out c @ put16 PM_OK @ snd (dir_step r (phd s)))"

lemma firewall_fed [simp]: "firewall s (fed c q e) = firewall s c"
  by (simp add: firewall_def)

lemma handled_intro:
  assumes "\<not> firewall s c" and "event_loop env 0 s (fed c q e) = Some (Returned, s1, c1)"
    and "phd s1 = fst (dir_step r (phd s))" and "cwhd s1 = cwhd s" and "spmfwhd s1 = spmfwhd s" and "hostaddr s1 = hostaddr s"
    and "sclosed s1 = sclosed s" and "cid c1 = cid c" and "out c1 = out c @ put16 PM_OK @ snd (dir_step r (phd s))"
  shows "handled r s c (spm_accept env (fed c q e) s)"
  using assms by (auto simp: handled_def spm_accept_def)

lemma dispatch:
  assumes "e \<noteq> SelectError"
  shows "event_loop env n s (fed c (put16 PM_SERVER_EV @ q) e) = pm_server env PM_SERVER_EV s (fed c q e)"
    and "event_loop env n s (fed c (put16 PM_SHARE @ q) e) = pm_server env PM_SHARE s (fed c q e)"
    and "event_loop env n s (fed c (put16 PM_CLIENT_EV @ q) e) = pm_client False s (fed c q e)"
    and "event_loop env n s (fed c (put16 PM_CLIENTWAIT @ q) e) =
      map_option (\<lambda>(r, s1, c3). (if r = Returned \<and> is_queued c3 s1 then Kept else r, s1, c3)) (pm_client True s (fed c q e))"
    and "event_loop env n s (fed c (put16 PM_CLOSE @ q) e) = pm_close env s (fed c q e)"
    and "event_loop env n s (fed c (put16 PM_QUIT @ q) e) = pm_quit s (fed c q e)"
    and "event_loop env n s (fed c (put16 PM_TABLE @ q) e) = pm_table s (fed c q e)"
    and "event_loop env n s (fed c (put16 PM_RMSERVER @ q) e) = pm_rmserver env s (fed c q e)"
    and "event_loop env n s (fed c (put16 PM_FWINIT @ q) e) = pm_fwinit env s (fed c q e)"
  using assms by (simp_all add: event_loop.simps pm_events)

lemma fold_put_string:
  "fold (\<lambda>p. put_string (f p)) ps (fed c q e) = fed (fold (\<lambda>p. put_string (f p)) ps c) q e"
  by (induction ps arbitrary: c) simp_all

lemma fold_put_string_simps [simp]:
  "cid (fold (\<lambda>p. put_string (f p)) ps c) = cid c"
  "out (fold (\<lambda>p. put_string (f p)) ps c) = out c @ concat (map (\<lambda>p. cstring_bytes (f p)) ps)"
  by (induction ps arbitrary: c) simp_all

lemma registered:
  assumes "same_but_buffers s s1" and "cstr (sktname s1) = cstr nm" and "e \<noteq> SelectError"
    and "cwhd s = [] \<or> cw_sktname (hd (cwhd s)) \<noteq> cstr nm"
  shows "register env ev s1 (fed (put_event PM_OK c) (put16 port @ put16 PM_OK) e) =
    (if pt_look (cstr nm) (phd s) = None
     then Some (Returned, s1\<lparr>phd := pt_enter (cstr nm) (if ev = PM_SHARE then Some (cstr (sharehost s1)) else None, port) (phd s)\<rparr>,
       fed (put_event PM_OK (put_event PM_OK c)) [] e)
     else Some (Returned, s1, fed (put_event PM_SORRY (put_event PM_OK c)) (put16 port @ put16 PM_OK) e))"
proof (cases "cstr nm \<in> pt_sktname ` set (phd s)")
  case True
  then obtain v where "pt_look (cstr nm) (phd s) = Some v" by (cases "pt_look (cstr nm) (phd s)") (auto simp: pt_look_def)
  with True assms(2) register_known [of s1 env ev] same_but_buffers_simps(1) [OF assms(1)] show ?thesis by simp
next
  case False
  then have l: "pt_look (cstr nm) (phd s) = None" by (simp add: pt_look_def)
  have n: "cstr (sktname s1) \<notin> pt_sktname ` set (phd s1)"
    using False assms(2) same_but_buffers_simps(1) [OF assms(1)] by simp
  have "serve_loop p (cstr (sktname s1)) (cwhd s1) [] (s1\<lparr>phd := x\<rparr>) = Some (s1\<lparr>phd := x\<rparr>)" for p x
    using serve_loop_result [of p "cstr (sktname s1)" "s1\<lparr>phd := x\<rparr>"] assms(2,4)
      same_but_buffers_simps(2) [OF assms(1)] by simp
  with l register_new [OF n assms(3), of env ev "put_event PM_OK c" port PM_OK "[]"]
    same_but_buffers_simps(1) [OF assms(1)] assms(2)
  show ?thesis by (simp add: Let_def new_entry_def pt_enter_def)
qed

lemma registered_handled:
  assumes "event_loop env 0 s (fed c (request_bytes r) e) =
      register env ev s1 (fed (put_event PM_OK c) (put16 port @ put16 PM_OK) e)"
    and "same_but_buffers s s1" and "cstr (sktname s1) = cstr nm" and "e \<noteq> SelectError"
    and "cwhd s = [] \<or> cw_sktname (hd (cwhd s)) \<noteq> cstr nm" and "\<not> firewall s c"
    and "dir_step r (phd s) = (case pt_look (cstr nm) (phd s) of Some _ \<Rightarrow> (phd s, put16 PM_SORRY)
      | None \<Rightarrow> (pt_enter (cstr nm) (if ev = PM_SHARE then Some (cstr (sharehost s1)) else None, port) (phd s), put16 PM_OK))"
  shows "handled r s c (spm_accept env (fed c (request_bytes r) e) s)"
proof (cases "pt_look (cstr nm) (phd s)")
  case None
  with assms(1) registered [OF assms(2,3,4,5), of env ev c port]
  have ev: "event_loop env 0 s (fed c (request_bytes r) e) = Some (Returned,
    s1\<lparr>phd := pt_enter (cstr nm) (if ev = PM_SHARE then Some (cstr (sharehost s1)) else None, port) (phd s)\<rparr>,
    fed (put_event PM_OK (put_event PM_OK c)) [] e)" by simp
  show ?thesis
    by (rule handled_intro [OF assms(6) ev]) (use same_but_buffers_simps [OF assms(2)] assms(7) None in simp_all)
next
  case (Some v)
  with assms(1) registered [OF assms(2,3,4,5), of env ev c port]
  have ev: "event_loop env 0 s (fed c (request_bytes r) e) =
    Some (Returned, s1, fed (put_event PM_SORRY (put_event PM_OK c)) (put16 port @ put16 PM_OK) e)" by simp
  show ?thesis
    by (rule handled_intro [OF assms(6) ev]) (use same_but_buffers_simps [OF assms(2)] assms(7) Some in simp_all)
qed

lemma pm_rmserver_reads:
  assumes "fits_buf BUFSIZE nm" and "e \<noteq> SelectError"
  shows "pm_rmserver env s (fed c (cstring_bytes nm @ q) e) = (case pt_find (cstr nm) (phd s) of
      Some p \<Rightarrow> Some (Returned, delPortTable p s, fed (put_event PM_OK (put_event PM_OK c)) q e)
    | None \<Rightarrow> Some (Returned, s, fed (put_event PM_SORRY (put_event PM_OK c)) q e))"
proof -
  obtain b where b: "read_string (spm_stack env) BUFSIZE (fed (put_event PM_OK c) (cstring_bytes nm @ q) e) =
      Some (True, b, fed (put_event PM_OK c) q e)" "cstr b = cstr nm"
    using read_string_fed [OF assms(1)] by blast
  with assms show ?thesis by (simp add: pm_rmserver_def pt_find_def split: option.split)
qed

lemma request_handled:
  assumes "request_fits r" and "e \<noteq> SelectError" and "\<not> firewall s c"
    and "\<And>nm. request_server r = Some nm \<Longrightarrow> cwhd s = [] \<or> cw_sktname (hd (cwhd s)) \<noteq> nm"
  shows "handled r s c (spm_accept env (fed c (request_bytes r) e) s)"
proof (cases r)
  case (Register nm port)
  obtain s1 where s1: "same_but_buffers s s1" "cstr (sktname s1) = cstr nm"
    "event_loop env 0 s (fed c (request_bytes r) e) = register env PM_SERVER_EV s1 (fed (put_event PM_OK c) (put16 port @ put16 PM_OK) e)"
    using pm_server_reads [of nm e s env c "put16 port @ put16 PM_OK"] assms(1,2) Register
    by (auto simp: dispatch)
  show ?thesis
    by (rule registered_handled [OF s1(3,1,2) assms(2) _ assms(3)]) (use assms(4) Register in \<open>simp_all add: pm_events\<close>)
next
  case (Share h nm port)
  obtain s1 where s1: "same_but_buffers s s1" "cstr (sktname s1) = cstr nm" "cstr (sharehost s1) = cstr h"
    "event_loop env 0 s (fed c (request_bytes r) e) = register env PM_SHARE s1 (fed (put_event PM_OK c) (put16 port @ put16 PM_OK) e)"
    using pm_server_reads_share [of nm h e s env c "put16 port @ put16 PM_OK"] assms(1,2) Share
    by (auto simp: dispatch)
  show ?thesis
    by (rule registered_handled [OF s1(4,1,2) assms(2) _ assms(3)]) (use assms(4) Share s1(3) in \<open>simp_all add: pm_events split: option.split\<close>)
next
  case (Lookup nm)
  have ev: "event_loop env 0 s (fed c (request_bytes r) e) = pm_client False s (fed c (cstring_bytes nm @ []) e)"
    using dispatch(3) [OF assms(2)] Lookup by simp
  have fit: "fits_buf BUFSIZE nm" using assms(1) Lookup by simp
  show ?thesis
  proof (cases "pt_find (cstr nm) (phd s)")
    case None
    from pm_client_unknown [OF fit assms(2) None, of False c "[]"] ev obtain s'
      where "event_loop env 0 s (fed c (request_bytes r) e) = Some (Returned, s', put_event PM_SORRY (fed (put_event PM_OK c) [] e))"
        "same_but_buffers s s'" by (auto simp: Let_def)
    note h = this
    show ?thesis
      by (rule handled_intro [OF assms(3) h(1)])
        (use Lookup None same_but_buffers_simps [OF h(2)] in \<open>simp_all add: pt_look_def del: pt_find_None\<close>)
  next
    case (Some p)
    from pm_client_known [OF fit assms(2) Some, of False c "[]"] ev obtain s'
      where "event_loop env 0 s (fed c (request_bytes r) e) = Some (Returned, s', fed (send_port p (put_event PM_OK c)) [] e)"
        "same_but_buffers s s'" by auto
    note h = this
    show ?thesis
      by (rule handled_intro [OF assms(3) h(1)])
        (use Lookup Some same_but_buffers_simps [OF h(2)] in \<open>simp_all add: pt_look_def port_reply_def split: option.split\<close>)
  qed
next
  case (Unlist port)
  have "event_loop env 0 s (fed c (request_bytes r) e) = pm_close env s (fed c (put16 port @ []) e)"
    using dispatch(5) [OF assms(2)] Unlist by simp
  also have "\<dots> = (case List.find (\<lambda>p. pt_port p = port) (phd s) of
      Some p \<Rightarrow> Some (Returned, delPortTable p s, fed (put_event PM_OK (put_event PM_OK c)) [] e)
    | None \<Rightarrow> Some (Returned, s, fed (put_event PM_SORRY (put_event PM_OK c)) [] e))"
    using assms(2) by (simp add: pm_close_def del: append_Nil2 split: option.split)
  finally have ev: "event_loop env 0 s (fed c (request_bytes r) e) = \<dots>" .
  show ?thesis
  proof (cases "List.find (\<lambda>p. pt_port p = port) (phd s)")
    case None
    with ev have ev': "event_loop env 0 s (fed c (request_bytes r) e) =
      Some (Returned, s, fed (put_event PM_SORRY (put_event PM_OK c)) [] e)" by simp
    show ?thesis by (rule handled_intro [OF assms(3) ev']) (simp_all add: Unlist None)
  next
    case (Some p)
    with ev have ev': "event_loop env 0 s (fed c (request_bytes r) e) =
      Some (Returned, delPortTable p s, fed (put_event PM_OK (put_event PM_OK c)) [] e)" by simp
    show ?thesis by (rule handled_intro [OF assms(3) ev']) (simp_all add: Unlist Some delPortTable_def)
  qed
next
  case (RemoveServer nm)
  have fit: "fits_buf BUFSIZE nm" using assms(1) RemoveServer by simp
  have ev: "event_loop env 0 s (fed c (request_bytes r) e) = (case pt_find (cstr nm) (phd s) of
      Some p \<Rightarrow> Some (Returned, delPortTable p s, fed (put_event PM_OK (put_event PM_OK c)) [] e)
    | None \<Rightarrow> Some (Returned, s, fed (put_event PM_SORRY (put_event PM_OK c)) [] e))"
    using dispatch(8) [OF assms(2), of env 0 s c "cstring_bytes nm @ []"] pm_rmserver_reads [OF fit assms(2), of env s c "[]"]
      RemoveServer by simp
  show ?thesis
  proof (cases "pt_find (cstr nm) (phd s)")
    case None
    with ev have ev': "event_loop env 0 s (fed c (request_bytes r) e) =
      Some (Returned, s, fed (put_event PM_SORRY (put_event PM_OK c)) [] e)" by (simp del: pt_find_None)
    show ?thesis
      by (rule handled_intro [OF assms(3) ev']) (use None RemoveServer in \<open>simp_all add: pt_look_def del: pt_find_None\<close>)
  next
    case (Some p)
    with ev have ev': "event_loop env 0 s (fed c (request_bytes r) e) =
      Some (Returned, delPortTable p s, fed (put_event PM_OK (put_event PM_OK c)) [] e)" by simp
    show ?thesis
      by (rule handled_intro [OF assms(3) ev'])
        (use Some RemoveServer in \<open>simp_all add: pt_look_def pt_remove_def delPortTable_def\<close>)
  qed
next
  case Table
  have "event_loop env 0 s (fed c (request_bytes r) e) = pm_table s (fed c [] e)"
    using dispatch(7) [OF assms(2), of env 0 s c "[]"] Table by simp
  then have ev: "event_loop env 0 s (fed c (request_bytes r) e) = Some (Returned, s, fed (fold (\<lambda>p. put_string (table_line p)) (phd s)
       (put_bytes (put16 (of_nat (length (phd s)))) (put_event PM_OK c))) [] e)"
    by (simp add: pm_table_def fold_put_string)
  show ?thesis by (rule handled_intro [OF assms(3) ev]) (simp_all add: Table)
qed

lemma close_may_remove_other_server:
  assumes "phd s = xs @ p # ys" and "\<And>x. x \<in> set xs \<Longrightarrow> pt_port x \<noteq> port" and "pt_port p = port"
    and "e \<noteq> SelectError" and "\<not> firewall s c" and "distinct (phd s)"
  shows "\<exists>s'. spm_accept env (fed c (request_bytes (Unlist port)) e) s = Some (True, s') \<and> phd s' = xs @ ys"
proof -
  have "List.find (\<lambda>p. pt_port p = port) (xs @ p # ys) = Some p"
    using assms(2,3) by (induction xs) auto
  moreover have "remove1 p (xs @ p # ys) = xs @ ys" using assms(1,6) by (simp add: remove1_append)
  ultimately have "fst (dir_step (Unlist port) (phd s)) = xs @ ys" by (simp add: assms(1))
  with request_handled [of "Unlist port" e s c env] assms(4,5) show ?thesis by (auto simp: handled_def)
qed

end
