(* ===== verification/Spm_Inv.thy ===== *)
theory Spm_Inv
  imports Spm_Requests "HOL-Library.Multiset"
begin

text \<open>
  The invariant of the PortMaster, for any bytes whatever that its clients send: the names in the
  table are different, and every connection that has been accepted is either closed or waits for a
  server.  Also what makes the PortMaster hang.
\<close>

definition conn_ids :: "spm \<Rightarrow> nat list" where
  "conn_ids s = map cid (sclosed s) @ map (\<lambda>w. cid (cw_client w)) (cwhd s)"

definition conns :: "spm \<Rightarrow> nat multiset" where
  "conns s = mset (conn_ids s)"

definition spm_inv :: "spm \<Rightarrow> bool" where
  "spm_inv s = (names_ok s \<and> distinct (conn_ids s))"

definition keeps :: "spm \<Rightarrow> conn \<Rightarrow> spm \<Rightarrow> conn \<Rightarrow> bool" where
  "keeps s c s' c' \<longleftrightarrow> (names_ok s \<longrightarrow> names_ok s') \<and> cid c' = cid c \<and> conns s' = conns s"

lemma keeps_refl [simp]: "cid c' = cid c \<Longrightarrow> keeps s c s c'"
  by (simp add: keeps_def)

lemma keeps_trans: "keeps s c s1 c1 \<Longrightarrow> keeps s1 c1 s2 c2 \<Longrightarrow> keeps s c s2 c2"
  by (simp add: keeps_def)

lemma ready_cid: "ready c = Some (ok, c') \<Longrightarrow> cid c' = cid c"
  by (auto simp: ready_def bind_eq_Some_conv)

lemma read_event_cid: "read_event junk c = Some (n, w, c') \<Longrightarrow> cid c' = cid c"
  by (auto simp: read_event_def bind_eq_Some_conv)

lemma read_string_cid: "read_string buf n c = Some (ok, b, c') \<Longrightarrow> cid c' = cid c"
  by (auto simp: read_string_def bind_eq_Some_conv)

lemmas cid_simps = ready_cid read_event_cid read_string_cid

lemma await_elim:
  assumes "await s c k = Some (r, s', c')"
    and "\<And>c1. cid c1 = cid c \<Longrightarrow> s' = s \<Longrightarrow> c' = c1 \<Longrightarrow> r = Timedout \<Longrightarrow> P"
    and "\<And>c1. cid c1 = cid c \<Longrightarrow> k c1 = Some (r, s', c') \<Longrightarrow> P"
  shows P
  using assms by (auto simp: await_def bind_eq_Some_conv split: if_splits dest: cid_simps)

lemma keeps_buffers [simp]:
  "cid c' = cid c \<Longrightarrow> keeps s c (s\<lparr>sktname := b\<rparr>) c'"
  "cid c' = cid c \<Longrightarrow> keeps s c (s\<lparr>sharehost := b'\<rparr>) c'"
  by (simp_all add: keeps_def names_ok_def names_def conns_def conn_ids_def)

lemma keeps_remove [simp]: "cid c' = cid c \<Longrightarrow> keeps s c (delPortTable p s) c'"
  by (auto simp: keeps_def names_ok_def names_def conns_def conn_ids_def delPortTable_def distinct_map
      intro: inj_on_diff)

lemma keeps_enter:
  "pt_sktname p \<notin> pt_sktname ` set (phd s) \<Longrightarrow> cid c' = cid c \<Longrightarrow> keeps s c (s\<lparr>phd := phd s @ [p]\<rparr>) c'"
  by (auto simp: keeps_def names_ok_def names_def conns_def conn_ids_def)

lemma keeps_served: "cid c' = cid c \<Longrightarrow> keeps s c (served p (cwhd s) s) c'"
  by (simp add: keeps_def names_ok_def names_def conns_def conn_ids_def served_def comp_def)

lemma keeps_serve_loop:
  "serve_loop p nm (cwhd s) [] s = Some s' \<Longrightarrow> cid c' = cid c \<Longrightarrow> keeps s c s' c'"
  by (auto simp: serve_loop_result keeps_served split: if_splits)

lemma acknowledged_keeps:
  assumes "await s c (\<lambda>c3. read_event junk c3 \<bind> (\<lambda>(_, mesg, c4).
      if mesg \<noteq> PM_OK then Some (Timedout, s, c4)
      else serve_loop p nm (cwhd s) [] s \<bind> (\<lambda>s3. Some (Returned, s3, c4)))) = Some (r, s', c')"
  shows "keeps s c s' c'"
  using assms
  by (elim await_elim) (auto simp: bind_eq_Some_conv split: if_splits dest!: read_event_cid intro: keeps_serve_loop)

lemma register_keeps:
  assumes "register env ev s c = Some (r, s', c')"
  shows "keeps s c s' c'"
proof (cases "cstr (sktname s) \<in> pt_sktname ` set (phd s)")
  case True
  with assms show ?thesis by (auto simp: register_known)
next
  case False
  then have n: "\<not> (\<exists>p\<in>set (phd s). cstr (sktname s) = pt_sktname p)" by auto
  from assms show ?thesis
    unfolding register_def if_not_P [OF n]
  proof (elim await_elim)
    fix c1
    assume c1: "cid c1 = cid c"
      and k: "read_event (spm_stack env) c1 \<bind> (\<lambda>(_, port, c2).
        let (p, s2) = makePortTable port (if ev = PM_SHARE then Some (cstr (sharehost s)) else None) s
        in await s2 (put_event PM_OK c2) (\<lambda>c3. read_event (spm_stack env) c3 \<bind> (\<lambda>(_, mesg, c4).
          if mesg \<noteq> PM_OK then Some (Timedout, s2, c4)
          else serve_loop p (cstr (sktname s2)) (cwhd s2) [] s2 \<bind> (\<lambda>s3. Some (Returned, s3, c4))))) = Some (r, s', c')"
    obtain m port c2 where e: "read_event (spm_stack env) c1 = Some (m, port, c2)"
      using k by (cases "read_event (spm_stack env) c1") auto
    obtain p s2 where m: "makePortTable port (if ev = PM_SHARE then Some (cstr (sharehost s)) else None) s = (p, s2)"
      by fastforce
    have c2: "cid (put_event PM_OK c2) = cid c" using read_event_cid [OF e] c1 by simp
    have "keeps s c s2 (put_event PM_OK c2)"
      using m False c2 by (auto simp: makePortTable_def Let_def intro!: keeps_enter)
    moreover have "keeps s2 (put_event PM_OK c2) s' c'"
      by (rule acknowledged_keeps) (use k e m in simp)
    ultimately show ?thesis by (rule keeps_trans)
  qed simp
qed

lemma pm_server_keeps:
  assumes "pm_server env ev s c = Some (r, s', c')"
  shows "keeps s c s' c'"
proof -
  have rest: "keeps s1 c1 s' c'"
    if "await s1 c1 (\<lambda>c2. read_string (sktname s1) BUFSIZE c2 \<bind>
      (\<lambda>(_, buf, c3). register env ev (s1\<lparr>sktname := buf\<rparr>) c3)) = Some (r, s', c')" for s1 c1
    using that
  proof (elim await_elim)
    fix c2
    assume "cid c2 = cid c1" and "read_string (sktname s1) BUFSIZE c2 \<bind>
      (\<lambda>(_, buf, c3). register env ev (s1\<lparr>sktname := buf\<rparr>) c3) = Some (r, s', c')"
    then obtain buf c3 where "cid c3 = cid c1" and r: "register env ev (s1\<lparr>sktname := buf\<rparr>) c3 = Some (r, s', c')"
      by (auto simp: bind_eq_Some_conv dest: read_string_cid)
    from this(1) have "keeps s1 c1 (s1\<lparr>sktname := buf\<rparr>) c3" by simp
    from keeps_trans [OF this register_keeps [OF r]] show ?thesis .
  qed simp
  show ?thesis
  proof (cases "ev = PM_SHARE")
    case True
    from assms show ?thesis unfolding pm_server_def Let_def if_P [OF True]
    proof (elim await_elim)
      fix c1
      assume "cid c1 = cid (put_event PM_OK c)" and "read_string (sharehost s) BUFSIZE c1 \<bind>
        (\<lambda>(_, buf, c2). await (s\<lparr>sharehost := buf\<rparr>) c2 (\<lambda>c2. read_string (sktname (s\<lparr>sharehost := buf\<rparr>)) BUFSIZE c2 \<bind>
          (\<lambda>(_, buf', c3). register env ev (s\<lparr>sharehost := buf, sktname := buf'\<rparr>) c3))) = Some (r, s', c')"
      then obtain buf c2 where c2: "cid c2 = cid c" and "await (s\<lparr>sharehost := buf\<rparr>) c2
        (\<lambda>c2. read_string (sktname (s\<lparr>sharehost := buf\<rparr>)) BUFSIZE c2 \<bind>
          (\<lambda>(_, buf', c3). register env ev (s\<lparr>sharehost := buf, sktname := buf'\<rparr>) c3)) = Some (r, s', c')"
        by (auto simp: bind_eq_Some_conv dest!: read_string_cid)
      then have "keeps (s\<lparr>sharehost := buf\<rparr>) c2 s' c'" using rest [of "s\<lparr>sharehost := buf\<rparr>" c2] by simp
      with c2 show ?thesis using keeps_trans [of s c "s\<lparr>sharehost := buf\<rparr>" c2 s' c'] by simp
    qed simp
  next
    case False
    have "keeps (s\<lparr>sharehost := (sharehost s)[0 := NUL]\<rparr>) (put_event PM_OK c) s' c'"
      by (rule rest) (use assms False in \<open>simp add: pm_server_def\<close>)
    then show ?thesis
      using keeps_trans [of s c "s\<lparr>sharehost := (sharehost s)[0 := NUL]\<rparr>" "put_event PM_OK c" s' c'] by simp
  qed
qed

lemma pm_client_keeps: "pm_client False s c = Some (r, s', c') \<Longrightarrow> keeps s c s' c'"
  unfolding pm_client_def
  by (erule await_elim) (auto simp: bind_eq_Some_conv Let_def split: option.splits dest!: read_string_cid)

lemma pm_client_waits:
  assumes "pm_client True s c = Some (r, s', c')"
  shows "(names_ok s \<longrightarrow> names_ok s') \<and> cid c' = cid c \<and> r \<noteq> Kept \<and>
    ((conns s' = conns s \<and> (\<forall>w\<in>set (cwhd s'). w \<in> set (cwhd s))) \<or>
     (r = Returned \<and> is_queued c' s' \<and> conns s' = add_mset (cid c) (conns s)))"
  using assms unfolding pm_client_def
  by (elim await_elim) (auto simp: bind_eq_Some_conv Let_def names_ok_def names_def conns_def conn_ids_def is_queued_def
      split: option.splits dest!: read_string_cid)

lemma pm_close_keeps: "pm_close env s c = Some (r, s', c') \<Longrightarrow> keeps s c s' c'"
  unfolding pm_close_def
  by (erule await_elim) (auto simp: bind_eq_Some_conv split: option.splits dest!: read_event_cid)

lemma pm_quit_keeps: "pm_quit s c = Some (r, s', c') \<Longrightarrow> keeps s c s' c'"
  unfolding pm_quit_def
  by (erule await_elim) (auto simp: bind_eq_Some_conv Let_def split: if_splits dest!: read_string_cid)

lemma pm_table_keeps: "pm_table s c = Some (r, s', c') \<Longrightarrow> keeps s c s' c'"
  by (auto simp: pm_table_def)

lemma pm_rmserver_keeps: "pm_rmserver env s c = Some (r, s', c') \<Longrightarrow> keeps s c s' c'"
  unfolding pm_rmserver_def
  by (erule await_elim) (auto simp: bind_eq_Some_conv split: option.splits dest!: read_string_cid)

lemma pm_fwinit_keeps: "pm_fwinit env s c = Some (r, s', c') \<Longrightarrow> keeps s c s' c'"
  by (auto simp: pm_fwinit_def firewall_init_def keeps_def names_ok_def names_def conns_def conn_ids_def Let_def
      split: option.splits if_splits)

lemmas handlers_keep = pm_server_keeps pm_client_keeps pm_close_keeps pm_quit_keeps pm_table_keeps
  pm_rmserver_keeps pm_fwinit_keeps

text \<open>Only \<open>event_loop\<close> decides that a connection is kept.\<close>

lemma await_not_kept:
  "await s c k = Some (r, s', c') \<Longrightarrow> (\<And>c1. k c1 = Some (r, s', c') \<Longrightarrow> r \<noteq> Kept) \<Longrightarrow> r \<noteq> Kept"
  by (erule await_elim) auto

lemma register_not_kept: "register env ev s c = Some (r, s', c') \<Longrightarrow> r \<noteq> Kept"
  unfolding register_def Let_def makePortTable_def
  by (auto split: if_splits prod.splits elim!: await_elim simp: bind_eq_Some_conv)

lemma handlers_not_kept:
  "pm_server env ev s c = Some (r, s', c') \<Longrightarrow> r \<noteq> Kept"
  "pm_client False s c = Some (r, s', c') \<Longrightarrow> r \<noteq> Kept"
  "pm_close env s c = Some (r, s', c') \<Longrightarrow> r \<noteq> Kept"
  "pm_quit s c = Some (r, s', c') \<Longrightarrow> r \<noteq> Kept"
  "pm_table s c = Some (r, s', c') \<Longrightarrow> r \<noteq> Kept"
  "pm_rmserver env s c = Some (r, s', c') \<Longrightarrow> r \<noteq> Kept"
  "pm_fwinit env s c = Some (r, s', c') \<Longrightarrow> r \<noteq> Kept"
  unfolding pm_server_def pm_client_def pm_close_def pm_quit_def pm_table_def pm_rmserver_def pm_fwinit_def Let_def
  by (auto split: if_splits option.splits elim!: await_elim simp: bind_eq_Some_conv dest!: register_not_kept)

definition accounted :: "spm \<Rightarrow> conn \<Rightarrow> outcome \<Rightarrow> spm \<Rightarrow> conn \<Rightarrow> bool" where
  "accounted s c r s' c' \<longleftrightarrow> (names_ok s \<longrightarrow> names_ok s') \<and> cid c' = cid c \<and>
     conns s' = (if r = Kept then add_mset (cid c) (conns s) else conns s)"

lemma accounted_keeps: "keeps s c s' c' \<Longrightarrow> r \<noteq> Kept \<Longrightarrow> accounted s c r s' c'"
  by (simp add: keeps_def accounted_def)

lemma accounted_waits:
  assumes "pm_client True s c = Some (r, s', c')" and "cid c \<notin># conns s"
  shows "accounted s c (if r = Returned \<and> is_queued c' s' then Kept else r) s' c'"
proof -
  note w = pm_client_waits [OF assms(1)]
  show ?thesis
  proof (cases "conns s' = conns s \<and> (\<forall>w\<in>set (cwhd s'). w \<in> set (cwhd s))")
    case True
    have "\<not> is_queued c' s'"
    proof
      assume q: "is_queued c' s'"
      then have "List.last (cwhd s') \<in> set (cwhd s)" using True by (auto simp: is_queued_def)
      then have "cid (cw_client (List.last (cwhd s'))) \<in># conns s" by (simp add: conns_def conn_ids_def)
      moreover have "cid (cw_client (List.last (cwhd s'))) = cid c" using q w by (simp add: is_queued_def)
      ultimately show False using assms(2) by simp
    qed
    with w True show ?thesis by (auto simp: accounted_def)
  next
    case False
    with w show ?thesis by (auto simp: accounted_def)
  qed
qed

lemma event_loop_accounted:
  "event_loop env n s c = Some (r, s', c') \<Longrightarrow> cid c \<notin># conns s \<Longrightarrow> accounted s c r s' c'"
proof (induction "PM_MAXTRY + 1 - n" arbitrary: n c rule: less_induct)
  case less
  from less.prems(1) show ?case
  proof (subst (asm) event_loop.simps, elim await_elim)
    fix c1
    assume c1: "cid c1 = cid c"
      and k: "read_event (spm_stack env) c1 \<bind> (\<lambda>(_, event, c2).
        if event = PM_SERVER_EV \<or> event = PM_SHARE then pm_server env event s c2
        else if event = PM_CLIENTWAIT then
          map_option (\<lambda>(r, s1, c3). (if r = Returned \<and> is_queued c3 s1 then Kept else r, s1, c3)) (pm_client True s c2)
        else if event = PM_CLIENT_EV then pm_client False s c2
        else if event = PM_CLOSE then pm_close env s c2
        else if event = PM_QUIT then pm_quit s c2
        else if event = PM_TABLE then pm_table s c2
        else if event = PM_RMSERVER then pm_rmserver env s c2
        else if event = PM_FWINIT then pm_fwinit env s c2
        else if PM_MAXTRY < n + 1 then Some (Returned, s, put_event PM_RESEND c2)
        else event_loop env (n + 1) s (put_event PM_RESEND c2)) = Some (r, s', c')"
    obtain m ev c2 where e: "read_event (spm_stack env) c1 = Some (m, ev, c2)"
      using k by (cases "read_event (spm_stack env) c1") auto
    have c2: "cid c2 = cid c" using read_event_cid [OF e] c1 by simp
    have hk: "keeps s c2 s' c' \<Longrightarrow> r \<noteq> Kept \<Longrightarrow> ?thesis" using accounted_keeps c2 by (simp add: accounted_def keeps_def)
    have hw: "accounted s c2 r s' c' \<Longrightarrow> ?thesis" using c2 by (simp add: accounted_def)
    consider "ev = PM_SERVER_EV \<or> ev = PM_SHARE" | (wait) "ev = PM_CLIENTWAIT" | "ev = PM_CLIENT_EV" | "ev = PM_CLOSE"
      | "ev = PM_QUIT" | "ev = PM_TABLE" | "ev = PM_RMSERVER" | "ev = PM_FWINIT"
      | (other) "ev \<notin> {PM_SERVER_EV, PM_SHARE, PM_CLIENTWAIT, PM_CLIENT_EV, PM_CLOSE, PM_QUIT, PM_TABLE, PM_RMSERVER, PM_FWINIT}"
      by blast
    then show ?thesis
    proof cases
      case wait
      then obtain r0 where "pm_client True s c2 = Some (r0, s', c')" "r = (if r0 = Returned \<and> is_queued c' s' then Kept else r0)"
        using k e by (auto simp: pm_events)
      with accounted_waits [OF this(1)] less.prems(2) c2 hw show ?thesis by simp
    next
      case other
      show ?thesis
      proof (cases "PM_MAXTRY < n + 1")
        case True
        with other k e c2 show ?thesis by (auto simp: accounted_def)
      next
        case False
        have "event_loop env (n + 1) s (put_event PM_RESEND c2) = Some (r, s', c')" using False other k e by simp
        from less.hyps [OF _ this] False less.prems(2) c2 show ?thesis by (simp add: accounted_def)
      qed
    qed (use k e hk handlers_keep handlers_not_kept in \<open>(simp add: pm_events; blast)+\<close>)
  qed (simp add: accounted_def)
qed

lemma spm_accept_accounted:
  assumes "spm_accept env c s = Some (go, s')" and "cid c \<notin># conns s"
  shows "(names_ok s \<longrightarrow> names_ok s') \<and> conns s' = add_mset (cid c) (conns s)"
proof (cases "firewall s c")
  case True
  with assms show ?thesis by (auto simp: spm_accept_def names_ok_def names_def conns_def conn_ids_def)
next
  case False
  with assms(1) obtain r s1 c1 where "event_loop env 0 s c = Some (r, s1, c1)"
    and s': "s' = (if r = Kept then s1 else s1\<lparr>sclosed := sclosed s1 @ [c1]\<rparr>)"
    by (auto simp: spm_accept_def bind_eq_Some_conv)
  from event_loop_accounted [OF this(1) assms(2)] s' show ?thesis
    by (auto simp: accounted_def names_ok_def names_def conns_def conn_ids_def)
qed

subsection \<open>Reachable states\<close>

text \<open>The connections that have been accepted, in order, are part of the history of a state.\<close>

inductive spm_history :: "spm_env \<Rightarrow> conn list \<Rightarrow> spm \<Rightarrow> bool" for env where
  start: "spm_history env [] (spm_start env he fwfile)"
| accept: "spm_history env cs s \<Longrightarrow> cid c \<notin> cid ` set cs \<Longrightarrow> spm_accept env c s = Some (True, s') \<Longrightarrow>
    spm_history env (cs @ [c]) s'"

lemma spm_start_inv: "spm_inv (spm_start env he fwfile)"
  by (auto simp: spm_start_def spm_inv_def names_ok_def names_def conn_ids_def firewall_init_def Let_def split: option.split)

lemma spm_accept_inv:
  assumes "spm_inv s" and "cid c \<notin> set (conn_ids s)" and "spm_accept env c s = Some (go, s')"
  shows "spm_inv s'"
proof -
  have "mset (conn_ids s') = mset (cid c # conn_ids s)" "names_ok s'"
    using spm_accept_accounted [OF assms(3)] assms(1,2) by (simp_all add: conns_def spm_inv_def)
  then show ?thesis using assms(1,2) mset_eq_imp_distinct_iff [of "conn_ids s'" "cid c # conn_ids s"]
    by (simp add: spm_inv_def)
qed

lemma spm_history_inv: "spm_history env cs s \<Longrightarrow> spm_inv s \<and> conns s = mset (map cid cs)"
proof (induction rule: spm_history.induct)
  case (start he fwfile)
  have "conns (spm_start env he fwfile) = {#}"
    by (auto simp: spm_start_def conns_def conn_ids_def firewall_init_def Let_def split: option.split)
  then show ?case using spm_start_inv by simp
next
  case (accept cs s c s')
  have m: "cid c \<notin># conns s" using accept by simp
  then have "spm_inv s'" using spm_accept_inv [OF _ _ accept.hyps(3)] accept.IH by (simp add: conns_def)
  with spm_accept_accounted [OF accept.hyps(3) m] accept.IH show ?case by simp
qed

subsection \<open>What makes the PortMaster hang\<close>

lemma half_event_hangs:
  assumes "\<not> firewall s c" and "e = PeerClosed \<or> e = StillOpen"
  shows "spm_accept env (fed c [b] e) s = None"
  using assms by (auto simp: spm_accept_def event_loop.simps read_event_short)

end
