(* ===== verification/Ssl_Open_Lemmas.thy ===== *)
theory Ssl_Open_Lemmas
  imports Ssl_Tools Spm_Inv C_Text_Lemmas
begin

text \<open>
  The two sides of the PortMaster protocol: each function of the library, given the answer of the
  PortMaster to a request, writes the bytes of that request and takes the result from the answer.
\<close>

lemma get_OK [simp]: "PM_OK \<noteq> PM_SORRY" "PM_SORRY \<noteq> PM_OK" "PM_OKSHARE \<noteq> PM_OK" "PM_OK \<noteq> PM_OKSHARE"
  "PM_SORRY \<noteq> PM_OKSHARE" "PM_OKSHARE \<noteq> PM_SORRY"
  "PM_SERVER_EV \<noteq> PM_SHARE"
  by (simp_all add: pm_events)

lemma put_event_eq: "put_event ev c = put_bytes (put16 ev) c"
  by (simp add: put_event_def)

lemma put_string_eq: "put_string x c = put_bytes (cstring_bytes x) c"
  by (simp add: put_string_def)

lemma put_bytes_twice [simp]: "put_bytes y (put_bytes x c) = put_bytes (x @ y) c"
  by (simp add: put_bytes_def)

lemmas put_eqs = put_event_eq put_string_eq

lemma client_ask_granted:
  "e \<noteq> SelectError \<Longrightarrow> client_ask ev 0 (fed c (put16 PM_OK @ q) e) = Some (Granted, fed (put_bytes (put16 ev) c) q e)"
  by (simp add: client_ask.simps PM_MAXTRY_def put_eqs)

lemma server_ask_granted:
  "e \<noteq> SelectError \<Longrightarrow> server_ask ev 0 (fed c (put16 PM_OK @ q) e) = Some (Granted, fed (put_bytes (put16 ev) c) q e)"
  by (simp add: server_ask.simps PM_MAXTRY_def put_eqs)

lemma rmsrvr_ask_granted:
  "e \<noteq> SelectError \<Longrightarrow> rmsrvr_ask 0 (fed c (put16 PM_OK @ q) e) = Some (Granted, fed (put_bytes (put16 PM_RMSERVER) c) q e)"
  by (simp add: rmsrvr_ask.simps PM_MAXTRY_def put_eqs)

lemma close_ask_granted:
  "e \<noteq> SelectError \<Longrightarrow> close_ask 0 (fed c (put16 PM_OK @ q) e) = Some (Granted, fed (put_bytes (put16 PM_CLOSE) c) q e)"
  by (simp add: close_ask.simps PM_MAXTRY_def put_eqs)

lemma read_event_all: "read_event junk (fed c (put16 w) e) = Some (2, w, fed c [] e)"
  using read_event_fed [of junk c w "[]" e] by simp

text \<open>Lookup\<close>

lemma client_protocol_found:
  assumes "e \<noteq> SelectError" and "\<And>h. pt_sharehost p = Some h \<Longrightarrow> fits_buf BUFSIZE h"
  shows "client_protocol False nm (fed c (put16 PM_OK @ port_reply p) e) =
    Some (Some (case pt_sharehost p of Some h \<Rightarrow> cstr h | None \<Rightarrow> '''', pt_port p),
      fed (put_bytes (request_bytes (Lookup nm)) c) [] e)"
proof (cases "pt_sharehost p")
  case None
  then show ?thesis using assms(1)
    by (simp add: client_protocol_def client_ask_granted port_reply_def client_port_def read_event_all put_eqs Let_def)
next
  case (Some h)
  let ?c = "put_bytes (request_bytes (Lookup nm)) c"
  obtain b where "read_string (replicate BUFSIZE NUL) BUFSIZE (fed ?c (cstring_bytes h @ put16 (pt_port p)) e) =
      Some (True, b, fed ?c (put16 (pt_port p)) e)" "cstr b = cstr h"
    using read_string_fed [OF assms(2) [OF Some]] by blast
  then show ?thesis using assms(1) Some
    by (simp add: client_protocol_def client_ask_granted port_reply_def client_port_def read_event_all put_eqs Let_def)
qed

lemma client_protocol_sorry:
  assumes "e \<noteq> SelectError"
  shows "client_protocol False nm (fed c (put16 PM_OK @ put16 PM_SORRY) e) =
    Some (None, fed (put_bytes (request_bytes (Lookup nm)) c) [] e)"
  using assms by (simp add: client_protocol_def client_ask_granted client_port_def read_event_all put_eqs Let_def)

text \<open>Registration: the final \<open>PM_OK\<close> is written only when the PortMaster has accepted.\<close>

definition announce :: "string option \<Rightarrow> string \<Rightarrow> string \<Rightarrow> 16 word \<Rightarrow> pm_request" where
  "announce pmshare hostname nm port = (if pmshare = None then Register nm port else Share hostname nm port)"

lemma server_protocol_answered:
  assumes "e \<noteq> SelectError" and "a = PM_OK \<or> a = PM_SORRY"
  shows "\<exists>c'. server_protocol pmshare hostname nm port (fed c (put16 PM_OK @ put16 a) e) = Some (a = PM_OK, c') \<and>
    (a = PM_OK \<longrightarrow> out c' = out c @ request_bytes (announce pmshare hostname nm port))"
  using assms
  by (cases "a = PM_OK"; cases pmshare)
    (simp_all add: server_protocol_def server_ask_granted read_event_all put_eqs Let_def announce_def)

text \<open>Removal\<close>

lemma Srmsrvr_answered:
  assumes "e \<noteq> SelectError" and "CHR ''@'' \<notin> set nm" and "n_getenv nw ''PMSHARE'' = None"
    and "n_socket nw" and "n_resolves nw (local_host nw)" and "local_host nw \<noteq> ''''"
    and "n_connect nw (tries st) (local_host nw) PORTMASTER = Some (fed c (put16 PM_OK @ put16 a) e)"
  shows "Srmsrvr nw nm st = Some (a, nm, st\<lparr>tries := tries st + 1,
    finished := finished st @ [fed (put_bytes (request_bytes (RemoveServer nm)) c) [] e]\<rparr>)"
proof -
  have "cut_at nm = nm" using assms(2) by (simp add: cut_at_def takeWhile_eq_all_conv) metis
  then show ?thesis using assms
    by (simp add: Srmsrvr_def Let_def Sopen_clientport_def rmsrvr_ask_granted read_event_all put_eqs hang_up_def)
qed

lemma Sclose_answered:
  assumes "e \<noteq> SelectError" and "sk_kind s = PM_SERVER" and "sk_sktname s \<noteq> ''''" and "sk_hostname s \<noteq> ''''"
    and "n_socket nw" and "n_resolves nw (sk_hostname s)"
    and "n_connect nw (tries st) (sk_hostname s) PORTMASTER = Some (fed c (put16 PM_OK @ put16 a) e)"
  shows "Sclose nw (Some s) st = Some (st\<lparr>tries := tries st + 1,
    finished := finished st @ [fed (put_bytes (request_bytes (Unlist (sk_port s))) c) [] e, sk_conn s]\<rparr>)"
  using assms
  by (simp add: Sclose_def Let_def Sopen_clientport_def close_ask_granted read_event_all put_eqs hang_up_def)

text \<open>The table\<close>

lemma sread_event_fed: "sread_event junk (fed c (put16 w @ q) e) = Some (w, fed c q e)"
  by (simp add: sread_event_def Sread_def recv_flat overwrite_def)

lemma table_rows_all:
  assumes "\<And>p. p \<in> set ps \<Longrightarrow> fits_buf 256 (f p)" and "e \<noteq> SelectError"
  shows "table_rows (length ps) buf (fed c (concat (map (\<lambda>p. cstring_bytes (f p)) ps)) e) =
    Some (map (\<lambda>p. cstr (f p)) ps, fed c [] e)"
  using assms
proof (induction ps arbitrary: buf)
  case (Cons p ps)
  obtain b where "read_string buf 256 (fed c (cstring_bytes (f p) @ concat (map (\<lambda>p. cstring_bytes (f p)) ps)) e) =
      Some (True, b, fed c (concat (map (\<lambda>p. cstring_bytes (f p)) ps)) e)" "cstr b = cstr (f p)"
    using read_string_fed [of 256 "f p"] Cons.prems(1) by auto blast
  with Cons show ?case by simp
qed simp

lemma table_protocol_all:
  assumes "\<And>p. p \<in> set ps \<Longrightarrow> fits_buf 256 (table_line p)" and "e \<noteq> SelectError" and "length ps < 65536"
  shows "table_protocol stack (fed c (put16 PM_OK @ snd (dir_step Table ps)) e) =
    Some (if ps = [] then NoServers else Servers (map (\<lambda>p. cstr (table_line p)) ps),
      fed (put_bytes (request_bytes Table) c) [] e)"
proof -
  have a: "table_ask 0 (fed c (put16 PM_OK @ q) e) = Some (Granted, fed (put_bytes (put16 PM_TABLE) c) q e)" for q
    using assms(2) by (simp add: table_ask.simps PM_MAXTRY_def put_eqs sread_event_fed)
  have n: "unat (of_nat (length ps) :: 16 word) = length ps"
    using assms(3) by (simp add: unsigned_of_nat take_bit_nat_eq_self)
  then have "(of_nat (length ps) :: 16 word) = 0 \<longleftrightarrow> ps = []"
    using unsigned_eq_0_iff [of "of_nat (length ps) :: 16 word", where ?'a = nat] by simp
  moreover have "table_rows (length ps) stack (fed c' (concat (map (\<lambda>p. cstring_bytes (table_line p)) ps)) e) =
      Some (map (\<lambda>p. cstr (table_line p)) ps, fed c' [] e)" for c'
    by (rule table_rows_all [OF assms(1,2)])
  ultimately show ?thesis using n assms(2)
    by (simp add: table_protocol_def a sread_event_fed)
qed

subsection \<open>What makes the PortMaster keep or lose a server\<close>

lemma register_unfinished:
  assumes "fits_buf BUFSIZE nm" and "e \<noteq> SelectError" and "\<not> firewall s c" and "pt_look (cstr nm) (phd s) = None"
  shows "\<exists>s'. spm_accept env (fed c (put16 PM_SERVER_EV @ cstring_bytes nm @ put16 port) e) s = Some (True, s') \<and>
    phd s' = pt_enter (cstr nm) (None, port) (phd s) \<and> cwhd s' = cwhd s"
proof -
  obtain s1 where s1: "same_but_buffers s s1" "cstr (sktname s1) = cstr nm"
    "pm_server env PM_SERVER_EV s (fed c (cstring_bytes nm @ put16 port) e) =
      register env PM_SERVER_EV s1 (fed (put_event PM_OK c) (put16 port) e)"
    using pm_server_reads [OF assms(1,2), of s env c "put16 port"] by blast
  note f = same_but_buffers_simps [OF s1(1)]
  have "\<not> (\<exists>p\<in>set (phd s1). cstr (sktname s1) = pt_sktname p)" using assms(4) s1(2) f(1) by (auto simp: pt_look_def)
  with s1(2) f assms(2,3) show ?thesis
    by (simp add: spm_accept_def dispatch s1(3) register_def makePortTable_def Let_def read_event_all pt_enter_def)
qed

lemma register_waiters:
  assumes "fits_buf BUFSIZE nm" and "e \<noteq> SelectError" and "\<not> firewall s c" and "pt_look (cstr nm) (phd s) = None"
    and "cwhd s \<noteq> []" and "cw_sktname (hd (cwhd s)) = cstr nm"
  shows "if list_all (\<lambda>w. cw_sktname w = cstr nm) (cwhd s)
    then (\<exists>s' c'. spm_accept env (fed c (request_bytes (Register nm port)) e) s = Some (True, s') \<and>
      phd s' = pt_enter (cstr nm) (None, port) (phd s) \<and> cwhd s' = [] \<and>
      sclosed s' = sclosed s @ map (\<lambda>w. put_bytes (put16 PM_OK @ put16 port) (cw_client w)) (cwhd s) @ [c'] \<and>
      out c' = out c @ put16 PM_OK @ put16 PM_OK)
    else spm_accept env (fed c (request_bytes (Register nm port)) e) s = None"
proof -
  obtain s1 where s1: "same_but_buffers s s1" "cstr (sktname s1) = cstr nm"
    "pm_server env PM_SERVER_EV s (fed c (cstring_bytes nm @ put16 port @ put16 PM_OK) e) =
      register env PM_SERVER_EV s1 (fed (put_event PM_OK c) (put16 port @ put16 PM_OK) e)"
    using pm_server_reads [OF assms(1,2), of s env c "put16 port @ put16 PM_OK"] by blast
  note f = same_but_buffers_simps [OF s1(1)]
  have n: "cstr (sktname s1) \<notin> pt_sktname ` set (phd s1)" using assms(4) s1(2) f(1) by (simp add: pt_look_def)
  let ?p = "new_entry PM_SERVER_EV port s1"
  have sp: "send_port ?p w = put_bytes (put16 PM_OK @ put16 port) w" for w
    by (simp add: send_port_def new_entry_def put_eqs)
  from register_new [OF n assms(2), of env PM_SERVER_EV "put_event PM_OK c" port PM_OK "[]"]
  have r: "register env PM_SERVER_EV s1 (fed (put_event PM_OK c) (put16 port @ put16 PM_OK) e) =
    (if list_all (\<lambda>w. cw_sktname w = cstr nm) (cwhd s)
     then Some (Returned, served ?p (cwhd s) (s1\<lparr>phd := phd s @ [?p]\<rparr>), fed (put_event PM_OK (put_event PM_OK c)) [] e)
     else None)"
    using serve_loop_result [of ?p "cstr nm" "s1\<lparr>phd := phd s @ [?p]\<rparr>"] f s1(2) assms(5,6) by (simp add: Let_def)
  show ?thesis
    using assms(2,3) f
    by (simp add: spm_accept_def dispatch s1(3) r served_def sp)
      (simp add: pt_enter_def new_entry_def s1(2))
qed

subsection \<open>The firewall\<close>

lemma schar_eq: "0 \<le> i \<Longrightarrow> i < 256 \<Longrightarrow> schar i = (if i < 128 then i else i - 256)"
proof (cases "i < 128")
  case False
  moreover assume "i < 256"
  ultimately have "(i - 128) mod 256 = i - 128" by simp
  then have "(i + 128) mod 256 = i - 128" using mod_add_self2 [of "i - 128" 256] by (simp add: add.commute)
  with False show ?thesis by (simp add: schar_def)
qed (simp add: schar_def)

lemma of_char_range: "0 \<le> (of_char b :: int)" "(of_char b :: int) < 256"
  by (simp_all add: of_char_def)

lemma schar_of_char: "schar (of_char b) = (if (of_char b :: int) < 128 then of_char b else of_char b - 256)"
  by (rule schar_eq [OF of_char_range])

lemma hostaddr_init_schar: "hostaddr_init addr = map (\<lambda>b. schar (of_char b)) addr"
proof -
  have "schar (schar i + 256) = schar i" for i by (simp add: schar_def)
  then show ?thesis by (simp add: hostaddr_init_def Let_def)
qed

lemma schar_matches:
  "schar (of_char b) = - 1 \<or> schar (of_char b) = of_char b \<longleftrightarrow> (of_char b :: int) < 128 \<or> (of_char b :: int) = 255"
  using of_char_range [of b] by (auto simp: schar_of_char)

lemma own_host_match:
  assumes "length addr = 4" and "length pre = 2"
  shows "fw_match (pre @ addr) ([- 1, - 1] @ hostaddr_init addr) \<longleftrightarrow>
    list_all (\<lambda>b. (of_char b :: int) < 128 \<or> (of_char b :: int) = 255) addr"
proof -
  obtain a b c d where "addr = [a, b, c, d]"
    using assms(1) by (auto simp: numeral_eq_Suc length_Suc_conv)
  moreover obtain x y where "pre = [x, y]" using assms(2) by (auto simp: numeral_eq_Suc length_Suc_conv)
  ultimately show ?thesis
    by (simp add: fw_match_def SPMFWDATA_def hostaddr_init_schar upt_rec schar_matches del: of_char_of)
qed

subsection \<open>Whole functions\<close>

definition talked :: "conn \<Rightarrow> netst \<Rightarrow> netst" where
  \<comment> \<open>one connection was made, and is done with\<close>
  "talked c st = st\<lparr>tries := tries st + 1, finished := finished st @ [c]\<rparr>"

definition answering :: "net \<Rightarrow> nat \<Rightarrow> string \<Rightarrow> conn \<Rightarrow> net" where
  \<comment> \<open>the net in which the \<open>n\<close>-th connection, to the PortMaster of \<open>host\<close>, is \<open>c\<close>\<close>
  "answering nw n host c = nw\<lparr>n_connect :=
     (\<lambda>n' h p. if n' = n \<and> h = host \<and> p = PORTMASTER then Some c else n_connect nw n' h p)\<rparr>"

lemma answering_simps [simp]:
  "n_connect (answering nw n host c) n host PORTMASTER = Some c" "n_socket (answering nw n host c) = n_socket nw"
  "n_resolves (answering nw n host c) = n_resolves nw" "n_bind (answering nw n host c) = n_bind nw"
  "n_hostname (answering nw n host c) = n_hostname nw" "n_getenv (answering nw n host c) = n_getenv nw"
  by (simp_all add: answering_def)

lemma cut_at_append: "CHR ''@'' \<notin> set nm \<Longrightarrow> cut_at (nm @ CHR ''@'' # host) = nm"
  by (auto simp: cut_at_def takeWhile_tail takeWhile_append2)

lemma mode_port_none:
  "take 1 nm \<noteq> ''$'' \<Longrightarrow> mode_port (Some nm) [m] = Some 0"
  by (simp add: mode_port_def)

lemma Sopen_client_found:
  assumes nm: "nm \<noteq> ''''" "CHR ''@'' \<notin> set nm" "take 1 nm \<noteq> ''$''" "length nm + length host + 1 < BUFSIZE"
    and host: "host \<noteq> ''''" "n_socket nw" "n_resolves nw host"
    and e: "e \<noteq> SelectError" "\<And>h. pt_sharehost p = Some h \<Longrightarrow> fits_buf BUFSIZE h"
    and con: "n_connect nw (tries st) host PORTMASTER = Some (fed c (put16 PM_OK @ port_reply p) e)"
  shows "Sopen nw (Some (nm @ ''@'' @ host)) ''c'' st =
    Some (Sopen_clientport nw (case pt_sharehost p of Some h \<Rightarrow> if cstr h = '''' then host else cstr h | None \<Rightarrow> host)
      (Some nm) (pt_port p) (talked (fed (put_bytes (request_bytes (Lookup nm)) c) [] e) st))"
proof -
  have p: "mode_port (Some (nm @ ''@'' @ host)) ''c'' = Some 0"
    by (rule mode_port_none) (use nm in \<open>cases nm; simp\<close>)
  have s: "cut_at (nm @ ''@'' @ host) = nm" using nm(2) by (simp add: cut_at_append)
  have c: "Sopen_clientport nw host (Some nm) PORTMASTER st =
      (Some (makeSocket host (Some nm) PM_CLIENT\<lparr>sk_port := PORTMASTER, sk_conn := fed c (put16 PM_OK @ port_reply p) e\<rparr>),
       st\<lparr>tries := tries st + 1\<rparr>)"
    using host con by (simp add: Sopen_clientport_def Let_def)
  have "Sopen nw (Some (nm @ ''@'' @ host)) ''c'' st = Sopen_client nw 0 host nm False st"
    using p s nm by (simp add: Sopen_def Let_def BUFSIZE_def)
  also have "\<dots> = Some (Sopen_clientport nw (case pt_sharehost p of Some h \<Rightarrow> if cstr h = '''' then host else cstr h | None \<Rightarrow> host)
      (Some nm) (pt_port p) (talked (fed (put_bytes (request_bytes (Lookup nm)) c) [] e) st))"
    unfolding Sopen_client_def
    by (simp add: c client_protocol_found [OF e] hang_up_def talked_def del: request_bytes.simps split: option.split)
  finally show ?thesis .
qed

lemma Sopen_server_answered:
  assumes nm: "nm \<noteq> ''''" "CHR ''@'' \<notin> set nm" "take 1 nm \<noteq> ''$''"
    and nw: "n_socket nw" "n_hostname nw = Some host" "n_getenv nw ''PMSHARE'' = None" "host \<noteq> ''''"
      "n_resolves nw host" "n_bind nw 0 = Some port"
    and e: "e \<noteq> SelectError" "a = PM_OK \<or> a = PM_SORRY"
    and con: "n_connect nw (tries st) host PORTMASTER = Some (fed c (put16 PM_OK @ put16 a) e)"
  shows "\<exists>c'. Sopen nw (Some nm) ''s'' st =
      Some (if a = PM_OK then Some (makeSocket host (Some nm) PM_SERVER\<lparr>sk_port := port\<rparr>) else None, talked c' st) \<and>
    (a = PM_OK \<longrightarrow> out c' = out c @ request_bytes (Register nm port))"
proof -
  obtain c' where c': "server_protocol None host nm port (fed c (put16 PM_OK @ put16 a) e) = Some (a = PM_OK, c')"
    "a = PM_OK \<longrightarrow> out c' = out c @ request_bytes (Register nm port)"
    using server_protocol_answered [OF e, of None host nm port c] by (auto simp: announce_def)
  have s: "cut_at nm = nm" using nm(2) by (simp add: cut_at_def takeWhile_eq_all_conv) metis
  have c: "Sopen_clientport nw host (Some ''PMClient'') PORTMASTER st =
      (Some (makeSocket host (Some ''PMClient'') PM_CLIENT\<lparr>sk_port := PORTMASTER, sk_conn := fed c (put16 PM_OK @ put16 a) e\<rparr>),
       st\<lparr>tries := tries st + 1\<rparr>)"
    using nw con by (simp add: Sopen_clientport_def Let_def)
  have "Sopen_server nw 0 (Some nm) st =
    Some (if a = PM_OK then Some (makeSocket host (Some nm) PM_SERVER\<lparr>sk_port := port\<rparr>) else None, talked c' st)"
    using nw nm(1) by (simp add: Sopen_server_def s c c'(1) hang_up_def talked_def Let_def)
  moreover have "mode_port (Some nm) ''s'' = Some 0" by (rule mode_port_none [OF nm(3)])
  ultimately show ?thesis using nm(1) c'(2) by (intro exI [of _ c']) (simp add: Sopen_def split: option.split)
qed

lemma Sopen_at_port:
  assumes "0 < n" and "n < 2 ^ 16" and "length host + 1 < BUFSIZE" and "m = CHR ''c''"
  shows "Sopen nw (Some (CHR ''@'' # host)) (m # digits10 n) st = Some (Sopen_clientport nw host (Some '''') (of_int n) st)"
proof -
  have d: "list_all c_isdigit (digits10 n)" "digits10 n \<noteq> []" using digits10_digits [of n] assms(1) by simp_all
  then have "c_isdigit ((m # digits10 n) ! 1)" by (cases "digits10 n") auto
  moreover have tw: "takeWhile c_isdigit (digits10 n) = digits10 n"
    using takeWhile_digits(1) [OF d(1), of "[]"] by simp
  have "scan_ulong (digits10 n) 0 = nat n"
    unfolding scan_ulong_def Let_def tw using d(2) assms(1,2) digits_val_digits10 [of n] by simp
  ultimately have "mode_port (Some (CHR ''@'' # host)) (m # digits10 n) = Some (nat n)"
    using d(2) by (simp add: mode_port_def)
  then show ?thesis
    using assms by (simp add: Sopen_def cut_at_def BUFSIZE_def Sopen_client_def)
qed

lemma spmtable_lists_the_table:
  assumes "\<And>p. p \<in> set (phd s) \<Longrightarrow> fits_buf 256 (table_line p)" and "length (phd s) < 65536"
    and "\<not> firewall s c" and "out c = ''''" and "e \<noteq> SelectError" and "e' \<noteq> SelectError"
  shows "\<exists>s' c'. spm_accept env (fed c (request_bytes Table) e) s = Some (True, s') \<and> phd s' = phd s \<and>
    sclosed s' = sclosed s @ [c'] \<and>
    table_protocol stack (fed cc (out c') e') =
      Some (if phd s = [] then NoServers else Servers (map (\<lambda>p. cstr (table_line p)) (phd s)),
        fed (put_bytes (request_bytes Table) cc) [] e')"
proof -
  from request_handled [of Table e s c env] assms(3,4,5)
  obtain s' c' where "spm_accept env (fed c (request_bytes Table) e) s = Some (True, s')" "phd s' = phd s"
    "sclosed s' = sclosed s @ [c']" "out c' = put16 PM_OK @ snd (dir_step Table (phd s))"
    unfolding handled_def by auto
  with table_protocol_all [OF assms(1,6,2), of stack cc] show ?thesis by auto
qed

end
