(* ===== verification/Spm_Examples.thy ===== *)
theory Spm_Examples
  imports Ssl_Open_Lemmas Spm_Inv
begin

text \<open>A PortMaster that has just started and one with two servers, for the concrete instances of the theorems.\<close>

definition demo_pm_env :: spm_env where
  "demo_pm_env = \<lparr>spm_stack = replicate 128 NUL, spm_getenv = None, spm_fopen = (\<lambda>f. Some ''''), spm_malloc = replicate 6 0\<rparr>"

definition demo_pm :: spm where
  "demo_pm = spm_start demo_pm_env None ''x''"

definition demo_pm2 :: spm where
  "demo_pm2 = demo_pm\<lparr>phd := [\<lparr>pt_sktname = ''a'', pt_sharehost = Some ''pc'', pt_port = 5\<rparr>,
     \<lparr>pt_sktname = ''b'', pt_sharehost = None, pt_port = 5\<rparr>]\<rparr>"

definition demo_net :: "string \<Rightarrow> net" where
  \<comment> \<open>every connection gives these bytes and is then closed by the peer\<close>
  "demo_net q = \<lparr>n_hostname = Some ''here'', n_getenv = (\<lambda>v. None), n_socket = True, n_resolves = (\<lambda>h. True),
     n_connect = (\<lambda>n h p. Some (fed nullconn q PeerClosed)), n_bind = (\<lambda>p. Some (if p = 0 then 4711 else p))\<rparr>"

lemma demo_pm_simps [simp]:
  "phd demo_pm = []" "cwhd demo_pm = []" "spmfwhd demo_pm = []" "sclosed demo_pm = []" "hostaddr demo_pm = [0, 0, 0, 0]"
  "firewall demo_pm c = False" "firewall demo_pm2 c = False" "firewall (demo_pm\<lparr>cwhd := ws\<rparr>) c = False"
  "cwhd demo_pm2 = []" "sclosed demo_pm2 = []"
  "phd demo_pm2 = [\<lparr>pt_sktname = ''a'', pt_sharehost = Some ''pc'', pt_port = 5\<rparr>,
     \<lparr>pt_sktname = ''b'', pt_sharehost = None, pt_port = 5\<rparr>]"
  by (simp_all add: demo_pm_def demo_pm2_def spm_start_def firewall_def)

lemma nullconn_simps [simp]: "out nullconn = ''''" "cid nullconn = 0" "peeraddr nullconn = None"
  by (simp_all add: nullconn_def)

lemma demo_strings [simp]:
  "cstr ''a'' = ''a''" "cstr ''b'' = ''b''" "cstr ''pc'' = ''pc''" "cstr ''talk'' = ''talk''" "cstr ''here'' = ''here''"
  "fits_buf BUFSIZE ''a''" "fits_buf BUFSIZE ''b''" "fits_buf BUFSIZE ''pc''" "fits_buf BUFSIZE ''talk''"
  by code_simp+

lemma demo_fits [simp]: "length nm < 128 \<Longrightarrow> length nm < BUFSIZE" "length nm \<le> 128 \<Longrightarrow> length nm \<le> BUFSIZE"
  "6 < BUFSIZE" "5 < BUFSIZE" "5 \<le> BUFSIZE" "4 \<le> BUFSIZE" "2 < BUFSIZE"
  by (simp_all add: BUFSIZE_def)

lemma demo_net_simps [simp]:
  "n_hostname (demo_net q) = Some ''here''" "n_getenv (demo_net q) v = None" "n_socket (demo_net q)"
  "n_resolves (demo_net q) h" "n_connect (demo_net q) n h p = Some (fed nullconn q PeerClosed)"
  "n_bind (demo_net q) p' = Some (if p' = 0 then 4711 else p')" "local_host (demo_net q) = ''here''"
  by (simp_all add: demo_net_def local_host_def)

lemma close_may_remove_other_server_example:
  "\<exists>s'. spm_accept demo_pm_env (fed nullconn (request_bytes (Unlist 5)) PeerClosed) demo_pm2 = Some (True, s') \<and>
    map pt_sktname (phd s') = [''b'']"
  using close_may_remove_other_server [of demo_pm2 "[]" "\<lparr>pt_sktname = ''a'', pt_sharehost = Some ''pc'', pt_port = 5\<rparr>"
    "[\<lparr>pt_sktname = ''b'', pt_sharehost = None, pt_port = 5\<rparr>]" 5 PeerClosed nullconn demo_pm_env] by auto

lemma spmtable_lists_the_table_example:
  "\<exists>s' c'. spm_accept demo_pm_env (fed nullconn (request_bytes Table) PeerClosed) demo_pm2 = Some (True, s') \<and>
    sclosed s' = [c'] \<and> table_protocol '''' (fed nullconn (out c') PeerClosed) =
      Some (Servers [''a@pc : 5'', ''b : 5''], fed (put_bytes (request_bytes Table) nullconn) [] PeerClosed)"
proof -
  have l: "table_line \<lparr>pt_sktname = ''a'', pt_sharehost = Some ''pc'', pt_port = 5\<rparr> = ''a@pc : 5''"
    "table_line \<lparr>pt_sktname = ''b'', pt_sharehost = None, pt_port = 5\<rparr> = ''b : 5''"
    "cstr ''a@pc : 5'' = ''a@pc : 5''" "cstr ''b : 5'' = ''b : 5''"
    by code_simp+
  have "fits_buf 256 (table_line p)" if "p \<in> set (phd demo_pm2)" for p
    using that l by (auto simp: fits_buf_def)
  from spmtable_lists_the_table [where s = demo_pm2 and c = nullconn and e = PeerClosed and e' = PeerClosed and
    env = demo_pm_env and stack = "''''" and cc = nullconn, OF this]
  show ?thesis by (simp add: l del: request_bytes.simps) metis
qed

text \<open>A PortMaster with one connection closed and one waiting.\<close>

definition demo_caller :: conn where
  "demo_caller = fed nullconn '''' PeerClosed"

definition demo_waiter :: conn where
  "demo_waiter = fed (nullconn\<lparr>cid := 1\<rparr>) (put16 PM_CLIENTWAIT @ cstring_bytes ''b'') StillOpen"

lemma demo_waiter_queued:
  "\<exists>s'. spm_accept demo_pm_env demo_waiter (demo_pm\<lparr>sclosed := [demo_caller]\<rparr>) = Some (True, s') \<and>
    map cid (sclosed s') = [0] \<and> map (\<lambda>w. (cw_sktname w, cid (cw_client w))) (cwhd s') = [(''b'', 1)]"
proof -
  let ?s = "demo_pm\<lparr>sclosed := [demo_caller]\<rparr>" and ?c = "put_event PM_OK (nullconn\<lparr>cid := 1\<rparr>)"
  obtain b where b: "read_string (sktname ?s) BUFSIZE (fed ?c (cstring_bytes ''b'') StillOpen) =
      Some (True, b, fed ?c [] StillOpen)" "cstr b = ''b''"
    using read_string_fed [of BUFSIZE "''b''" "sktname ?s" ?c "[]" StillOpen] by auto
  have q: "cstring_bytes ''b'' \<noteq> []" by (simp add: cstring_bytes_def)
  have "\<not> firewall ?s (nullconn\<lparr>cid := 1\<rparr>)" by (simp add: firewall_def)
  then show ?thesis
    using b q by (simp add: demo_waiter_def spm_accept_def dispatch pm_client_def is_queued_def demo_caller_def)
qed

lemma demo_busy_history:
  obtains s where "spm_history demo_pm_env [demo_caller, demo_waiter] s" and "map cid (sclosed s) = [0]"
    and "map (\<lambda>w. (cw_sktname w, cid (cw_client w))) (cwhd s) = [(''b'', 1)]"
proof -
  have "spm_history demo_pm_env [] demo_pm" unfolding demo_pm_def by (rule spm_history.start)
  moreover have "spm_accept demo_pm_env demo_caller demo_pm = Some (True, demo_pm\<lparr>sclosed := [demo_caller]\<rparr>)"
    by (simp add: spm_accept_def event_loop.simps demo_caller_def)
  ultimately have h: "spm_history demo_pm_env ([] @ [demo_caller]) (demo_pm\<lparr>sclosed := [demo_caller]\<rparr>)"
    by (intro spm_history.accept) simp_all
  obtain s where s: "spm_accept demo_pm_env demo_waiter (demo_pm\<lparr>sclosed := [demo_caller]\<rparr>) = Some (True, s)"
    "map cid (sclosed s) = [0]" "map (\<lambda>w. (cw_sktname w, cid (cw_client w))) (cwhd s) = [(''b'', 1)]"
    using demo_waiter_queued by (elim exE conjE) (rule that; assumption)
  have "cid demo_waiter \<notin> cid ` set ([] @ [demo_caller])" by (simp add: demo_waiter_def demo_caller_def)
  from spm_history.accept [OF h this s(1)] have "spm_history demo_pm_env [demo_caller, demo_waiter] s"
    by (simp only: append_Nil append_Cons)
  from this s(2,3) show thesis by (rule that)
qed

end
