(* ===== verification/Dmucs_Main.thy ===== *)
theory Dmucs_Main
  imports Dmucs_Server_Inv Dmucs_Clients Ssl_Open_Lemmas
begin

text \<open>
  The start of the server (\<open>main\<close> of \<open>main.cc\<close> up to its loop): the command line, the socket it
  opens, the empty database and the wait mask.  The descriptor that \<open>socket\<close> gave is an argument.
\<close>

record server_opts =
  so_port :: int
  so_debug :: bool
  so_hosts_file :: "string option"    \<comment> \<open>\<open>None\<close>: the file named when the program was built\<close>

definition default_server_opts :: server_opts where
  "default_server_opts = \<lparr>so_port = SERVER_PORT_NUM, so_debug = False, so_hosts_file = None\<rparr>"

fun server_args :: "server_opts \<Rightarrow> string list \<Rightarrow> server_opts option" where
  \<comment> \<open>\<open>None\<close>: the usage message\<close>
  "server_args o' [] = Some o'"
| "server_args o' [a] =
     (if opt_is ''-p'' ''--port'' a then None
      else if opt_is ''-D'' ''--debug'' a then Some (o'\<lparr>so_debug := True\<rparr>)
      else None)"
| "server_args o' (a # b # as) =
     (if opt_is ''-p'' ''--port'' a then server_args (o'\<lparr>so_port := atoi b\<rparr>) as
      else if opt_is ''-D'' ''--debug'' a then server_args (o'\<lparr>so_debug := True\<rparr>) (b # as)
      else if opt_is ''-H'' ''--hosts-info-file'' a then server_args (o'\<lparr>so_hosts_file := Some b\<rparr>) as
      else None)"

definition SVRSTR_SIZE :: nat where
  "SVRSTR_SIZE = 16"

definition svrstr :: "int \<Rightarrow> string option" where
  \<comment> \<open>\<open>sprintf\<close> into \<open>svrstr\<close>; \<open>None\<close>: it does not fit\<close>
  "svrstr port = (let s = ''s'' @ string_of_int port in if length s < SVRSTR_SIZE then Some s else None)"

datatype server_boot = SvUsage | SvNoSocket | SvUp socket server

definition server_main :: "net \<Rightarrow> string list \<Rightarrow> int \<Rightarrow> netst \<Rightarrow> (server_boot \<times> netst) option" where
  "server_main nw args fd st = (case server_args default_server_opts args of
     None \<Rightarrow> Some (SvUsage, st)
   | Some o' \<Rightarrow> do {
       mode \<leftarrow> svrstr (so_port o');
       (sock, st1) \<leftarrow> Sopen nw None mode st;
       (case sock of
          None \<Rightarrow> Some (SvNoSocket, st1)
        | Some s \<Rightarrow> do {
            sv \<leftarrow> server_start fd;
            Some (SvUp s sv, st1) }) })"

subsection \<open>Lemmas\<close>

lemma svrstr_fits:
  assumes "- (2 ^ 31) \<le> p" and "p < 2 ^ 31"
  shows "svrstr p = Some (''s'' @ string_of_int p)"
proof -
  have "length (digits10 \<bar>p\<bar>) \<le> 10" using assms by (intro digits10_length_le) auto
  then show ?thesis by (auto simp: svrstr_def SVRSTR_SIZE_def string_of_int_def abs_if)
qed

lemma mode_port_digits:
  assumes "0 \<le> n" and "n < 2 ^ 64"
  shows "mode_port h (m # digits10 n) = Some (nat n)"
proof -
  have d: "list_all c_isdigit (digits10 n)" using digits10_digits [of n] assms(1) by simp
  then have "c_isdigit ((m # digits10 n) ! 1)" using digits10_nonempty [of n] by (cases "digits10 n") auto
  moreover have t: "takeWhile c_isdigit (digits10 n) = digits10 n" using takeWhile_digits(1) [OF d, of "[]"] by simp
  have "scan_ulong (digits10 n) 0 = nat n"
    unfolding scan_ulong_def t Let_def using assms digits_val_digits10 [of n] by (simp add: min_def nat_le_iff)
  ultimately show ?thesis by (simp add: mode_port_def)
qed

lemma mode_port_negative:
  assumes "n < 0"
  shows "mode_port None (m # string_of_int n) = None"
  using assms by (simp add: mode_port_def string_of_int_def c_isdigit_def)

lemma server_args_port:
  assumes "- (2 ^ 31) \<le> p" and "p < 2 ^ 31"
  shows "server_args o' [''-p'', string_of_int p] = Some (o'\<lparr>so_port := p\<rparr>)"
  using atoi_string_of_int [OF assms] by (simp add: opt_is_def strequ_def strprefix_def)

end
