(* ===== verification/Dmucs_Monitor.thy ===== *)
theory Dmucs_Monitor
  imports Dmucs_Serialize Dmucs_Requests Ssl_Open
begin

text \<open>
  \<open>monitor.cc\<close>: the program that asks the server for its databases, parses the text and prints it
  by state and tier.  The parser reads a \<open>std::istringstream\<close>: text that is left, \<open>eofbit\<close> and
  \<open>failbit\<close>; an extraction from a stream that is not good sets \<open>failbit\<close> and leaves its
  variable as it is.  Using a variable that never got a value is \<open>None\<close>.
\<close>

subsection \<open>Input streams\<close>

record istream =
  left :: string
  eofbit :: bool
  failbit :: bool

definition good :: "istream \<Rightarrow> bool" where
  "good s = (\<not> eofbit s \<and> \<not> failbit s)"

definition istringstream :: "string \<Rightarrow> istream" where
  "istringstream t = \<lparr>left = t, eofbit = False, failbit = False\<rparr>"

definition not_good :: "istream \<Rightarrow> istream" where
  \<comment> \<open>the sentry of an extraction fails\<close>
  "not_good s = s\<lparr>failbit := True\<rparr>"

definition at_end :: "istream \<Rightarrow> istream" where
  \<comment> \<open>the end is reached before anything could be extracted\<close>
  "at_end s = s\<lparr>left := [], eofbit := True, failbit := True\<rparr>"

definition get_char :: "istream \<Rightarrow> char option \<times> istream" where
  \<comment> \<open>\<open>>>\<close> into a \<open>char\<close>\<close>
  "get_char s = (if \<not> good s then (None, not_good s)
     else (case skip_ws (left s) of [] \<Rightarrow> (None, at_end s) | c # cs \<Rightarrow> (Some c, s\<lparr>left := cs\<rparr>)))"

definition get_word :: "istream \<Rightarrow> string \<times> istream" where
  \<comment> \<open>\<open>>>\<close> into an empty \<open>std::string\<close>\<close>
  "get_word s = (if \<not> good s then ([], not_good s)
     else (let t = skip_ws (left s) in if t = [] then ([], at_end s)
       else (take_word t, s\<lparr>left := skip_word t, eofbit := (skip_word t = [])\<rparr>)))"

definition get_int :: "istream \<Rightarrow> int option \<times> istream" where
  \<comment> \<open>\<open>>>\<close> into an \<open>int\<close>: the value stored, if any\<close>
  "get_int s = (if \<not> good s then (None, not_good s)
     else (let t = skip_ws (left s) in if t = [] then (None, at_end s)
       else (case split_sign t of (neg, u) \<Rightarrow>
         (let ds = takeWhile c_isdigit u; r = dropWhile c_isdigit u;
              v = (if neg then - 1 else 1) * digits_val 0 ds;
              s' = s\<lparr>left := r, eofbit := (r = [])\<rparr>
          in if ds = [] then (Some 0, not_good s')
             else if v < - (2 ^ 31) then (Some (- (2 ^ 31)), not_good s')
             else if 2 ^ 31 \<le> v then (Some (2 ^ 31 - 1), not_good s')
             else (Some v, s')))))"

definition ignore :: "nat \<Rightarrow> istream \<Rightarrow> istream" where
  "ignore n s = (if \<not> good s then not_good s
     else s\<lparr>left := drop n (left s), eofbit := (length (left s) < n)\<rparr>)"

definition read_line :: "istream \<Rightarrow> string \<times> istream" where
  \<comment> \<open>\<open>std::getline\<close> into an empty string\<close>
  "read_line s = (if \<not> good s then ([], not_good s)
     else (let l = takeWhile (\<lambda>c. c \<noteq> hd NL) (left s); r = dropWhile (\<lambda>c. c \<noteq> hd NL) (left s)
       in (l, s\<lparr>left := drop 1 r, eofbit := (r = []), failbit := (left s = [])\<rparr>)))"

definition get_until :: "nat \<Rightarrow> char \<Rightarrow> istream \<Rightarrow> string \<times> istream" where
  \<comment> \<open>\<open>istream::get (buf, n, delim)\<close>; the delimiter stays\<close>
  "get_until n d s = (if \<not> good s then ([], not_good s)
     else (let k = take (n - 1) (takeWhile (\<lambda>c. c \<noteq> d) (left s)); r = drop (length k) (left s)
       in (k, s\<lparr>left := r, eofbit := (r = []), failbit := (k = [])\<rparr>)))"

subsection \<open>parseResults\<close>

record summary =
  su_avail :: string
  su_over :: string
  su_unavail :: string
  su_silent :: string
  su_unk :: string

definition no_summary :: summary where
  "no_summary = \<lparr>su_avail = '''', su_over = '''', su_unavail = '''', su_silent = '''', su_unk = ''''\<rparr>"

definition summary_line :: "string \<Rightarrow> string \<Rightarrow> string" where
  "summary_line title hs = (if hs \<noteq> '''' then title @ hs @ NL else '''')"

definition dumpSummaryInfo :: "summary \<Rightarrow> string" where
  \<comment> \<open>what is printed; the streams are empty afterwards\<close>
  "dumpSummaryInfo su = summary_line ''Avail: '' (su_avail su) @ summary_line ''Overloaded: '' (su_over su) @
     summary_line ''Unavail: '' (su_unavail su) @ summary_line ''Silent: '' (su_silent su) @
     summary_line ''Unknown state: '' (su_unk su)"

definition host_shown :: "env \<Rightarrow> string \<Rightarrow> string" where
  \<comment> \<open>the name of a dotted address, if it has one\<close>
  "host_shown e ipstr = (case gethostbyaddr e 4 (inet_addr ipstr) of None \<Rightarrow> ipstr | Some (nm, _) \<Rightarrow> nm)"

definition add_summary :: "int \<Rightarrow> string \<Rightarrow> summary \<Rightarrow> summary" where
  "add_summary state h su =
     (if state = status_int STATUS_AVAILABLE then su\<lparr>su_avail := su_avail su @ h\<rparr>
      else if state = status_int STATUS_UNAVAILABLE then su\<lparr>su_unavail := su_unavail su @ h\<rparr>
      else if state = status_int STATUS_OVERLOADED then su\<lparr>su_over := su_over su @ h\<rparr>
      else if state = status_int STATUS_SILENT then su\<lparr>su_silent := su_silent su @ h\<rparr>
      else su\<lparr>su_unk := su_unk su @ h\<rparr>)"

function tier_fields :: "env \<Rightarrow> istream \<Rightarrow> string option" where
  \<comment> \<open>the loop over the fields of a \<open>C\<close> line\<close>
  "tier_fields e s = (case get_until 32 (CHR ''/'') s of (ipName, s1) \<Rightarrow>
     if \<not> good s1 then Some ''''
     else (case get_int (ignore 1 s1) of (numCpus, s2) \<Rightarrow>
       (case numCpus of None \<Rightarrow> None
        | Some n \<Rightarrow> map_option (\<lambda>t. host_shown e ipName @ ''/'' @ string_of_int n @ '' '' @ t)
            (tier_fields e (ignore 1 s2)))))"
  by pat_completeness auto

lemma left_ignore: "length (left (ignore n s)) \<le> length (left s)"
  by (simp add: ignore_def not_good_def)

lemma left_get_int: "length (left (snd (get_int s))) \<le> length (left s)"
proof -
  have "length (snd (split_sign (skip_ws (left s)))) \<le> length (skip_ws (left s))"
    by (cases "skip_ws (left s)") (simp_all add: split_sign_def)
  then have "length (dropWhile c_isdigit (snd (split_sign (skip_ws (left s))))) \<le> length (left s)"
    using length_dropWhile_le length_skip_ws le_trans by blast
  then show ?thesis
    by (auto simp: get_int_def not_good_def at_end_def Let_def split: prod.split)
qed

lemma left_get_word: "length (left (snd (get_word s))) \<le> length (left s)"
  using le_trans [OF length_dropWhile_le length_skip_ws [of "left s"]]
  by (simp add: get_word_def not_good_def at_end_def Let_def skip_word_def)

lemma left_read_line: "length (left (snd (read_line s))) \<le> length (left s)"
  using length_dropWhile_le [of "\<lambda>c. c \<noteq> hd NL" "left s"]
  by (auto simp: read_line_def not_good_def Let_def)

lemma left_get_char: "get_char s = (Some c, s1) \<Longrightarrow> length (left s1) < length (left s)"
  using length_skip_ws [of "left s"] by (auto simp: get_char_def split: if_splits list.splits)

lemma left_get_until:
  assumes "get_until n d s = (k, s1)" and "good s1"
  shows "length (left s1) < length (left s)"
proof -
  have "good s" using assms by (auto simp: get_until_def good_def not_good_def split: if_splits)
  with assms have "k \<noteq> []" "left s1 = drop (length k) (left s)" "left s1 \<noteq> []"
    by (auto simp: get_until_def good_def Let_def)
  then show ?thesis by (cases k; cases "left s") auto
qed

termination tier_fields
proof (relation "measure (\<lambda>(e, s). length (left s))")
  fix e s ipName s1 numCpus s2 n
  assume "(ipName, s1) = get_until 32 (CHR ''/'') s" "\<not> \<not> good s1"
    and y: "(numCpus, s2) = get_int (ignore 1 s1)"
  then have "length (left s1) < length (left s)" using left_get_until [of 32 _ s ipName s1] by simp
  moreover have "length (left s2) \<le> length (left s1)"
    using left_get_int [of "ignore 1 s1"] left_ignore [of 1 s1] y by (metis le_trans snd_conv)
  ultimately show "((e, ignore 1 s2), e, s) \<in> measure (\<lambda>(e, s). length (left s))"
    using left_ignore [of 1 s2] by simp
qed simp

declare tier_fields.simps [simp del]

definition dist_title :: "string \<Rightarrow> string" where
  "dist_title distProp = (if distProp = [CHR 0x27, CHR 0x27] then '''' else ''*** '' @ distProp @ '' hosts:'' @ NL)"

definition tier_line :: "env \<Rightarrow> string \<Rightarrow> string option" where
  \<comment> \<open>what a \<open>C\<close> line makes it print\<close>
  "tier_line e line = (case get_int (istringstream line) of (tierNum, l) \<Rightarrow> do {
     n \<leftarrow> tierNum;
     fields \<leftarrow> tier_fields e (ignore 2 l);
     Some (''Tier '' @ string_of_int n @ '': '' @ fields @ NL) })"

function parse_loop :: "env \<Rightarrow> istream \<Rightarrow> summary \<Rightarrow> string option" where
  \<comment> \<open>what is printed\<close>
  "parse_loop e s su = (case get_char s of (firstChar, s1) \<Rightarrow>
     if eofbit s1 then Some (dumpSummaryInfo su)
     else (case firstChar of None \<Rightarrow> None
       | Some c \<Rightarrow>
         if c = CHR ''D'' then
           map_option (\<lambda>t. dumpSummaryInfo su @ dist_title (fst (get_word (ignore 1 s1))) @ t)
             (parse_loop e (snd (get_word (ignore 1 s1))) no_summary)
         else if c = CHR ''H'' then
           (case get_int (snd (get_word (ignore 1 s1))) of (state, s3) \<Rightarrow>
             (case state of None \<Rightarrow> None
              | Some st \<Rightarrow> parse_loop e s3
                  (add_summary st (host_shown e (fst (get_word (ignore 1 s1))) @ '' '') su)))
         else if c = CHR ''C'' then
           (case tier_line e (fst (read_line s1)) of None \<Rightarrow> None
            | Some l \<Rightarrow> map_option (\<lambda>t. l @ t) (parse_loop e (snd (read_line s1)) su))
         else map_option (\<lambda>t. fst (read_line s1) @ NL @ t) (parse_loop e (snd (read_line s1)) su)))"
  by pat_completeness auto
termination
proof (relation "measure (\<lambda>(e, s, su). length (left s))")
  fix e :: env and s su firstChar s1 c
  assume "(firstChar, s1) = get_char s" "firstChar = Some c"
  then have lt: "length (left s1) < length (left s)" using left_get_char [of s c s1] by simp
  have w: "length (left (snd (get_word (ignore 1 s1)))) \<le> length (left s1)"
    using left_get_word left_ignore le_trans by blast
  then show "((e, snd (get_word (ignore 1 s1)), no_summary), e, s, su) \<in> measure (\<lambda>(e, s, su). length (left s))"
    using lt by simp
  have r: "length (left (snd (read_line s1))) \<le> length (left s1)" by (rule left_read_line)
  then show "((e, snd (read_line s1), su), e, s, su) \<in> measure (\<lambda>(e, s, su). length (left s))"
    and "((e, snd (read_line s1), su), e, s, su) \<in> measure (\<lambda>(e, s, su). length (left s))"
    using lt by simp_all
  fix state s3 st
  assume "(state, s3) = get_int (snd (get_word (ignore 1 s1)))"
  then have "length (left s3) \<le> length (left s1)"
    using left_get_int [of "snd (get_word (ignore 1 s1))"] w by (metis le_trans snd_conv)
  then show "((e, s3, add_summary st (host_shown e (fst (get_word (ignore 1 s1))) @ '' '') su), e, s, su)
      \<in> measure (\<lambda>(e, s, su). length (left s))"
    using lt by simp
qed simp

declare parse_loop.simps [simp del]

definition parseResults :: "env \<Rightarrow> string \<Rightarrow> string option" where
  "parseResults e resultStr = map_option (\<lambda>t. t @ NL) (parse_loop e (istringstream resultStr) no_summary)"

subsection \<open>main\<close>

fun monitor_args :: "client_opts \<Rightarrow> string list \<Rightarrow> client_opts option" where
  "monitor_args o' [] = Some o'"
| "monitor_args o' [a] =
     (if opt_is ''-s'' ''--server'' a \<or> opt_is ''-p'' ''--port'' a then None
      else if opt_is ''-D'' ''--debug'' a then Some (o'\<lparr>debugMode := True\<rparr>) else None)"
| "monitor_args o' (a # b # as) =
     (if opt_is ''-s'' ''--server'' a then monitor_args (set_server b o') as
      else if opt_is ''-p'' ''--port'' a then monitor_args (o'\<lparr>serverPortNum := atoi b\<rparr>) as
      else if opt_is ''-D'' ''--debug'' a then monitor_args (o'\<lparr>debugMode := True\<rparr>) (b # as)
      else None)"

definition RESULT_MAX_SIZE :: nat where
  "RESULT_MAX_SIZE = 8196"

datatype monitor_result = MonRetry | MonFailed | MonShown string

definition monitor_round ::
    "env \<Rightarrow> net \<Rightarrow> client_opts \<Rightarrow> string \<Rightarrow> netst \<Rightarrow> (monitor_result \<times> string \<times> netst) option" where
  \<comment> \<open>one round of the loop, with the buffer \<open>resultStr\<close>\<close>
  "monitor_round e nw o' resultStr st = do {
     (sock, st1) \<leftarrow> Sopen nw (Some (c_str (serverName o'))) (clientPortStr o') st;
     (case sock of
        None \<Rightarrow> Some (MonRetry, resultStr, st1)
      | Some s \<Rightarrow> do {
          (ok, buf, c) \<leftarrow> read_string (resultStr[0 := NUL]) RESULT_MAX_SIZE (put_string ''monitor'' (sk_conn s));
          if \<not> ok then do {
            st2 \<leftarrow> Sclose nw (Some (s\<lparr>sk_conn := c\<rparr>)) st1;
            Some (MonFailed, buf, st2) }
          else do {
            shown \<leftarrow> parseResults e (cstr buf);
            st2 \<leftarrow> Sclose nw (Some (s\<lparr>sk_conn := c\<rparr>)) st1;
            Some (MonShown shown, buf, st2) } }) }"

end
