(* ===== verification/Dmucs_Monitor_Lemmas.thy ===== *)
theory Dmucs_Monitor_Lemmas
  imports Dmucs_Monitor
begin

text \<open>
  The monitor parses what the server serialises: every host appears under its state and every tier
  with its runs of cpus, for each distinguishing property.
\<close>

subsection \<open>What is to be shown\<close>

definition hosts_shown :: "env \<Rightarrow> (hptr \<Rightarrow> host) \<Rightarrow> hptr list \<Rightarrow> host_status_t \<Rightarrow> string" where
  "hosts_shown e H ps st =
     concat (map (\<lambda>p. host_shown e (inet_ntoa (h_ip (H p))) @ '' '') (filter (\<lambda>p. getStateAsInt (H p) = st) ps))"

definition with_hosts :: "env \<Rightarrow> (hptr \<Rightarrow> host) \<Rightarrow> hptr list \<Rightarrow> summary \<Rightarrow> summary" where
  "with_hosts e H ps su = \<lparr>su_avail = su_avail su @ hosts_shown e H ps STATUS_AVAILABLE,
     su_over = su_over su @ hosts_shown e H ps STATUS_OVERLOADED,
     su_unavail = su_unavail su @ hosts_shown e H ps STATUS_UNAVAILABLE,
     su_silent = su_silent su @ hosts_shown e H ps STATUS_SILENT,
     su_unk = su_unk su @ hosts_shown e H ps STATUS_UNKNOWN\<rparr>"

definition cpus_shown :: "env \<Rightarrow> (ip \<times> int) list \<Rightarrow> string" where
  "cpus_shown e us = concat (map (\<lambda>(x, n). host_shown e (inet_ntoa x) @ ''/'' @ string_of_int n @ '' '') us)"

definition tier_shown :: "env \<Rightarrow> int \<times> ip list \<Rightarrow> string" where
  "tier_shown e tier = (case tier of (t, l) \<Rightarrow>
     if l = [] then '''' else ''Tier '' @ string_of_int t @ '': '' @ cpus_shown e (uniqIps l) @ NL)"

definition db_shown :: "env \<Rightarrow> (hptr \<Rightarrow> host) \<Rightarrow> dprop_db \<Rightarrow> string" where
  "db_shown e H db =
     (let d = c_str (db_dprop db)
      in if d = '''' then '''' else ''*** '' @ [CHR 0x27] @ d @ [CHR 0x27] @ '' hosts:'' @ NL) @
     concat (map (tier_shown e) (rev (availCpus db))) @
     dumpSummaryInfo (with_hosts e H (allHosts db) no_summary)"

definition db_printable :: "dprop_db \<Rightarrow> bool" where
  \<comment> \<open>the property is a word, and the numbers fit an \<open>int\<close>\<close>
  "db_printable db \<longleftrightarrow> list_all (\<lambda>c. \<not> c_isspace c) (db_dprop db) \<and>
     list_all (\<lambda>(t, l). - (2 ^ 31) \<le> t \<and> t < 2 ^ 31 \<and> length l < 2 ^ 31) (availCpus db)"

subsection \<open>Streams\<close>

lemma good_istringstream [simp]:
  "good (istringstream t)" "left (istringstream t) = t" "\<not> eofbit (istringstream t)" "\<not> failbit (istringstream t)"
  "istringstream t\<lparr>left := r\<rparr> = istringstream r" "istringstream t\<lparr>left := r, eofbit := False\<rparr> = istringstream r"
  "istringstream t\<lparr>left := r, eofbit := False, failbit := False\<rparr> = istringstream r"
  by (simp_all add: istringstream_def good_def)

lemma get_char_skip:
  "get_char (istringstream t) = (case skip_ws t of [] \<Rightarrow> (None, at_end (istringstream [])) | c # cs \<Rightarrow> (Some c, istringstream cs))"
  by (auto simp: get_char_def at_end_def istringstream_def good_def split: list.split)

lemma get_char_here: "\<not> c_isspace c \<Longrightarrow> get_char (istringstream (c # r)) = (Some c, istringstream r)"
  by (simp add: get_char_def skip_ws_def)

lemma ignore_here [simp]:
  "ignore 1 (istringstream (c # r)) = istringstream r" "ignore (Suc 0) (istringstream (c # r)) = istringstream r"
  "ignore 2 (istringstream (c # d # r)) = istringstream r"
  by (simp_all add: ignore_def)

lemma get_word_here:
  assumes "is_word w" and "r \<noteq> []" and "c_isspace (hd r)"
  shows "get_word (istringstream (CHR '' '' # w @ r)) = (w, istringstream r)"
proof -
  have "skip_ws (CHR '' '' # w @ r) = w @ r" using skip_ws_word [OF assms(1)] by simp
  moreover have "take_word (w @ r) = w" "skip_word (w @ r) = r"
    using assms takeWhile_digits [of "\<lambda>c. \<not> c_isspace c" w r] by (simp_all add: is_word_def take_word_def skip_word_def)
  moreover have "w \<noteq> []" using assms(1) by (simp add: is_word_def)
  ultimately show ?thesis using assms(2) by (simp add: get_word_def Let_def)
qed

lemma get_int_here:
  assumes n: "- (2 ^ 31) \<le> n" "n < 2 ^ 31" and r: "r \<noteq> []" "\<not> c_isdigit (hd r)"
  shows "get_int (istringstream (string_of_int n @ r)) = (Some n, istringstream r)"
    and "get_int (istringstream (CHR '' '' # string_of_int n @ r)) = (Some n, istringstream r)"
proof -
  have d: "takeWhile c_isdigit (digits10 m @ r) = digits10 m" "dropWhile c_isdigit (digits10 m @ r) = r"
    "digits_val 0 (digits10 m) = m" "\<not> c_isspace (hd (digits10 m @ r))"
    "hd (digits10 m @ r) \<noteq> CHR ''-''" "hd (digits10 m @ r) \<noteq> CHR ''+''" if "0 \<le> m" for m
    using takeWhile_digits [OF digits10_digits [OF that], of r] r digits_val_digits10 [OF that]
      hd_digits10 [OF that, of r] c_isdigit_not_space by (auto simp: c_isdigit_def)
  have ws: "skip_ws (string_of_int n @ r) = string_of_int n @ r"
    using d(4) [of n] by (cases "digits10 n") (auto simp: string_of_int_def skip_ws_def)
  have sg: "split_sign (string_of_int n @ r) = (n < 0, digits10 \<bar>n\<bar> @ r)"
    using d(5,6) [of n] by (cases "digits10 n") (auto simp: string_of_int_def split_sign_def)
  have ne: "string_of_int n \<noteq> []" by (simp add: string_of_int_def)
  have v: "(if n < 0 then - 1 else 1) * digits_val 0 (digits10 \<bar>n\<bar>) = n" using d(3) [of "\<bar>n\<bar>"] by auto
  show "get_int (istringstream (string_of_int n @ r)) = (Some n, istringstream r)"
    "get_int (istringstream (CHR '' '' # string_of_int n @ r)) = (Some n, istringstream r)"
    using d(1,2) [of "\<bar>n\<bar>"] v n r(1) ne by (auto simp: get_int_def ws sg Let_def)
qed

lemma parse_newline: "parse_loop e (istringstream (NL @ r)) su = parse_loop e (istringstream r) su"
proof -
  have "skip_ws (NL @ r) = skip_ws r" by (simp add: skip_ws_def NL_def c_isspace_def)
  then have "get_char (istringstream (NL @ r)) = get_char (istringstream r)" by (simp add: get_char_skip)
  then show ?thesis by (subst (1 2) parse_loop.simps) simp
qed

subsection \<open>Lines\<close>

lemma parse_host_line:
  "parse_loop e (istringstream (serialize_host H p @ r)) su =
   parse_loop e (istringstream r) (with_hosts e H [p] su)"
proof -
  define st where "st = getStateAsInt (H p)"
  have n: "0 \<le> status_int st" "status_int st < 2 ^ 31" by (cases st; simp)+
  have nl: "NL @ r \<noteq> []" "\<not> c_isdigit (hd (NL @ r))" by (simp_all add: NL_def c_isdigit_def)
  have c: "get_char (istringstream (serialize_host H p @ r)) = (Some CHR ''H'',
      istringstream (CHR '':'' # CHR '' '' # inet_ntoa (h_ip (H p)) @ CHR '' '' # string_of_int (status_int st) @ NL @ r))"
    by (simp add: serialize_host_def get_char_here st_def c_isspace_def)
  have i: "get_word (istringstream (CHR '' '' # inet_ntoa (h_ip (H p)) @ CHR '' '' # string_of_int (status_int st) @ NL @ r)) =
      (inet_ntoa (h_ip (H p)), istringstream (CHR '' '' # string_of_int (status_int st) @ NL @ r))"
    by (rule get_word_here) (simp_all add: inet_ntoa_word)
  have "get_int (istringstream (CHR '' '' # string_of_int (status_int st) @ NL @ r)) = (Some (status_int st), istringstream (NL @ r))"
    using n nl by (intro get_int_here) simp_all
  then have "parse_loop e (istringstream (serialize_host H p @ r)) su =
      parse_loop e (istringstream (NL @ r)) (add_summary (status_int st) (host_shown e (inet_ntoa (h_ip (H p))) @ '' '') su)"
    by (subst parse_loop.simps) (simp add: c i)
  also have "add_summary (status_int st) (host_shown e (inet_ntoa (h_ip (H p))) @ '' '') su = with_hosts e H [p] su"
    by (cases st) (simp_all add: add_summary_def with_hosts_def hosts_shown_def flip: st_def)
  finally show ?thesis by (simp add: parse_newline)
qed

lemma with_hosts_simps:
  "with_hosts e H [] su = su" "with_hosts e H (ps @ qs) su = with_hosts e H qs (with_hosts e H ps su)"
  by (simp_all add: with_hosts_def hosts_shown_def)

lemma parse_host_lines:
  "parse_loop e (istringstream (concat (map (serialize_host H) ps) @ r)) su =
   parse_loop e (istringstream r) (with_hosts e H ps su)"
proof (induction ps arbitrary: su)
  case (Cons p ps)
  then show ?case using with_hosts_simps(2) [of e H "[p]" ps su] by (simp add: parse_host_line)
qed (simp add: with_hosts_simps)

lemma uniq_loop_range:
  "(x, n) \<in> set (uniq_loop cur ct xs) \<Longrightarrow> 0 \<le> ct \<Longrightarrow> 0 \<le> n \<and> n \<le> ct + int (length xs)"
  by (induction cur ct xs rule: uniq_loop.induct) (auto split: if_splits)

lemma uniqIps_range: "(x, n) \<in> set (uniqIps l) \<Longrightarrow> 0 \<le> n \<and> n \<le> int (length l)"
  using uniq_loop_range [of x n 0 0 "sort l"] by (simp add: uniqIps_def)

lemma inet_ntoa_chars:
  assumes "c \<in> set (inet_ntoa a)"
  shows "c_isdigit c \<or> c = CHR ''.''"
  using assms digits10_digits [OF octet_range(1)] by (auto simp: inet_ntoa_def list_all_iff)

lemma tier_fields_shown:
  assumes "\<And>x n. (x, n) \<in> set us \<Longrightarrow> - (2 ^ 31) \<le> n \<and> n < 2 ^ 31"
  shows "tier_fields e (istringstream (concat (map (\<lambda>(x, n). inet_ntoa x @ ''/'' @ string_of_int n @ '' '') us))) =
    Some (cpus_shown e us)"
  using assms
proof (induction us)
  case Nil
  have "\<not> good (snd (get_until 32 (CHR ''/'') (istringstream [])))" by (simp add: get_until_def good_def Let_def)
  then show ?case by (subst tier_fields.simps) (auto simp: cpus_shown_def split: prod.split)
next
  case (Cons u us)
  obtain x n where u: "u = (x, n)" by (cases u)
  define r where "r = concat (map (\<lambda>(x, n). inet_ntoa x @ ''/'' @ string_of_int n @ '' '') us)"
  have "list_all (\<lambda>c. c \<noteq> CHR ''/'') (inet_ntoa x)"
    using inet_ntoa_chars [of "CHR ''/''" x] by (auto simp: c_isdigit_def list_all_iff)
  then have "takeWhile (\<lambda>c. c \<noteq> CHR ''/'') (inet_ntoa x @ CHR ''/'' # s) = inet_ntoa x" for s
    using takeWhile_digits(1) [of "\<lambda>c. c \<noteq> CHR ''/''" "inet_ntoa x" "CHR ''/'' # s"] by simp
  moreover have "inet_ntoa x \<noteq> []" using inet_ntoa_word [of x] by (simp add: is_word_def)
  ultimately have g: "get_until 32 (CHR ''/'') (istringstream (inet_ntoa x @ CHR ''/'' # s)) =
      (inet_ntoa x, istringstream (CHR ''/'' # s))" for s
    using inet_ntoa_length [of x] by (simp add: get_until_def Let_def)
  have i: "get_int (istringstream (string_of_int n @ CHR '' '' # r)) = (Some n, istringstream (CHR '' '' # r))"
    using Cons.prems [of x n] u by (intro get_int_here) (simp_all add: c_isdigit_def)
  have "tier_fields e (istringstream r) = Some (cpus_shown e us)"
    unfolding r_def by (rule Cons.IH) (use Cons.prems in auto)
  moreover have "concat (map (\<lambda>(x, n). inet_ntoa x @ ''/'' @ string_of_int n @ '' '') (u # us)) =
      inet_ntoa x @ CHR ''/'' # string_of_int n @ CHR '' '' # r" by (simp add: u r_def)
  ultimately show ?case by (simp only:, subst tier_fields.simps) (simp add: g i u cpus_shown_def)
qed

lemma read_line_here:
  "hd NL \<notin> set l \<Longrightarrow> read_line (istringstream (l @ NL @ r)) = (l, istringstream r)"
proof -
  assume l: "hd NL \<notin> set l"
  then have "list_all (\<lambda>c. c \<noteq> hd NL) l" by (auto simp: list_all_iff)
  from takeWhile_digits [OF this, of "NL @ r"]
  have "takeWhile (\<lambda>c. c \<noteq> hd NL) (l @ NL @ r) = l" "dropWhile (\<lambda>c. c \<noteq> hd NL) (l @ NL @ r) = NL @ r"
    by (simp_all add: NL_def)
  then show ?thesis by (simp add: read_line_def Let_def NL_def)
qed

lemma parse_tier_line:
  assumes "- (2 ^ 31) \<le> t" and "t < 2 ^ 31" and "length l < 2 ^ 31"
  shows "parse_loop e (istringstream (serialize_tier (t, l) @ r)) su =
    map_option (\<lambda>x. tier_shown e (t, l) @ x) (parse_loop e (istringstream r) su)"
proof (cases "l = []")
  case True
  then show ?thesis by (simp add: serialize_tier_def tier_shown_def option.map_ident)
next
  case False
  define fs where "fs = concat (map (\<lambda>(x, n). inet_ntoa x @ ''/'' @ string_of_int n @ '' '') (uniqIps l))"
  define line where "line = CHR '' '' # string_of_int t @ '': '' @ fs"
  have "hd NL \<notin> set line"
  proof -
    have "hd NL \<notin> set (inet_ntoa x)" "hd NL \<notin> set (string_of_int n)" for x n
      using inet_ntoa_chars [of "hd NL" x] string_of_int_chars [of "hd NL" n] by (auto simp: NL_def c_isdigit_def)
    then show ?thesis by (auto simp: line_def fs_def NL_def)
  qed
  then have rl: "read_line (istringstream (line @ NL @ r)) = (line, istringstream r)" by (rule read_line_here)
  have "tier_fields e (istringstream fs) = Some (cpus_shown e (uniqIps l))"
    unfolding fs_def using uniqIps_range [of _ _ l] assms(3) by (intro tier_fields_shown) fastforce
  moreover have "get_int (istringstream line) = (Some t, istringstream ('': '' @ fs))"
    unfolding line_def using assms by (intro get_int_here) (simp_all add: c_isdigit_def)
  ultimately have "tier_line e line = Some (tier_shown e (t, l))"
    using False by (simp add: tier_line_def tier_shown_def)
  moreover have "get_char (istringstream (serialize_tier (t, l) @ r)) = (Some CHR ''C'', istringstream (line @ NL @ r))"
    using False by (simp add: serialize_tier_def line_def fs_def get_char_here c_isspace_def)
  ultimately show ?thesis by (subst parse_loop.simps) (simp add: rl)
qed

lemma parse_tier_lines:
  assumes "\<And>t l. (t, l) \<in> set tiers \<Longrightarrow> - (2 ^ 31) \<le> t \<and> t < 2 ^ 31 \<and> length l < 2 ^ 31"
  shows "parse_loop e (istringstream (concat (map serialize_tier tiers) @ r)) su =
    map_option (\<lambda>x. concat (map (tier_shown e) tiers) @ x) (parse_loop e (istringstream r) su)"
  using assms
proof (induction tiers)
  case (Cons a tiers)
  obtain t l where a: "a = (t, l)" by (cases a)
  have r: "- (2 ^ 31) \<le> t" "t < 2 ^ 31" "length l < 2 ^ 31" using Cons.prems [of t l] a by simp_all
  have "parse_loop e (istringstream (concat (map serialize_tier tiers) @ r)) su =
      map_option (\<lambda>x. concat (map (tier_shown e) tiers) @ x) (parse_loop e (istringstream r) su)"
    by (rule Cons.IH) (use Cons.prems in auto)
  then show ?case using parse_tier_line [OF r] by (simp add: a option.map_comp comp_def)
qed (cases "parse_loop e (istringstream r) su"; simp)

lemma c_str_nospace: "list_all (\<lambda>c. \<not> c_isspace c) d \<Longrightarrow> list_all (\<lambda>c. \<not> c_isspace c) (c_str d)"
  by (auto simp: list_all_iff c_str_def dest: set_takeWhileD)

lemma parse_db:
  assumes "db_printable db"
  shows "parse_loop e (istringstream (DpropDb_serialize H db @ r)) su =
    map_option (\<lambda>x. dumpSummaryInfo su @ dist_title ([CHR 0x27] @ c_str (db_dprop db) @ [CHR 0x27]) @
        concat (map (tier_shown e) (rev (availCpus db))) @ x)
      (parse_loop e (istringstream r) (with_hosts e H (allHosts db) no_summary))"
proof -
  define d where "d = [CHR 0x27] @ c_str (db_dprop db) @ [CHR 0x27]"
  define body where "body = concat (map (serialize_host H) (allHosts db)) @
    concat (map serialize_tier (rev (availCpus db))) @ r"
  have "is_word d" using assms c_str_nospace [of "db_dprop db"] by (simp add: is_word_def d_def db_printable_def c_isspace_def)
  then have w: "get_word (istringstream (CHR '' '' # d @ NL @ body)) = (d, istringstream (NL @ body))"
    by (rule get_word_here) (simp_all add: NL_def c_isspace_def)
  have "DpropDb_serialize H db @ r = ''D: '' @ d @ NL @ body" by (simp add: DpropDb_serialize_def d_def body_def)
  then have c: "get_char (istringstream (DpropDb_serialize H db @ r)) =
      (Some CHR ''D'', istringstream (CHR '':'' # CHR '' '' # d @ NL @ body))"
    by (simp add: get_char_here c_isspace_def)
  have "parse_loop e (istringstream body) no_summary =
      map_option (\<lambda>x. concat (map (tier_shown e) (rev (availCpus db))) @ x)
        (parse_loop e (istringstream r) (with_hosts e H (allHosts db) no_summary))"
    using assms unfolding body_def parse_host_lines
    by (intro parse_tier_lines) (auto simp: db_printable_def list_all_iff)
  then show ?thesis unfolding d_def [symmetric]
    by (subst parse_loop.simps) (simp add: c w parse_newline option.map_comp comp_def)
qed

lemma dist_title_quoted:
  "dist_title ([CHR 0x27] @ d @ [CHR 0x27]) =
    (if d = '''' then '''' else ''*** '' @ [CHR 0x27] @ d @ [CHR 0x27] @ '' hosts:'' @ NL)"
  by (cases d) (simp_all add: dist_title_def)

lemma parse_dbs:
  assumes "\<And>d db. (d, db) \<in> set dbs \<Longrightarrow> db_printable db"
  shows "parse_loop e (istringstream (concat (map (\<lambda>(d, db). DpropDb_serialize H db) dbs))) su =
    Some (dumpSummaryInfo su @ concat (map (\<lambda>(d, db). db_shown e H db) dbs))"
  using assms
proof (induction dbs arbitrary: su)
  case Nil
  have "get_char (istringstream []) = (None, at_end (istringstream []))" by (simp add: get_char_skip skip_ws_def)
  then show ?case by (subst parse_loop.simps) (simp add: at_end_def)
next
  case (Cons x dbs)
  obtain d db where x: "x = (d, db)" by (cases x)
  with Cons.prems [of d db] have db: "db_printable db" by simp
  have "parse_loop e (istringstream (concat (map (\<lambda>(d, db). DpropDb_serialize H db) dbs))) su' =
      Some (dumpSummaryInfo su' @ concat (map (\<lambda>(d, db). db_shown e H db) dbs))" for su'
    by (rule Cons.IH) (use Cons.prems in auto)
  then show ?case by (simp add: x parse_db [OF db] dist_title_quoted [simplified] db_shown_def Let_def)
qed

text \<open>The server sends the whole text: there is no NUL in it.\<close>

lemma serialize_no_NUL: "CHR 0x00 \<notin> set (DmucsDb_serialize w)"
proof -
  have d: "CHR 0x00 \<notin> set (c_str s)" for s by (auto simp: c_str_def dest: set_takeWhileD)
  have n: "CHR 0x00 \<notin> set (inet_ntoa x)" "CHR 0x00 \<notin> set (string_of_int k)" for x k
    using inet_ntoa_chars [of "CHR 0x00" x] string_of_int_chars [of "CHR 0x00" k] by (auto simp: c_isdigit_def)
  have h: "CHR 0x00 \<notin> set (serialize_host H p)" for H p by (simp add: serialize_host_def NL_def n)
  have t: "CHR 0x00 \<notin> set (serialize_tier x)" for x by (auto simp: serialize_tier_def NL_def n split: prod.split)
  show ?thesis by (auto simp: DmucsDb_serialize_def DpropDb_serialize_def NL_def d h t)
qed

lemma c_str_serialize: "c_str (DmucsDb_serialize w) = DmucsDb_serialize w"
  using serialize_no_NUL [of w] by (simp add: c_str_def takeWhile_eq_all_conv) metis

lemma parseResults_serialize:
  assumes "\<And>d db. (d, db) \<in> set (dbDb w) \<Longrightarrow> db_printable db"
  shows "parseResults e (DmucsDb_serialize w) =
    Some (concat (map (\<lambda>(d, db). db_shown e (hosts w) db) (dbDb w)) @ NL)"
  using parse_dbs [OF assms, where e = e and H = "hosts w" and su = no_summary]
  by (simp add: parseResults_def DmucsDb_serialize_def dumpSummaryInfo_def no_summary_def summary_line_def)

lemma cstr_serialize: "cstr (DmucsDb_serialize w) = DmucsDb_serialize w"
  using c_str_serialize [of w] by (simp add: c_str_def cstr_def NUL_def)

text \<open>One round of the monitor that is connected and gets a text.\<close>

lemma monitor_round_text:
  assumes "Sopen nw (Some (c_str (serverName opts))) (clientPortStr opts) st = Some (Some sk, st1)"
    and "sk_conn sk = fed c (cstring_bytes txt) z" and "sk_kind sk = PM_CLIENT"
    and "fits_buf RESULT_MAX_SIZE txt" and "parseResults e (cstr txt) = Some shown"
  shows "\<exists>buf. monitor_round e nw opts resultStr st =
    Some (MonShown shown, buf, hang_up (fed (put_string ''monitor'' c) '''' z) st1)"
proof -
  obtain buf where "read_string (resultStr[0 := NUL]) RESULT_MAX_SIZE (fed (put_string ''monitor'' c) (cstring_bytes txt @ '''') z) =
      Some (True, buf, fed (put_string ''monitor'' c) '''' z)" "cstr buf = cstr txt"
    using read_string_fed [OF assms(4)] by blast
  then show ?thesis using assms by (auto simp: monitor_round_def Sclose_def)
qed

end
