(* ===== verification/Ssl_Format.thy ===== *)
theory Ssl_Format
  imports Ssl_Text Ssl_Wire
begin

text \<open>
  Formatted output and input over sockets, \<open>Svprintf.c\<close>, \<open>Sprintf.c\<close> and \<open>Sscanf.c\<close>, and the
  printable forms of \<open>sprt.c\<close>, \<open>cprt.c\<close> and \<open>Sprtskt.c\<close>, the peer of a socket (\<open>Speeraddr.c\<close>, \<open>Speername.c\<close>)
  and the messages of \<open>error.c\<close> and \<open>outofmem.c\<close>.  Of \<open>printf\<close> the directives \<open>%s\<close> and
  \<open>%d\<close> are modelled, of \<open>scanf\<close> those of \<open>sscanf\<close> in \<open>C_Text\<close>; another directive, an argument of
  the wrong type, or text that overruns the buffer is \<open>None\<close>.
\<close>

subsection \<open>Output\<close>

datatype arg = AStr string | AInt int

fun vsprintf :: "string \<Rightarrow> arg list \<Rightarrow> string option" where
  "vsprintf [] as = Some ''''"
| "vsprintf [c] as = (if c = CHR ''%'' then None else Some [c])"
| "vsprintf (c # d # cs) as =
     (if c = CHR ''%'' then
        (if d = CHR ''s'' then (case as of AStr s # r \<Rightarrow> map_option ((@) (cstr s)) (vsprintf cs r) | _ \<Rightarrow> None)
         else if d = CHR ''d'' then (case as of AInt i # r \<Rightarrow> map_option ((@) (string_of_int i)) (vsprintf cs r) | _ \<Rightarrow> None)
         else if d = CHR ''%'' then map_option ((#) d) (vsprintf cs as)
         else None)
      else map_option ((#) c) (vsprintf (d # cs) as))"

definition Sprintf :: "conn option \<Rightarrow> string \<Rightarrow> arg list \<Rightarrow> (int \<times> conn option) option" where
  "Sprintf skt fmt as = (case skt of None \<Rightarrow> Some (0, None)
     | Some c \<Rightarrow> do {
         buf \<leftarrow> vsprintf fmt as;
         if length buf < PM_BIGBUF then Some (int (length buf), Some (put_bytes (cstring_bytes buf) c)) else None })"

definition Svprintf :: "conn option \<Rightarrow> string \<Rightarrow> arg list \<Rightarrow> (int \<times> conn option) option" where
  \<comment> \<open>the same with an argument list, where the system's \<open>va_list\<close> allows it to be compiled\<close>
  "Svprintf skt fmt as = Sprintf skt fmt as"

subsection \<open>Input\<close>

fun input_failure :: "directive list \<Rightarrow> string \<Rightarrow> bool" where
  \<comment> \<open>the text ends before the first conversion: \<open>sscanf\<close> gives \<open>EOF\<close>\<close>
  "input_failure [] s = False"
| "input_failure (DBlank # ds) s = input_failure ds (skip_ws s)"
| "input_failure (DLit c # ds) s = (case s of [] \<Rightarrow> True | x # xs \<Rightarrow> x = c \<and> input_failure ds xs)"
| "input_failure (DStr # ds) s = (skip_ws s = [])"
| "input_failure (DInt # ds) s = (skip_ws s = [])"
| "input_failure (DFloat # ds) s = (skip_ws s = [])"
| "input_failure (DDouble # ds) s = (skip_ws s = [])"
| "input_failure (DChar # ds) s = (s = [])"

definition sscanf_true :: "string \<Rightarrow> string \<Rightarrow> bool" where
  \<comment> \<open>the value of \<open>sscanf(buf,fmt,arg)\<close> as a condition: \<open>EOF\<close> is not zero\<close>
  "sscanf_true buf fmt = (sscanf buf fmt \<noteq> [] \<or> input_failure (parse_format fmt) buf)"

partial_function (option) peek_loop :: "string \<Rightarrow> ssocket \<Rightarrow> (int \<times> string \<times> ssocket) option" where
  \<comment> \<open>peeks until \<open>b\<close> is not the end of what is there: \<open>b - buf\<close> and the buffer, or -1; while it
     polls, the next piece arrives, and without one it polls for ever\<close>
  "peek_loop snglfmt s = Option.bind (Speek (Some s) (PM_BIGBUF - 1)) (\<lambda>(buflen, buf, so).
     if buflen < 0 then Some (- 1, [], the so)
     else if cstr buf = buf \<and> stpnxt_loop buf snglfmt = [] then
       (case pull (coming (the so)) of (q, cs) \<Rightarrow>
          if q = [] then None
          else peek_loop snglfmt ((the so)\<lparr>queue := queue (the so) @ q, coming := cs\<rparr>))
     else Some (int (length (cstr buf) - length (stpnxt_loop (cstr buf) snglfmt)), buf, the so))"

definition scan_one :: "string \<Rightarrow> ssocket \<Rightarrow> (int \<times> (bool \<times> conv list) option \<times> ssocket) option" where
  \<comment> \<open>one argument: \<open>buflen\<close>, whether it is counted and what is stored (\<open>None\<close> after an error)\<close>
  "scan_one snglfmt s = do {
     (_, so) \<leftarrow> Swait (Some s);
     (n, buf, s1) \<leftarrow> peek_loop snglfmt (the so);
     if n < 0 then Some (n, None, s1)
     else do {
       let k = (if buf ! nat n = NUL then nat n + 1 else nat n);
       (m, bs, so2) \<leftarrow> Sreadbytes (Some s1) k;
       Some (m, Some (sscanf_true (cstr bs) snglfmt, sscanf (cstr bs) snglfmt), the so2) } }"

fun scan_args :: "nat \<Rightarrow> string option \<Rightarrow> string \<Rightarrow> nat \<Rightarrow> conv list \<Rightarrow> ssocket \<Rightarrow>
    (nat \<times> conv list \<times> string \<times> ssocket) option" where
  \<comment> \<open>with the number of pointers found before a null one, the static variable of \<open>strnxtfmt\<close>, the
     count and what has been stored\<close>
  "scan_args 0 fmt f cnt vs s = Some (cnt, vs, f, s)"
| "scan_args (Suc n) fmt f cnt vs s = do {
     (snglfmt, f1) \<leftarrow> strnxtfmt fmt f;
     (case snglfmt of
        None \<Rightarrow> Some (cnt, vs, f1, s)
      | Some x \<Rightarrow> do {
          (buflen, r, s1) \<leftarrow> scan_one x s;
          (case r of
             None \<Rightarrow> Some (cnt, vs, f1, s1)
           | Some (ok, v) \<Rightarrow>
               if \<not> ok then Some (cnt, vs, f1, s1)
               else if 0 < buflen then scan_args n None f1 (cnt + 1) (vs @ v) s1
               else Some (cnt + 1, vs @ v, f1, s1)) }) }"

definition Sscanf :: "ssocket option \<Rightarrow> string \<Rightarrow> nat \<Rightarrow> string \<Rightarrow> (int \<times> conv list \<times> string \<times> ssocket option) option" where
  "Sscanf skt fmt nargs f = (case skt of None \<Rightarrow> Some (- 1, [], f, None)
     | Some s \<Rightarrow> map_option (\<lambda>(cnt, vs, f', s'). (int cnt, vs, f', Some s')) (scan_args nargs (Some fmt) f 0 [] s))"

subsection \<open>Printable text\<close>

definition char_int :: "char \<Rightarrow> int" where
  \<comment> \<open>\<open>(int) c\<close>, where \<open>char\<close> is signed\<close>
  "char_int c = (if of_char c < (128 :: int) then of_char c else of_char c - 256)"

definition char_of_int :: "int \<Rightarrow> char" where
  "char_of_int i = char_of (i mod 256)"

definition SPRT_SIZE :: nat where
  "SPRT_SIZE = 261"

definition sprt_char :: "char \<Rightarrow> string" where
  \<comment> \<open>what is written for a character, up to a NUL\<close>
  "sprt_char c = (let ic = char_int c
     in if ic < 31 then cstr (''^'' @ [char_of_int (ic + 64)]) else [c])"

fun sprt_loop :: "string \<Rightarrow> string \<Rightarrow> string" where
  "sprt_loop b [] = b"
| "sprt_loop b (c # s) = (if length b < SPRT_SIZE - 5 then sprt_loop (b @ sprt_char c) s else b)"

definition sprt :: "string option \<Rightarrow> string" where
  "sprt s = (case s of None \<Rightarrow> '''' | Some t \<Rightarrow> sprt_loop '''' (cstr t))"

definition cprt :: "char \<Rightarrow> string" where
  "cprt c = (let ic = char_int c
     in if ic < 32 then cstr (''^'' @ [char_of_int (ic + 64)])
        else if ic = 127 then ''^<DEL>'' else [c])"

definition skt_type_name :: "skt_type \<Rightarrow> string" where
  "skt_type_name t = (case t of PM_SERVER \<Rightarrow> ''server'' | PM_CLIENT \<Rightarrow> ''client'' | PM_ACCEPT \<Rightarrow> ''accept'')"

definition Sprtskt :: "(int \<times> 16 word \<times> skt_type \<times> string option \<times> string option) option \<Rightarrow> string option" where
  \<comment> \<open>the descriptor, port, type and names of a socket; \<open>None\<close>: the text overruns its buffer\<close>
  "Sprtskt skt = (case skt of None \<Rightarrow> Some ''null socket''
     | Some (fd, port, t, nm, host) \<Rightarrow> do {
         b \<leftarrow> vsprintf ''#%d:p%d:%s:%s@%s'' [AInt fd, AInt (uint port), AStr (skt_type_name t),
           AStr (case nm of None \<Rightarrow> ''null-sktname'' | Some n \<Rightarrow> n), AStr (case host of None \<Rightarrow> ''null-host'' | Some n \<Rightarrow> n)];
         if length b < 128 then Some b else None })"

subsection \<open>The peer\<close>

definition Speeraddr :: "32 word \<Rightarrow> conn option \<Rightarrow> 64 word" where
  \<comment> \<open>the four bytes are the low half of the \<open>unsigned long\<close>; the high half is what the memory held\<close>
  "Speeraddr junk skt = (case skt of None \<Rightarrow> 0
     | Some c \<Rightarrow> (case peeraddr c of None \<Rightarrow> 0
         | Some sa \<Rightarrow> of_int (of_char (sa ! 2) + of_char (sa ! 3) * 256 + of_char (sa ! 4) * 65536 +
             of_char (sa ! 5) * 16777216 + uint junk * 4294967296)))"

definition Speername :: "(string \<Rightarrow> string option option) \<Rightarrow> conn option \<Rightarrow> string option" where
  \<comment> \<open>with \<open>gethostbyaddr\<close> on the four bytes: no host, or its name if it has one\<close>
  "Speername gethost skt = (case skt of None \<Rightarrow> Some ''null socket''
     | Some c \<Rightarrow> (case peeraddr c of None \<Rightarrow> Some ''unknown''
         | Some sa \<Rightarrow> (case gethost (drop 2 sa) of
               Some (Some nm) \<Rightarrow> if length nm < 65 then Some nm else None
             | None \<Rightarrow> Some ''unable to get host''
             | Some None \<Rightarrow> Some ''unknown hostname'')))"

subsection \<open>Messages\<close>

definition error_message :: "int \<Rightarrow> string \<Rightarrow> string \<times> bool" where
  \<comment> \<open>\<open>error\<close>: what is printed, without colours, and whether the program ends\<close>
  "error_message severity txt = (let sv = (if severity < 0 then 0 else if 4 \<le> severity then 0 else severity);
       kind = [''fatal error'', ''error'', ''warning'', ''note''] ! nat sv
     in (''***'' @ kind @ ''*** '' @ txt, sv < 2))"

definition outofmem_message :: "bool \<Rightarrow> string \<Rightarrow> string \<times> bool" where
  \<comment> \<open>\<open>outofmem\<close>, for whether the pointer is null\<close>
  "outofmem_message null txt = (if null then (''***out of memory*** '' @ txt, True) else ('''', False))"

end
