(* ===== verification/Ssl_Debug.thy ===== *)
theory Ssl_Debug
  imports Ssl_Tools Ssl_Format Spm
begin

text \<open>
  \<open>EXE/sktdbg.c\<close>, the interactive test program of the library: its command line, its commands and
  the two sockets they work on.  What a command prints is a report value, without its colours.  Of the
  command \<open>scanf\<close> the conversion \<open>%lf\<close> to a \<open>double\<close> is left out: it is \<open>None\<close>.
\<close>

record dbg =
  d_skt :: "socket option"
  d_server :: "socket option"
  d_st :: netst
  d_peek :: string                    \<comment> \<open>the static buffer of \<open>Tpeek\<close>\<close>
  d_mask :: smask
  d_pflag :: int                      \<comment> \<open>whether the prompt shows what \<open>Stest\<close> gives\<close>

record dbg_env =
  de_waiting :: nat                   \<comment> \<open>connections that wait to be accepted\<close>
  de_accept :: "conn option"          \<comment> \<open>what \<open>accept\<close> gives\<close>
  de_stack :: string                  \<comment> \<open>what an automatic buffer holds\<close>
  de_file :: "string \<Rightarrow> string option" \<comment> \<open>the text of a file\<close>
  de_fd :: int                        \<comment> \<open>the descriptor of \<open>skt\<close>\<close>
  de_select :: selector

datatype scan_report =
    ScChar char | ScInt "int option" | ScDouble "cfloat option" | ScStr string   \<comment> \<open>a number that has not been stored is junk\<close>
  | ScUnsupported string

datatype dbg_report =
    DbgTimedOut | DbgCannotAccept | DbgAccepted bool | DbgAcceptClosed
  | DbgNumber int | DbgText string int | DbgBytes "string list" int | DbgSent "string list"
  | DbgNoFile string | DbgReturned | DbgFirewall bool | DbgTable "(nat \<times> string) list"
  | DbgScanned "scan_report list" bool \<comment> \<open>and whether it timed out\<close>
  | DbgRemoved bool | DbgReady bool | DbgUnknown string | DbgMenu | DbgPrompt | DbgExit

definition DBG_BUFSIZE :: nat where "DBG_BUFSIZE = 128"
definition BIGBUFSIZE :: nat where "BIGBUFSIZE = 8192"

subsection \<open>Calls on a socket\<close>

definition skt_io :: "socket \<Rightarrow> ssocket" where
  "skt_io s = (io (sk_conn s))\<lparr>sk_type := sk_kind s\<rparr>"

definition put_io :: "ssocket \<Rightarrow> socket \<Rightarrow> socket" where
  "put_io so s = s\<lparr>sk_conn := (sk_conn s)\<lparr>io := so\<rparr>\<rparr>"

definition sock_call :: "(ssocket option \<Rightarrow> ('a \<times> ssocket option) option) \<Rightarrow> socket option \<Rightarrow> ('a \<times> socket option) option" where
  \<comment> \<open>a call of the library on a socket, which may be the null pointer\<close>
  "sock_call f skt = do {
     (r, so) \<leftarrow> f (map_option skt_io skt);
     Some (r, case (skt, so) of (Some s, Some x) \<Rightarrow> Some (put_io x s) | _ \<Rightarrow> skt) }"

definition pair_result :: "('a \<times> 'b \<times> 'c) option \<Rightarrow> (('a \<times> 'b) \<times> 'c) option" where
  "pair_result = map_option (\<lambda>(a, b, c). ((a, b), c))"

definition send_line :: "string \<Rightarrow> socket option \<Rightarrow> socket option" where
  \<comment> \<open>\<open>Sputs\<close>\<close>
  "send_line buf skt = map_option (\<lambda>s. s\<lparr>sk_conn := put_string buf (sk_conn s)\<rparr>) skt"

subsection \<open>Commands on the sockets\<close>

definition Taccept :: "net \<Rightarrow> dbg_env \<Rightarrow> dbg \<Rightarrow> (dbg_report \<times> dbg) option" where
  "Taccept nw e d = do {
     r0 \<leftarrow> (case d_server d of
         None \<Rightarrow> (case d_skt d of None \<Rightarrow> None
           | Some s \<Rightarrow> Some (if sk_kind s = PM_SERVER then Some (d\<lparr>d_server := Some s, d_skt := None\<rparr>) else None))
       | Some _ \<Rightarrow> (if d_skt d = None then Some (Some d)
           else map_option (\<lambda>st. Some (d\<lparr>d_skt := None, d_st := st\<rparr>)) (Sclose nw (d_skt d) (d_st d))));
     (case r0 of None \<Rightarrow> Some (DbgCannotAccept, d)
      | Some d1 \<Rightarrow> do {
          (n, sv) \<leftarrow> sock_call (\<lambda>s. Stimeoutwait (map_option (backlog_update (\<lambda>_. de_waiting e)) s) True) (d_server d1);
          let d2 = d1\<lparr>d_server := sv\<rparr>;
          (if n \<le> 0 then Some (DbgTimedOut, d2)
           else let new = Saccept sv (de_accept e)
             in Some (DbgAccepted (new \<noteq> None), d2\<lparr>d_skt := new\<rparr>)) }) }"

definition Tclose :: "net \<Rightarrow> dbg \<Rightarrow> (dbg_report \<times> dbg) option" where
  "Tclose nw d = (case d_skt d of None \<Rightarrow> None
     | Some s \<Rightarrow> do {
         st \<leftarrow> Sclose nw (d_skt d) (d_st d);
         (case sk_kind s of
            PM_ACCEPT \<Rightarrow> Some (DbgAcceptClosed, d\<lparr>d_skt := d_server d, d_server := None, d_st := st\<rparr>)
          | PM_CLIENT \<Rightarrow> Some (DbgExit, d\<lparr>d_st := st\<rparr>)
          | PM_SERVER \<Rightarrow> Some (DbgExit, d\<lparr>d_skt := None, d_server := None, d_st := st\<rparr>)) })"

definition Tpeek :: "dbg \<Rightarrow> (dbg_report \<times> dbg) option" where
  "Tpeek d = do {
     ((n, bs), sk) \<leftarrow> sock_call (\<lambda>s. pair_result (Speek s BIGBUFSIZE)) (d_skt d);
     let buf = overwrite bs ((d_peek d)[0 := NUL]);
     Some (DbgText (sprt (Some buf)) n, d\<lparr>d_skt := sk, d_peek := buf\<rparr>) }"

definition Ttest :: "dbg \<Rightarrow> (dbg_report \<times> dbg) option" where
  "Ttest d = do { (n, sk) \<leftarrow> sock_call Stest (d_skt d); Some (DbgNumber n, d\<lparr>d_skt := sk\<rparr>) }"

definition Twait :: "dbg \<Rightarrow> (dbg_report \<times> dbg) option" where
  "Twait d = do { (n, sk) \<leftarrow> sock_call Swait (d_skt d); Some (DbgNumber n, d\<lparr>d_skt := sk\<rparr>) }"

definition Tgets :: "dbg_env \<Rightarrow> dbg \<Rightarrow> (dbg_report \<times> dbg) option" where
  "Tgets e d = do {
     (n, sk) \<leftarrow> sock_call (\<lambda>s. Stimeoutwait s True) (d_skt d);
     (if n \<le> 0 then Some (DbgTimedOut, d\<lparr>d_skt := sk\<rparr>)
      else do {
        ((_, buf), sk1) \<leftarrow> sock_call (\<lambda>s. pair_result (Sgets (de_stack e) DBG_BUFSIZE s)) sk;
        Some (DbgText (sprt (Some buf)) 0, d\<lparr>d_skt := sk1\<rparr>) }) }"

definition Tread :: "dbg \<Rightarrow> (dbg_report \<times> dbg) option" where
  "Tread d = do {
     ((n, bs), sk) \<leftarrow> sock_call (\<lambda>s. pair_result (Sread s DBG_BUFSIZE)) (d_skt d);
     Some (DbgBytes (map cprt bs) n, d\<lparr>d_skt := sk\<rparr>) }"

definition Twrite :: "string \<Rightarrow> dbg \<Rightarrow> (dbg_report \<times> dbg) option" where
  \<comment> \<open>with the terminating NUL\<close>
  "Twrite buf d = Some (DbgText (sprt (Some buf)) (if d_skt d = None then - 1 else int (length (cstring_bytes buf))),
     d\<lparr>d_skt := send_line buf (d_skt d)\<rparr>)"

definition Tprintf :: "string \<Rightarrow> dbg \<Rightarrow> (dbg_report \<times> dbg) option" where
  \<comment> \<open>\<open>%d\<close> of 7 and \<open>%f\<close> of 8\<close>
  "Tprintf buf d = Some (DbgReturned, d\<lparr>d_skt := send_line (cstr buf @ '' 7 8.000000 itworked!'') (d_skt d)\<rparr>)"

fun escape_loop :: "string \<Rightarrow> char \<Rightarrow> char option" where
  \<comment> \<open>the text from \<open>b\<close> on and \<open>*lb\<close>, where \<open>lb\<close> stays at the start of \<open>locbuf\<close>; \<open>None\<close>: the loop
     steps over the end of the text\<close>
  "escape_loop [] lb = Some lb"
| "escape_loop [c] lb = (if c = CHR 0x5C then None else Some c)"
| "escape_loop (c # x # cs) lb =
     (if c = CHR 0x5C then
        (if x = CHR 0x5C then escape_loop cs c
         else escape_loop cs (if CHR ''a'' \<le> x \<and> x \<le> CHR ''z'' then char_of_int (char_int x - char_int (CHR ''a'') + 1) else c))
      else escape_loop (x # cs) c)"

definition Tputs :: "dbg_env \<Rightarrow> string \<Rightarrow> dbg \<Rightarrow> (dbg_report \<times> dbg) option" where
  "Tputs e buf d =
     (if CHR 0x5C \<in> set buf then do {
        lb \<leftarrow> escape_loop buf (hd (de_stack e));
        let locbuf = (de_stack e)[0 := lb, 0 := NUL];
        Some (DbgSent [sprt (Some locbuf)], d\<lparr>d_skt := send_line locbuf (d_skt d)\<rparr>) }
      else Some (DbgSent [sprt (Some buf)], d\<lparr>d_skt := send_line buf (d_skt d)\<rparr>))"

fun fput_lines :: "string list \<Rightarrow> socket option \<Rightarrow> string list \<times> socket option" where
  "fput_lines [] sk = ([], sk)"
| "fput_lines (l # ls) sk =
     (let t = srmtrblk (cstr l); (ts, sk1) = fput_lines ls (send_line t sk) in (sprt (Some t) # ts, sk1))"

function file_lines :: "string \<Rightarrow> string list" where
  \<comment> \<open>what \<open>fgets\<close> reads, piece by piece\<close>
  "file_lines s = (case fgets DBG_BUFSIZE s of None \<Rightarrow> [] | Some (l, rest) \<Rightarrow> l # file_lines rest)"
  by pat_completeness auto
termination
  by (relation "measure length") (auto simp: fgets_def DBG_BUFSIZE_def Let_def min_def split: if_splits)

declare file_lines.simps [simp del]

definition Tfput :: "dbg_env \<Rightarrow> string \<Rightarrow> dbg \<Rightarrow> (dbg_report \<times> dbg) option" where
  "Tfput e buf d =
     (let b = stpblk (srmtrblk buf)
      in if b \<noteq> [] \<and> d_skt d \<noteq> None then
           (case de_file e b of None \<Rightarrow> Some (DbgNoFile (sprt (Some b)), d)
            | Some txt \<Rightarrow> (let (ts, sk) = fput_lines (file_lines txt) (d_skt d) in Some (DbgSent ts, d\<lparr>d_skt := sk\<rparr>)))
         else Some (DbgReturned, d))"

definition Tisset :: "dbg_env \<Rightarrow> dbg \<Rightarrow> (dbg_report \<times> dbg) option" where
  "Tisset e d = do {
     m \<leftarrow> Smaskset (map_option (\<lambda>_. de_fd e) (d_skt d)) (Smasktime 0 1 (d_mask d));
     let m1 = snd (Smaskwait (de_select e) m);
     r \<leftarrow> (if d_skt d = None then None else Smaskisset (de_fd e) m1);
     Some (DbgReady r, d\<lparr>d_mask := m1\<rparr>) }"

definition Tquit :: "net \<Rightarrow> dbg \<Rightarrow> (dbg_report \<times> dbg) option" where
  "Tquit nw d = do {
     st \<leftarrow> Sclose nw (d_skt d) (d_st d);
     st1 \<leftarrow> Sclose nw (d_server d) st;
     Some (DbgExit, d\<lparr>d_st := st1\<rparr>) }"

subsection \<open>Commands to a PortMaster\<close>

function fwinit_ask :: "nat \<Rightarrow> event \<Rightarrow> conn \<Rightarrow> (event option \<times> conn) option" where
  \<comment> \<open>the loop of \<open>Tfwinit\<close>: the last answer, or nothing if the PortMaster is silent\<close>
  "fwinit_ask trycnt mesg c =
     (if PM_MAXTRY \<le> trycnt then Some (Some mesg, c)
      else do {
        (ok, c1) \<leftarrow> ready (put_event PM_FWINIT c);
        if \<not> ok then Some (None, c1) else do {
          (mesg, c2) \<leftarrow> sread_event (put16 PM_FWINIT) c1;
          if mesg \<noteq> PM_RESEND then Some (Some mesg, c2) else fwinit_ask (trycnt + 1) mesg c2 } })"
  by pat_completeness auto
termination
  by (relation "measure (\<lambda>(n, m, c). PM_MAXTRY - n)") auto

declare fwinit_ask.simps [simp del]

definition Tfwinit :: "net \<Rightarrow> string \<Rightarrow> dbg \<Rightarrow> (dbg_report \<times> dbg) option" where
  "Tfwinit nw buf d =
     (let (pmskt, st) = Sopen_clientport nw buf (Some ''PMClient'') PORTMASTER (d_st d)
      in case pmskt of None \<Rightarrow> Some (DbgReturned, d\<lparr>d_st := st\<rparr>)
         | Some pm \<Rightarrow> do {
             (r, c) \<leftarrow> fwinit_ask 0 0 (sk_conn pm);
             Some (case r of None \<Rightarrow> DbgReturned | Some mesg \<Rightarrow> DbgFirewall (mesg = PM_OK), d\<lparr>d_st := hang_up c st\<rparr>) })"

function quit_ask :: "nat \<Rightarrow> conn \<Rightarrow> (bool \<times> conn) option" where
  \<comment> \<open>the loop of \<open>Tshut\<close>; after \<open>PM_MAXTRY\<close> tries it goes on all the same\<close>
  "quit_ask trycnt c =
     (if PM_MAXTRY \<le> trycnt then Some (True, c)
      else do {
        (ok, c1) \<leftarrow> ready (put_event PM_QUIT c);
        if \<not> ok then Some (False, c1) else do {
          (mesg, c2) \<leftarrow> sread_event (put16 PM_QUIT) c1;
          if mesg = PM_OK then Some (True, c2) else quit_ask (trycnt + 1) c2 } })"
  by pat_completeness auto
termination
  by (relation "measure (\<lambda>(n, c). PM_MAXTRY - n)") auto

declare quit_ask.simps [simp del]

definition quit_protocol :: "conn \<Rightarrow> (bool \<times> conn) option" where
  "quit_protocol c = do {
     (ok, c1) \<leftarrow> quit_ask 0 c;
     Some (ok, if ok then put_string ''PortMaster'' c1 else c1) }"

definition Tshut :: "net \<Rightarrow> string \<Rightarrow> dbg \<Rightarrow> (dbg_report \<times> dbg) option" where
  "Tshut nw buf d = do {
     st \<leftarrow> Sclose nw (d_skt d) (d_st d);
     st1 \<leftarrow> Sclose nw (d_server d) st;
     let d1 = d\<lparr>d_skt := None, d_server := None\<rparr>;
     (case Sopen_clientport nw buf (Some ''PMClient'') PORTMASTER st1 of
        (None, st2) \<Rightarrow> Some (DbgReturned, d1\<lparr>d_st := st2\<rparr>)
      | (Some pm, st2) \<Rightarrow> do {
          (ok, c) \<leftarrow> quit_protocol (sk_conn pm);
          Some (if ok then DbgExit else DbgReturned, d1\<lparr>d_st := hang_up c st2\<rparr>) }) }"

function dbg_table_ask :: "nat \<Rightarrow> conn \<Rightarrow> conn option" where
  \<comment> \<open>without waiting for the answer first\<close>
  "dbg_table_ask trycnt c =
     (if PM_MAXTRY \<le> trycnt then Some c
      else do {
        (mesg, c1) \<leftarrow> sread_event (put16 PM_TABLE) (put_event PM_TABLE c);
        if mesg = PM_OK then Some c1 else dbg_table_ask (trycnt + 1) c1 })"
  by pat_completeness auto
termination
  by (relation "measure (\<lambda>(n, c). PM_MAXTRY - n)") auto

declare dbg_table_ask.simps [simp del]

definition Ttable :: "net \<Rightarrow> dbg_env \<Rightarrow> string \<Rightarrow> dbg \<Rightarrow> (dbg_report \<times> dbg) option" where
  \<comment> \<open>an entry is read with the length of \<open>main\<close>'s buffer from behind the command in it: \<open>Sgets\<close>
     writes behind its end\<close>
  "Ttable nw e buf d =
     (let (pmskt, st) = Sopen_clientport nw buf (Some ''PMClient'') PORTMASTER (d_st d)
      in case pmskt of None \<Rightarrow> Some (DbgReturned, d\<lparr>d_st := st\<rparr>)
         | Some pm \<Rightarrow> do {
             c \<leftarrow> dbg_table_ask 0 (sk_conn pm);
             (cnt, c1) \<leftarrow> sread_event (de_stack e) c;
             if cnt \<noteq> 0 then None else Some (DbgTable [], d\<lparr>d_st := hang_up c1 st\<rparr>) })"

definition Trmsrvr :: "net \<Rightarrow> string \<Rightarrow> dbg \<Rightarrow> (dbg_report \<times> dbg) option" where
  "Trmsrvr nw buf d = do {
     (mesg, _, st) \<leftarrow> Srmsrvr nw buf (d_st d);
     Some (DbgRemoved (mesg = PM_OK), d\<lparr>d_st := st\<rparr>) }"

subsection \<open>scanf\<close>

definition scan_code :: "string \<Rightarrow> string" where
  \<comment> \<open>from \<open>b\<close>, a \<open>%\<close>, to where \<open>b\<close> stands once the modifier has been stepped over\<close>
  "scan_code b = (if take 1 (drop 1 b) = ''l'' \<or> take 1 (drop 1 b) = ''h'' then drop 1 b else b)"

type_synonym scan_vars = "string \<times> int option \<times> cfloat option"   \<comment> \<open>\<open>buf1\<close>, \<open>i\<close> and \<open>d\<close>\<close>

fun scan_conversion :: "string \<Rightarrow> scan_vars \<Rightarrow> socket option \<Rightarrow>
    (scan_report \<times> scan_vars \<times> socket option) option" where
  \<comment> \<open>the switch, for the rest of the format from \<open>b\<close>\<close>
  "scan_conversion b (buf1, i, d) skt =
     (let code = take 1 (drop 1 b);
          scan = (\<lambda>fmt. sock_call (\<lambda>s. map_option (\<lambda>(n, vs, f, so). (vs, so)) (Sscanf s fmt 1 '''')) skt)
      in if code = ''c'' then do {
           (vs, sk) \<leftarrow> scan ''%c'';
           let buf1 = (case vs of [CChr c] \<Rightarrow> buf1[0 := c] | _ \<Rightarrow> buf1);
           Some (ScChar (hd buf1), (buf1, i, d), sk) }
         else if code = ''d'' then do {
           (vs, sk) \<leftarrow> scan ''%d'';
           let i = (case vs of [CInt n] \<Rightarrow> Some n | _ \<Rightarrow> i);
           Some (ScInt i, (buf1, i, d), sk) }
         else if code = ''f'' then do {
           (vs, sk) \<leftarrow> scan ''%lf'';
           let d = (case vs of [CDbl x] \<Rightarrow> Some x | _ \<Rightarrow> d);
           Some (ScDouble d, (buf1, i, d), sk) }
         else if code = ''s'' then do {
           (vs, sk) \<leftarrow> scan ''%s'';
           buf1 \<leftarrow> (case vs of [CStr t] \<Rightarrow> if length t < DBG_BUFSIZE then Some (overwrite (t @ [NUL]) buf1) else None
                    | _ \<Rightarrow> Some buf1);
           Some (ScStr (sprt (Some buf1)), (buf1, i, d), sk) }
         else Some (ScUnsupported (sprt (Some b)), (buf1, i, d), skt))"

function scan_formats :: "string \<Rightarrow> scan_vars \<Rightarrow> socket option \<Rightarrow>
    (scan_report list \<times> bool \<times> socket option) option" where
  \<comment> \<open>the loop over the \<open>%\<close> of the line; what is printed, and whether it timed out\<close>
  "scan_formats s vars skt = (let b = dropWhile (\<lambda>c. c \<noteq> CHR ''%'') s in
     if b = [] then Some ([], False, skt)
     else do {
       (n, sk) \<leftarrow> sock_call (\<lambda>s. Stimeoutwait s True) skt;
       (if n \<le> 0 then Some ([], True, sk)
        else do {
          (r, vars1, sk1) \<leftarrow> scan_conversion (scan_code b) vars sk;
          (rs, late, sk2) \<leftarrow> scan_formats (drop 1 (scan_code b)) vars1 sk1;
          Some (r # rs, late, sk2) }) })"
  by pat_completeness auto
termination
proof (relation "measure (\<lambda>(s, vars, skt). length s)")
  fix s b :: string
  assume b: "b = dropWhile (\<lambda>c. c \<noteq> CHR ''%'') s" "b \<noteq> []"
  have "length b \<le> length s" unfolding b(1) by (rule length_dropWhile_le)
  moreover have "length (drop 1 (scan_code b)) < length b" using b(2) by (simp add: scan_code_def)
  ultimately have "length (drop 1 (scan_code b)) < length s" by (rule less_le_trans [rotated])
  then show "((drop 1 (scan_code b), x, y), s, vars, skt) \<in> measure (\<lambda>(s, vars, skt). length s)"
    for x y vars skt by simp
qed simp

declare scan_formats.simps [simp del]

definition Tscanf :: "dbg_env \<Rightarrow> string \<Rightarrow> dbg \<Rightarrow> (dbg_report \<times> dbg) option" where
  "Tscanf e buf d = map_option (\<lambda>(rs, late, sk). (DbgScanned rs late, d\<lparr>d_skt := sk\<rparr>))
     (scan_formats buf (de_stack e, None, None) (d_skt d))"

subsection \<open>The command line and the loop\<close>

definition dbg_command :: "net \<Rightarrow> dbg_env \<Rightarrow> string \<Rightarrow> string \<Rightarrow> dbg \<Rightarrow> (dbg_report \<times> dbg) option" where
  \<comment> \<open>the table \<open>menu\<close>\<close>
  "dbg_command nw e cmd b d =
     (if cmd = ''accept'' then Taccept nw e d
      else if cmd = ''close'' then Tclose nw d
      else if cmd = ''fput'' then Tfput e b d
      else if cmd = ''fwinit'' then Tfwinit nw b d
      else if cmd = ''get'' then Tgets e d
      else if cmd = ''isset'' then Tisset e d
      else if cmd = ''menu'' \<or> cmd = ''?'' then Some (DbgMenu, d)
      else if cmd = ''peek'' then Tpeek d
      else if cmd = ''printf'' then Tprintf b d
      else if cmd = ''put'' then Tputs e b d
      else if cmd = ''q'' \<or> cmd = ''quit'' then Tquit nw d
      else if cmd = ''read'' then Tread d
      else if cmd = ''rmsrvr'' then Trmsrvr nw b d
      else if cmd = ''scanf'' then Tscanf e b d
      else if cmd = ''shutdown'' then Tshut nw b d
      else if cmd = ''table'' then Ttable nw e b d
      else if cmd = ''test'' then Ttest d
      else if cmd = ''wait'' then Twait d
      else if cmd = ''write'' then Twrite b d
      else Some (DbgUnknown cmd, d))"

definition dbg_line :: "net \<Rightarrow> dbg_env \<Rightarrow> string \<Rightarrow> dbg \<Rightarrow> (dbg_report \<times> dbg) option" where
  \<comment> \<open>one round of the loop, for the line that \<open>fgets\<close> reads\<close>
  "dbg_line nw e line d = do {
     d1 \<leftarrow> (if d_pflag d = 1 then map_option snd (Ttest d) else Some d);
     let buf = srmtrblk line;
     let cmd = take_word (skip_ws buf);
     let b = stpnxt_loop buf ''%s%b'';
     (if stpblk buf = [] then Some (DbgPrompt, d1)
      else if take 1 b = ''-'' then
        (if take 1 (drop 1 b) = ''p'' then Some (DbgPrompt, d1\<lparr>d_pflag := (if 1 < d_pflag d + 1 then 0 else d_pflag d + 1)\<rparr>)
         else Some (DbgUnknown cmd, d1))
      else dbg_command nw e cmd b d1) }"

definition dbg_open :: "net \<Rightarrow> string \<Rightarrow> string \<Rightarrow> netst \<Rightarrow> (socket option \<times> netst) option" where
  \<comment> \<open>the socket of the command line; nothing: the program ends\<close>
  "dbg_open nw nm mode st = do {
     (skt, st1) \<leftarrow> Sopenv nw nm mode (Some ''SKTDBG'') st;
     if skt \<noteq> None then Some (skt, st1)
     else if mode = ''s'' then do {
       (_, nm1, st2) \<leftarrow> Srmsrvr nw nm st1;
       Sopenv nw nm1 mode (Some ''SKTDBG'') st2 }
     else Some (None, st1) }"

end
