(* ===== verification/Ssl_Debug_Lemmas.thy ===== *)
theory Ssl_Debug_Lemmas
  imports Ssl_Debug Ssl_Open_Lemmas
begin

text \<open>
  The test program and the PortMaster: how \<open>shutdown\<close> ends it, and what becomes of a line with a
  backslash.
\<close>

lemma pm_quit_portmaster:
  assumes "e \<noteq> SelectError"
  shows "\<exists>s1. pm_quit s (fed c (cstring_bytes ''PortMaster'' @ q) e) = Some (Exited, s1, fed (put_event PM_OK c) q e) \<and>
    sclosed s1 = sclosed s \<and> phd s1 = phd s"
proof -
  have f: "fits_buf BUFSIZE ''PortMaster''" "cstr ''PortMaster'' = ''PortMaster''"
    by (simp_all add: fits_buf_def BUFSIZE_def cstr_def NUL_def)
  obtain b where "read_string (sktname s) BUFSIZE (fed (put_event PM_OK c) (cstring_bytes ''PortMaster'' @ q) e) =
      Some (True, b, fed (put_event PM_OK c) q e)" "cstr b = ''PortMaster''"
    using read_string_fed [OF f(1)] f(2) by metis
  with assms show ?thesis by (simp add: pm_quit_def)
qed

lemma spm_accept_quit:
  assumes "e \<noteq> SelectError" and "\<not> firewall s c"
  shows "\<exists>s'. spm_accept env (fed c (put16 PM_QUIT @ cstring_bytes ''PortMaster'') e) s = Some (False, s') \<and>
    sclosed s' = sclosed s @ [fed (put_event PM_OK c) [] e] \<and> phd s' = phd s"
proof -
  obtain s1 where "pm_quit s (fed c (cstring_bytes ''PortMaster'') e) = Some (Exited, s1, fed (put_event PM_OK c) [] e)"
    "sclosed s1 = sclosed s" "phd s1 = phd s"
    using pm_quit_portmaster [OF assms(1), of s c "[]"] by auto
  with assms show ?thesis by (simp add: spm_accept_def event_loop.simps pm_events)
qed

lemma quit_protocol_answered:
  assumes "e \<noteq> SelectError"
  shows "quit_protocol (fed c (put16 PM_OK) e) =
    Some (True, fed (put_bytes (put16 PM_QUIT @ cstring_bytes ''PortMaster'') c) [] e)"
proof -
  have "quit_ask 0 (fed c (put16 PM_OK) e) = Some (True, fed (put_event PM_QUIT c) [] e)"
    using assms sread_event_fed [of "put16 PM_QUIT" "put_event PM_QUIT c" PM_OK "[]" e]
    by (subst quit_ask.simps) (simp add: PM_MAXTRY_def)
  then show ?thesis by (simp add: quit_protocol_def put_event_def put_string_def put_bytes_def)
qed

text \<open>A socket that is no server is just closed.\<close>

lemma Sclose_plain: "sk_kind sk \<noteq> PM_SERVER \<Longrightarrow> Sclose nw (Some sk) st = Some (hang_up (sk_conn sk) st)"
  by (simp add: Sclose_def)

lemma Tshut_answered:
  assumes "d_skt d = Some sk" and "sk_kind sk \<noteq> PM_SERVER" and "d_server d = None" and "host \<noteq> ''''"
    and "n_socket nw" and "n_resolves nw host" and "e \<noteq> SelectError"
  shows "Tshut (answering nw (tries (d_st d)) host (fed c (put16 PM_OK) e)) host d =
    Some (DbgExit, d\<lparr>d_skt := None, d_server := None,
      d_st := talked (fed (put_bytes (put16 PM_QUIT @ cstring_bytes ''PortMaster'') c) [] e) (hang_up (sk_conn sk) (d_st d))\<rparr>)"
proof -
  let ?nw = "answering nw (tries (d_st d)) host (fed c (put16 PM_OK) e)"
  have "Sopen_clientport ?nw host (Some ''PMClient'') PORTMASTER (hang_up (sk_conn sk) (d_st d)) =
      (Some (makeSocket host (Some ''PMClient'') PM_CLIENT\<lparr>sk_port := PORTMASTER, sk_conn := fed c (put16 PM_OK) e\<rparr>),
       (hang_up (sk_conn sk) (d_st d))\<lparr>tries := tries (d_st d) + 1\<rparr>)"
    using assms(4,5,6) by (simp add: Sopen_clientport_def Let_def hang_up_def)
  then show ?thesis
    using assms by (simp add: Tshut_def Sclose_plain quit_protocol_answered Sclose_def [of _ None] hang_up_def talked_def)
qed

text \<open>
  The pointer into the buffer that the escapes are copied to is never moved on: of a line with a
  backslash nothing is sent but a NUL.
\<close>

lemma escaped_line_is_lost:
  assumes "CHR 0x5C \<in> set buf" and "de_stack e \<noteq> []" and "Tputs e buf d = Some (r, d')" and "d_skt d = Some s"
  shows "r = DbgSent [''''] \<and> d_skt d' = Some (s\<lparr>sk_conn := put_bytes [NUL] (sk_conn s)\<rparr>)"
proof -
  have "r = DbgSent [sprt (Some ((de_stack e)[0 := NUL]))]"
    "d' = d\<lparr>d_skt := send_line ((de_stack e)[0 := NUL]) (d_skt d)\<rparr>"
    using assms(1,3) by (auto simp: Tputs_def bind_eq_Some_conv Let_def)
  moreover have "cstr ((de_stack e)[0 := NUL]) = []" using assms(2) by (cases "de_stack e") (simp_all add: cstr_def)
  ultimately show ?thesis
    using assms(4) by (simp add: sprt_def send_line_def put_string_def cstring_bytes_def)
qed

lemma plain_line_is_sent:
  assumes "CHR 0x5C \<notin> set buf"
  shows "Tputs e buf d = Some (DbgSent [sprt (Some buf)], d\<lparr>d_skt := send_line buf (d_skt d)\<rparr>)"
  using assms by (simp add: Tputs_def)

lemma shutdown_stops_portmaster:
  assumes "\<not> firewall s c" and "out c = ''''" and "e \<noteq> SelectError" and "e' \<noteq> SelectError"
    and "d_skt d = Some sk" and "sk_kind sk \<noteq> PM_SERVER" and "d_server d = None" and "host \<noteq> ''''"
    and "n_socket nw" and "n_resolves nw host"
  shows "\<exists>s' c' c2 d'. spm_accept env (fed c (out c2) e) s = Some (False, s') \<and> sclosed s' = sclosed s @ [c'] \<and>
    Tshut (answering nw (tries (d_st d)) host (fed nullconn (out c') e')) host d = Some (DbgExit, d') \<and>
    d_skt d' = None \<and> d_st d' = talked c2 (hang_up (sk_conn sk) (d_st d))"
proof -
  obtain s' where s': "spm_accept env (fed c (put16 PM_QUIT @ cstring_bytes ''PortMaster'') e) s = Some (False, s')"
    "sclosed s' = sclosed s @ [fed (put_event PM_OK c) [] e]"
    using spm_accept_quit [OF assms(3,1)] by blast
  have o: "out (fed (put_event PM_OK c) [] e) = put16 PM_OK" using assms(2) by (simp add: put_event_def)
  let ?c2 = "fed (put_bytes (put16 PM_QUIT @ cstring_bytes ''PortMaster'') nullconn) [] e'"
  have "out ?c2 = put16 PM_QUIT @ cstring_bytes ''PortMaster''" by (simp add: nullconn_def)
  with s' o Tshut_answered [OF assms(5-10) assms(4), of nullconn] show ?thesis
    by (intro exI [of _ s'] exI [of _ "fed (put_event PM_OK c) [] e"] exI [of _ ?c2]) simp
qed

end
