(* ===== verification/Monitor_Examples.thy ===== *)
theory Monitor_Examples
  imports Dmucs_Examples Dmucs_Main Dmucs_Monitor_Lemmas Spm_Examples Ssl_Debug_Lemmas
begin

text \<open>A server with one host that is asked by the monitor, for the concrete instances of the theorems.\<close>

definition demo_asked :: server where
  "demo_asked = demo_start\<lparr>sw := demo_world, skt := (\<lambda>_. 4)\<rparr>"

definition demo_told :: server where
  "demo_told = the (handleReq demo_env 1 (Some ''monitor'') demo_asked)"

definition demo_text :: string where
  "demo_text = ''D: '' @ [CHR 0x27] @ ''x'' @ [CHR 0x27] @ NL @ ''H: 1.2.3.4 1'' @ NL @ ''C 3: 1.2.3.4/2 '' @ NL"

lemma demo_serialized: "DmucsDb_serialize demo_world = demo_text"
  by code_simp

lemma demo_shown:
  "concat (map (\<lambda>(d, db). db_shown demo_env (hosts demo_world) db) (dbDb demo_world)) @ NL =
    ''*** '' @ [CHR 0x27] @ ''x'' @ [CHR 0x27] @ '' hosts:'' @ NL @ ''Tier 3: host1/2 '' @ NL @ ''Avail: host1 '' @ NL @ NL"
  by code_simp

lemma demo_printable:
  assumes "(d, db) \<in> set (dbDb demo_world)"
  shows "db_printable db"
proof -
  have "map (\<lambda>(d, db). (db_dprop db, availCpus db)) (dbDb demo_world) = [(''x'', [(3, [demo_ip, demo_ip])])]"
    by code_simp
  moreover have "(db_dprop db, availCpus db) \<in> set (map (\<lambda>(d, db). (db_dprop db, availCpus db)) (dbDb demo_world))"
    using assms by force
  ultimately have "db_dprop db = ''x''" "availCpus db = [(3, [demo_ip, demo_ip])]" by simp_all
  then show ?thesis by (simp add: db_printable_def c_isspace_def)
qed

lemma demo_asked_simps [simp]: "sw demo_asked = demo_world"
  by (simp add: demo_asked_def)

lemma demo_asked_handled:
  "handleReq demo_env 1 (Some ''monitor'') demo_asked = Some demo_told" "snd (List.last (sent demo_told)) = demo_text"
proof -
  have "legal_fd 4" by (simp add: legal_fd_def FD_SETSIZE_def)
  then have "\<exists>s. handleReq demo_env 1 (Some ''monitor'') demo_asked = Some s \<and> snd (List.last (sent s)) = demo_text"
    using c_str_serialize [of demo_world]
    by (simp add: handleReq_def parseMsg_def strprefix_def MonitorReq_handle_def removeFd_def Smaskunset_def
        demo_asked_def Sputs_to_def demo_serialized)
  then show "handleReq demo_env 1 (Some ''monitor'') demo_asked = Some demo_told"
    "snd (List.last (sent demo_told)) = demo_text"
    by (auto simp: demo_told_def)
qed

text \<open>The test program with a client socket.\<close>

definition demo_dbg :: dbg where
  "demo_dbg = \<lparr>d_skt = Some (makeSocket ''here'' (Some ''a'') PM_CLIENT), d_server = None,
     d_st = \<lparr>tries = 0, finished = []\<rparr>, d_peek = replicate BIGBUFSIZE NUL, d_mask = smask_init, d_pflag = 1\<rparr>"

lemma shutdown_stops_portmaster_example:
  "\<exists>s' c' (c2 :: conn) d'. spm_accept demo_pm_env (fed nullconn (out c2) PeerClosed) demo_pm2 = Some (False, s') \<and>
    sclosed s' = [c'] \<and>
    Tshut (answering (demo_net '''') 0 ''here'' (fed nullconn (out c') PeerClosed)) ''here'' demo_dbg = Some (DbgExit, d') \<and>
    d_skt d' = None"
proof -
  have d: "d_skt demo_dbg = Some (makeSocket ''here'' (Some ''a'') PM_CLIENT)" "d_server demo_dbg = None"
    "tries (d_st demo_dbg) = 0" "sk_kind (makeSocket ''here'' (Some ''a'') PM_CLIENT) \<noteq> PM_SERVER"
    by (simp_all add: demo_dbg_def makeSocket_def)
  have s: "\<not> firewall demo_pm2 nullconn" "out nullconn = ''''" "sclosed demo_pm2 = []"
    "n_socket (demo_net '''')" "n_resolves (demo_net '''') ''here''" by simp_all
  have p: "PeerClosed \<noteq> SelectError" "''here'' \<noteq> []" by simp_all
  from shutdown_stops_portmaster [OF s(1,2) p(1) p(1) d(1,4,2) p(2) s(4,5), of demo_pm_env]
  show ?thesis unfolding d(3) s(3) append_Nil by blast
qed

end
