(* ===== verification/Spm_Main.thy ===== *)
theory Spm_Main
  imports Spm_Inv Ssl_Open
begin

text \<open>
  The start of the PortMaster: \<open>main\<close> of \<open>EXE/Spm.c\<close> from its command line to its loop, and the
  socket it listens on.  The name service gives the four bytes of an address.
\<close>

definition Sopen_prtmstr :: "net \<Rightarrow> string \<Rightarrow> socket option" where
  "Sopen_prtmstr nw hostname =
     (let skt = makeSocket hostname (Some ''PortMaster'') PM_SERVER
      in if \<not> n_socket nw then None
         else (case n_bind nw PORTMASTER of None \<Rightarrow> None
           | Some port \<Rightarrow> Some (skt\<lparr>sk_port := port\<rparr>)))"

definition fw_option :: "string list \<Rightarrow> string" where
  \<comment> \<open>the file name behind \<open>-f\<close>, from the arguments after the name of the program\<close>
  "fw_option args = (case args of [] \<Rightarrow> '''' | a # _ \<Rightarrow> if take 2 a = ''-f'' then drop 2 a else '''')"

datatype spm_boot = SpmUsage | SpmInUse | SpmUp socket spm

definition spm_main :: "net \<Rightarrow> spm_env \<Rightarrow> (string \<Rightarrow> string option) \<Rightarrow> string list \<Rightarrow> spm_boot" where
  "spm_main nw e byname args =
     (if take 1 args = [''?''] then SpmUsage
      else (let hostname = local_host nw;
                s = spm_start e (byname hostname) (fw_option args)
            in case Sopen_prtmstr nw hostname of
                 None \<Rightarrow> SpmInUse
               | Some server \<Rightarrow> SpmUp server s))"

lemma spm_main_up:
  "spm_main nw e byname args = SpmUp server s \<longleftrightarrow>
   take 1 args \<noteq> [''?''] \<and> n_socket nw \<and> n_bind nw PORTMASTER = Some (sk_port server) \<and>
   server = makeSocket (local_host nw) (Some ''PortMaster'') PM_SERVER\<lparr>sk_port := sk_port server\<rparr> \<and>
   s = spm_start e (byname (local_host nw)) (fw_option args)"
  by (auto simp: spm_main_def Sopen_prtmstr_def Let_def makeSocket_def split: option.splits)

text \<open>Whatever its arguments, the PortMaster starts in a state of which its invariant holds.\<close>

lemma spm_main_reachable: "spm_main nw e byname args = SpmUp server s \<Longrightarrow> spm_history e [] s \<and> spm_inv s"
  using spm_main_up [of nw e byname args server s] spm_history.start spm_start_inv by auto

end
