(* ===== verification/Ssl_Format_Lemmas.thy ===== *)
theory Ssl_Format_Lemmas
  imports Ssl_Format C_Text_Lemmas
begin

text \<open>
  What \<open>Sscanf\<close> does with a string on the socket: it takes what one conversion consumes, and the
  terminating NUL with it when the conversion reaches the end of the string.  Then, that a text which the
  format swallows is found whole in whatever pieces it arrives.
\<close>

lemma cstr_self: "NUL \<notin> set s \<Longrightarrow> cstr s = s"
  by (auto simp: cstr_def takeWhile_eq_all_conv)

lemma Speek_flat:
  assumes "t \<noteq> PM_SERVER" and "q \<noteq> []" and "z \<noteq> SelectError" and "0 < n"
  shows "Speek (Some (flat t q z)) n = Some (int (length (take n q)), take n q, Some (flat t q z))"
  using assms
  by (auto simp: Speek_def select_now_def readable_def Let_def peek_count_def recv_peek_eq)

lemma Swait_flat:
  assumes "t \<noteq> PM_SERVER" and "q \<noteq> []" and "z \<noteq> SelectError"
  shows "\<exists>r. Swait (Some (flat t q z)) = Some (r, Some (flat t q z))"
  using assms by (auto simp: Swait_def select_block_def select_now_def readable_def Let_def peek_count_def recv_peek_eq)

lemma cstr_take:
  assumes "cstr s = s" and "length s < n"
  shows "cstr (take n (s @ NUL # r)) = s" and "take n (s @ NUL # r) ! length s = NUL" and "cstr (take n (s @ NUL # r)) \<noteq> take n (s @ NUL # r)"
proof -
  obtain k where n: "n = length s + Suc k" using assms(2) by (metis add_Suc_right less_iff_Suc_add)
  have c: "cstr (s @ NUL # x) = s" for x
    using assms(1) by (simp add: cstr_def takeWhile_tail takeWhile_append2)
  show "cstr (take n (s @ NUL # r)) = s" "take n (s @ NUL # r) ! length s = NUL"
    "cstr (take n (s @ NUL # r)) \<noteq> take n (s @ NUL # r)"
    using c [of "take k r"] by (simp_all add: n nth_append)
qed

text \<open>One argument of \<open>Sscanf\<close> when a whole string has arrived.\<close>

lemma scan_one_string:
  assumes "t \<noteq> PM_SERVER" and "z \<noteq> SelectError" and "cstr s = s" and "length s < PM_BIGBUF - 1"
    and k: "k = length s - length (stpnxt_loop s fmt)" "stpnxt_loop s fmt = drop k s"
  shows "scan_one fmt (flat t (s @ NUL # rest) z) =
    (if stpnxt_loop s fmt = [] then Some (int (length s + 1), Some (sscanf_true s fmt, sscanf s fmt), flat t rest z)
     else Some (int k, Some (sscanf_true (take k s) fmt, sscanf (take k s) fmt), flat t (drop k s @ NUL # rest) z))"
proof -
  let ?q = "s @ NUL # rest"
  define buf where "buf = take (PM_BIGBUF - 1) ?q"
  note c = cstr_take [OF assms(3,4), of rest, folded buf_def]
  obtain r where w: "Swait (Some (flat t ?q z)) = Some (r, Some (flat t ?q z))"
    using Swait_flat [OF assms(1) _ assms(2), of ?q] by auto
  have "Speek (Some (flat t ?q z)) (PM_BIGBUF - 1) = Some (int (length buf), buf, Some (flat t ?q z))"
    unfolding buf_def by (rule Speek_flat) (use assms(1,2) in \<open>simp_all add: PM_BIGBUF_def\<close>)
  then have p: "peek_loop fmt (flat t ?q z) = Some (int k, buf, flat t ?q z)"
    by (subst peek_loop.simps) (use c in \<open>simp add: k(1)\<close>)
  have kl: "k \<le> length s" by (simp add: k(1))
  show ?thesis
  proof (cases "stpnxt_loop s fmt = []")
    case True
    then have "k = length s" by (simp add: k(1))
    moreover have "readbytes_loop (length s + 1) [] (flat t ?q z) = Some (int (length s + 1), s @ [NUL], flat t rest z)"
      using readbytes_flat [of "length s + 1" ?q t z] by simp
    moreover have "cstr (s @ [NUL]) = s" using cstr_take(1) [OF assms(3), of "length s + 1" "[]"] by simp
    ultimately show ?thesis using True c(2) by (simp add: scan_one_def w p Sreadbytes_def Let_def)
  next
    case False
    then have lt: "k < length s" using k(2) by (cases "k < length s") simp_all
    have nul: "NUL \<notin> set s" using cstr_no_NUL [of s] assms(3) by simp
    then have "s ! k \<noteq> NUL" using lt by (metis nth_mem)
    then have b: "buf ! k \<noteq> NUL" using lt assms(4) by (simp add: nth_append buf_def)
    have "readbytes_loop k [] (flat t ?q z) = Some (int k, take k s, flat t (drop k s @ NUL # rest) z)"
    proof (cases "k = 0")
      case True
      then show ?thesis by (subst readbytes_loop.simps) simp
    next
      case False
      then show ?thesis using readbytes_flat [of k ?q t z] lt by simp
    qed
    moreover have "cstr (take k s) = take k s"
      using nul by (intro cstr_self) (auto dest: in_set_takeD)
    ultimately show ?thesis using False b by (simp add: scan_one_def w p Sreadbytes_def Let_def)
  qed
qed

lemma format_d: "strnxtfmt (Some ''%d'') f = Some (Some ''%d'', [])" "parse_format ''%d'' = [DInt]"
  by code_simp+

text \<open>\<open>sscanf\<close> gives \<open>EOF\<close> on blanks, and \<open>EOF\<close> is counted.\<close>

lemma not_digit_d: "\<not> c_isdigit (CHR ''d'')"
  by (simp add: c_isdigit_def)

lemma stpnxt_no_number:
  assumes "skip_ws s = c # cs" and "\<not> c_isdigit c" and "c \<noteq> CHR ''-''" and "c \<noteq> CHR ''+''"
  shows "stpnxt_loop s ''%d'' = skip_ws s"
proof -
  have "s \<noteq> []" using assms(1) by (auto simp: skip_ws_def)
  then show ?thesis using assms
    using not_digit_d by (simp add: stpnxt_loop.simps fmt_code_def skip_char_def stp_code_def stpblk_skip_ws skip_sign_def)
qed

lemma Sscanf_no_number:
  assumes "t \<noteq> PM_SERVER" and "z \<noteq> SelectError" and "cstr s = s" and "length s < PM_BIGBUF - 1"
    and "skip_ws s = c # cs" and "\<not> c_isdigit c" and "c \<noteq> CHR ''-''" and "c \<noteq> CHR ''+''"
  shows "Sscanf (Some (flat t (s @ NUL # rest) z)) ''%d'' 1 f =
    Some (1, [], [], Some (flat t (skip_ws s @ NUL # rest) z))"
proof -
  note p = stpnxt_no_number [OF assms(5-8)]
  define k where "k = length s - length (skip_ws s)"
  have "length s = length (takeWhile c_isspace s) + length (skip_ws s)"
    by (metis length_append skip_ws_def takeWhile_dropWhile_id)
  then have "k = length (takeWhile c_isspace s)" by (simp add: k_def)
  then have d: "skip_ws s = drop k s" "take k s = takeWhile c_isspace s"
    unfolding skip_ws_def by (metis dropWhile_eq_drop, metis takeWhile_eq_take)
  have k1: "k = length s - length (stpnxt_loop s ''%d'')" by (simp only: p k_def)
  have k2: "stpnxt_loop s ''%d'' = drop k s" by (simp only: p) (rule d(1))
  have "skip_ws (take k s) = []" by (auto simp: d(2) skip_ws_def dest: set_takeWhileD)
  then have "sscanf (take k s) ''%d'' = []" "sscanf_true (take k s) ''%d''"
    by (simp_all add: sscanf_def sscanf_true_def format_d scan_int_def split_sign_def)
  then have "scan_one ''%d'' (flat t (s @ NUL # rest) z) =
      Some (int k, Some (True, []), flat t (skip_ws s @ NUL # rest) z)"
    using scan_one_string [OF assms(1-4) k1 k2] assms(5) by (simp add: p flip: d(1))
  then show ?thesis by (simp add: Sscanf_def format_d)
qed

subsection \<open>A word in pieces\<close>

text \<open>
  A text is swallowed by a format when \<open>stpnxt\<close> reads over it and over every start of it; such a text is
  found whole, in whatever pieces it arrives, because the loop polls until the NUL is there.
\<close>

definition swallows :: "string \<Rightarrow> string \<Rightarrow> bool" where
  "swallows fmt u = (\<forall>v w. u = v @ w \<longrightarrow> stpnxt_loop v fmt = [])"

lemma pull_shorter: "pull cs = (q, cs') \<Longrightarrow> q \<noteq> [] \<Longrightarrow> length cs' < length cs"
  by (induction cs rule: pull.induct) (auto split: if_splits)

lemma Speek_queue:
  assumes "sk_type s \<noteq> PM_SERVER" and "queue s \<noteq> []" and "ending s \<noteq> SelectError" and "0 < n"
  shows "Speek (Some s) n = Some (int (length (take n (queue s))), take n (queue s), Some s)"
proof -
  have "arrive s = s" "stream s \<noteq> []" using assms(2) by (simp_all add: arrive_def stream_def)
  with assms show ?thesis by (auto simp: Speek_def select_now_def readable_def Let_def peek_count_def recv_peek_eq)
qed

lemma peek_swallowed:
  assumes "sk_type s \<noteq> PM_SERVER" and "ending s \<noteq> SelectError" and "queue s \<noteq> []"
    and "stream s = u @ NUL # rest" and "NUL \<notin> set u" and "length u < PM_BIGBUF - 1" and "swallows fmt u"
  shows "\<exists>buf s'. peek_loop fmt s = Some (int (length u), buf, s') \<and> buf ! length u = NUL \<and> stream s' = stream s"
  using assms(1-4)
proof (induction "length (coming s)" arbitrary: s rule: less_induct)
  case less
  have cu: "cstr u = u" using assms(5) by (rule cstr_self)
  have 0: "0 < PM_BIGBUF - 1" by (simp add: PM_BIGBUF_def)
  note peek = Speek_queue [OF less.prems(1,3,2) 0]
  have sw: "stpnxt_loop v fmt = []" if "u = v @ w" for v w using assms(7) that by (auto simp: swallows_def)
  have st: "queue s @ concat (coming s) = u @ NUL # rest" using less.prems(4) by (simp add: stream_def)
  show ?case
  proof (cases "length u < length (queue s)")
    case True
    then obtain us where us: "queue s = u @ us" "us \<noteq> []" "us @ concat (coming s) = NUL # rest"
      using st by (auto simp: append_eq_append_conv2)
    then obtain r where "queue s = u @ NUL # r" by (cases us) auto
    with peek cstr_take [OF cu assms(6), of r] sw [of u "[]"] show ?thesis
      by (subst peek_loop.simps) simp
  next
    case False
    then obtain w where u: "u = queue s @ w" "concat (coming s) = w @ NUL # rest"
      using st by (auto simp: append_eq_append_conv2)
    obtain q cs where p: "pull (coming s) = (q, cs)" by fastforce
    have q: "q @ concat cs = concat (coming s)" by (rule pull_concat [OF p])
    have "q \<noteq> []" using pull_empty [of "coming s" cs] p u(2) by auto
    have b: "take (PM_BIGBUF - 1) (queue s) = queue s" using False assms(6) by simp
    have "cstr (queue s) = queue s" using assms(5) u(1) by (intro cstr_self) simp
    with peek sw [OF u(1)] \<open>q \<noteq> []\<close>
    have l: "peek_loop fmt s = peek_loop fmt (s\<lparr>queue := queue s @ q, coming := cs\<rparr>)"
      by (subst peek_loop.simps) (simp add: b [simplified] p)
    have "stream (s\<lparr>queue := queue s @ q, coming := cs\<rparr>) = stream s" using q by (simp add: stream_def)
    moreover have "length cs < length (coming s)" using pull_shorter [OF p \<open>q \<noteq> []\<close>] .
    ultimately show ?thesis using less.hyps [of "s\<lparr>queue := queue s @ q, coming := cs\<rparr>"] less.prems \<open>q \<noteq> []\<close> l by simp
  qed
qed

lemma scan_one_swallowed:
  assumes "sk_type s \<noteq> PM_SERVER" and "ending s \<noteq> SelectError"
    and "stream s = u @ NUL # rest" and "NUL \<notin> set u" and "length u < PM_BIGBUF - 1" and "swallows fmt u"
  shows "\<exists>s'. scan_one fmt s = Some (int (length u + 1), Some (sscanf_true u fmt, sscanf u fmt), s') \<and> stream s' = rest"
proof -
  obtain r where w: "Swait (Some s) = Some (r, Some (arrive s))" using Swait_data [OF assms(1)] assms(3) by auto
  have "queue (arrive s) \<noteq> []" using assms(3) by simp
  with peek_swallowed [of "arrive s" u rest fmt] assms
  obtain buf s' where p: "peek_loop fmt (arrive s) = Some (int (length u), buf, s')" "buf ! length u = NUL" "stream s' = stream s"
    by auto
  have "readbytes_result (length u + 1) [] s' (readbytes_loop (length u + 1) [] s')"
    by (rule readbytes_spec) simp
  then obtain s2 where "readbytes_loop (length u + 1) [] s' = Some (int (length u + 1), u @ [NUL], s2)" "stream s2 = rest"
    using assms(3) p(3) by (auto simp: readbytes_result_def)
  moreover have "cstr (u @ [NUL]) = u" using cstr_take(1) [OF cstr_self [OF assms(4)], of "length u + 1" "[]"] by simp
  ultimately show ?thesis by (simp add: scan_one_def w p Sreadbytes_def Let_def)
qed

lemma stpnxt_digits:
  assumes "list_all c_isdigit v"
  shows "stpnxt_loop v ''%d'' = []" and "stpnxt_loop (CHR ''-'' # v) ''%d'' = []"
proof -
  have d: "dropWhile c_isdigit v = []" using assms by (simp add: list_all_iff dropWhile_eq_Nil_conv)
  have s: "skip_ws v = v" "skip_sign v = v" if "v \<noteq> []"
    using assms that by (cases v; simp add: skip_ws_def skip_sign_def digit_not_space; auto simp: c_isdigit_def)+
  show "stpnxt_loop v ''%d'' = []"
    using s not_digit_d by (cases "v = []") (simp_all add: d stpnxt_loop.simps fmt_code_def skip_char_def stp_code_def stpblk_skip_ws)
  show "stpnxt_loop (CHR ''-'' # v) ''%d'' = []"
    using not_digit_d
    by (simp add: d stpnxt_loop.simps fmt_code_def skip_char_def stp_code_def stpblk_skip_ws skip_ws_def c_isspace_def skip_sign_def)
qed

lemma swallows_number: "swallows ''%d'' (string_of_int n)"
  unfolding swallows_def
proof (intro allI impI)
  fix v w assume "string_of_int n = v @ w"
  then consider "list_all c_isdigit v" | u where "v = CHR ''-'' # u" "list_all c_isdigit u"
    using digits10_digits [of n] digits10_digits [of "- n"]
    by (cases v) (auto simp: string_of_int_def split: if_splits)
  then show "stpnxt_loop v ''%d'' = []" using stpnxt_digits by cases auto
qed

lemma number_fits:
  assumes "- (2 ^ 31) \<le> n" and "n < 2 ^ 31"
  shows "length (string_of_int n) < PM_BIGBUF - 1"
proof -
  have "length (digits10 \<bar>n\<bar>) \<le> 10" using assms by (intro digits10_length_le) auto
  then show ?thesis by (auto simp: string_of_int_def abs_if PM_BIGBUF_def split: if_splits)
qed

lemma number_no_NUL: "NUL \<notin> set (string_of_int n)"
  using string_of_int_chars [of NUL n] by (auto simp: NUL_def c_isdigit_def)

lemma Sscanf_number:
  assumes "sk_type s \<noteq> PM_SERVER" and "ending s \<noteq> SelectError" and n: "- (2 ^ 31) \<le> n" "n < 2 ^ 31"
    and "stream s = cstring_bytes (string_of_int n) @ rest"
  shows "\<exists>s'. Sscanf (Some s) ''%d'' 1 f = Some (1, [CInt n], [], Some s') \<and> stream s' = rest"
proof -
  let ?u = "string_of_int n"
  have i: "scan_int ?u = Some (n, [])" using scan_int_string_of_int [OF n, of "[]"] by simp
  note nul = number_no_NUL [of n] and l = number_fits [OF n]
  have "sscanf ?u ''%d'' = [CInt n]" by (simp add: sscanf_def format_d i)
  moreover have "stream s = ?u @ NUL # rest" using assms(5) by (simp add: cstring_bytes_def cstr_self [OF nul])
  ultimately obtain s' where "scan_one ''%d'' s = Some (int (length ?u + 1), Some (True, [CInt n]), s')" "stream s' = rest"
    using scan_one_swallowed [OF assms(1,2) _ nul l swallows_number] by (auto simp: sscanf_true_def)
  then show ?thesis by (simp add: Sscanf_def format_d)
qed

lemma formatted_number_roundtrip:
  assumes "- (2 ^ 31) \<le> n" and "n < 2 ^ 31" and "sk_type s \<noteq> PM_SERVER" and "ending s \<noteq> SelectError"
  shows "\<exists>c' bs. Sprintf (Some c) ''%d'' [AInt n] = Some (int (length bs) - 1, Some c') \<and> out c' = out c @ bs \<and>
    (stream s = bs @ rest \<longrightarrow>
      (\<exists>s'. Sscanf (Some s) ''%d'' 1 f = Some (1, [CInt n], [], Some s') \<and> stream s' = rest))"
proof -
  have "length (string_of_int n) < PM_BIGBUF" using number_fits [OF assms(1,2)] by simp
  moreover have "length (cstring_bytes (string_of_int n)) = Suc (length (string_of_int n))"
    by (simp add: cstring_bytes_def cstr_self [OF number_no_NUL])
  ultimately show ?thesis
    using Sscanf_number [OF assms(3,4,1,2), of rest f]
    by (intro exI [of _ "put_bytes (cstring_bytes (string_of_int n)) c"] exI [of _ "cstring_bytes (string_of_int n)"])
      (simp add: Sprintf_def)
qed

lemma formatted_number_roundtrip_example:
  "\<exists>c' bs. Sprintf (Some nullconn) ''%d'' [AInt (- 42)] = Some (int (length bs) - 1, Some c') \<and> out c' = out nullconn @ bs \<and>
    (stream \<lparr>sk_type = PM_CLIENT, queue = ''-'', coming = [''4'', ''2'' @ [NUL] @ ''x''], ending = StillOpen, backlog = 0\<rparr> = bs @ ''x'' \<longrightarrow>
      (\<exists>s'. Sscanf (Some \<lparr>sk_type = PM_CLIENT, queue = ''-'', coming = [''4'', ''2'' @ [NUL] @ ''x''], ending = StillOpen, backlog = 0\<rparr>)
        ''%d'' 1 '''' = Some (1, [CInt (- 42)], [], Some s') \<and> stream s' = ''x''))"
  by (rule formatted_number_roundtrip) simp_all

end
