(* ===== verification/Dmucs_Client_Main.thy ===== *)
theory Dmucs_Client_Main
  imports Dmucs_Clients Dmucs_Monitor Spm Ssl_Open
begin

text \<open>
  The \<open>main\<close> functions of the clients over the sockets library: \<open>gethost.cc\<close>, \<open>loadavg.cc\<close>,
  \<open>remhost.cc\<close> and \<open>monitor.cc\<close>, with the conversation on their socket.

  The system calls that reach no socket are arguments: the time \<open>gettimeofday\<close> shows after each reply,
  the result of \<open>putenv\<close>, what becomes of the forked command and what \<open>popen\<close> of \<open>uptime\<close> gives.
\<close>

definition open_dmucs :: "net \<Rightarrow> client_opts \<Rightarrow> netst \<Rightarrow> (socket option \<times> netst) option" where
  \<comment> \<open>the call of \<open>Sopen\<close> the clients share\<close>
  "open_dmucs nw o' st = Sopen nw (Some (c_str (serverName o'))) (clientPortStr o') st"

definition with_conn :: "conn \<Rightarrow> socket \<Rightarrow> socket" where
  "with_conn c s = s\<lparr>sk_conn := c\<rparr>"

subsection \<open>gethost\<close>

definition HOSTNAME_SIZE :: nat where
  "HOSTNAME_SIZE = 256"

fun gethost_ask :: "env \<Rightarrow> int \<Rightarrow> string \<Rightarrow> int list \<Rightarrow> nat \<Rightarrow> string \<Rightarrow> conn \<Rightarrow> (gethost_result \<times> conn) option" where
  \<comment> \<open>the loop, with the seconds that have passed after each reply, the number of requests sent and
     \<open>remCompHostName\<close>; it goes on while there are times\<close>
  "gethost_ask e tmo req [] n buf c = Some (StillWaiting, c)"
| "gethost_ask e tmo req (t # ts) n buf c = do {
     (ok, buf1, c1) \<leftarrow> read_string buf HOSTNAME_SIZE (put_string req c);
     (if \<not> ok then Some (ReadError, c1)
      else let resolved_name = gethost_resolve e (cstr buf1)
        in if resolved_name = '''' \<and> (tmo = - 1 \<or> tmo < t) then gethost_ask e tmo req ts (n + 1) buf1 c1
           else Some (GotHost resolved_name (n + 1), c1)) }"

datatype c_string =
    Living string
  | Destroyed      \<comment> \<open>the object the pointer goes into is gone\<close>

definition putenv_hosts :: "string \<Rightarrow> string \<times> c_string" where
  \<comment> \<open>what \<open>putenv\<close> is given, and what the entry it makes points to once the statement is over: the string is a
     temporary, \<open>tmp.str()\<close>, and \<open>putenv\<close> keeps the pointer\<close>
  "putenv_hosts resolved_name = (distcc_hosts resolved_name, Destroyed)"

definition gethost_child :: "string \<Rightarrow> string list \<Rightarrow> (string \<times> string list) option" where
  \<comment> \<open>the entry and the arguments \<open>execvp\<close> runs the command with; \<open>None\<close>: the child reads a destroyed string
     (already \<open>execvp\<close> does, when it looks for \<open>PATH\<close>)\<close>
  "gethost_child resolved_name cmd = (case snd (putenv_hosts resolved_name) of
     Living v \<Rightarrow> Some (v, cmd)
   | Destroyed \<Rightarrow> None)"

datatype gethost_end =
    EndUsage | EndError | EndWaiting
  | EndRan string "(string \<times> string list) option" int
      \<comment> \<open>the string given to \<open>putenv\<close>, what the child ran, and the exit status of \<open>gethost\<close>\<close>

datatype child =
    NoChild        \<comment> \<open>\<open>fork\<close> fails; the end of the process closes the socket\<close>
  | Waited int     \<comment> \<open>\<open>waitpid\<close> gives the exit status\<close>
  | Reaped         \<comment> \<open>\<open>sigchld_handler\<close> has waited for it first: \<open>waitpid\<close> fails and \<open>status\<close> stays 0\<close>

definition gethost_run :: "net \<Rightarrow> bool \<Rightarrow> child \<Rightarrow> string \<Rightarrow> string list \<Rightarrow> socket option \<Rightarrow> netst \<Rightarrow>
    (gethost_end \<times> netst) option" where
  \<comment> \<open>from \<open>putenv\<close> on: whether it succeeds, and what becomes of the child, whatever the child does.  The
     parent does not read its environment any more; it closes the socket when the child has ended\<close>
  "gethost_run nw putenv_ok child resolved_name cmd sock st =
     (let ran = EndRan (fst (putenv_hosts resolved_name)) (gethost_child resolved_name cmd)
      in if \<not> putenv_ok then map_option (Pair EndError) (Sclose nw sock st)
         else (case child of
             NoChild \<Rightarrow> Some (EndError, st)
           | Waited status \<Rightarrow> map_option (Pair (ran (status mod 256))) (Sclose nw sock st)
           | Reaped \<Rightarrow> map_option (Pair (ran 0)) (Sclose nw sock st)))"

definition gethost_program ::
    "env \<Rightarrow> net \<Rightarrow> string list \<Rightarrow> string \<Rightarrow> int list \<Rightarrow> bool \<Rightarrow> child \<Rightarrow> netst \<Rightarrow> (gethost_end \<times> netst) option" where
  \<comment> \<open>with what \<open>remCompHostName\<close> holds at first\<close>
  "gethost_program e nw args stack clock putenv_ok child st = (case gethost_args default_opts args of
     None \<Rightarrow> Some (EndUsage, st)
   | Some (o', cmd) \<Rightarrow> do {
       (sock, st1) \<leftarrow> open_dmucs nw o' st;
       (case sock of
          None \<Rightarrow> gethost_run nw putenv_ok child '''' cmd None st1
        | Some s \<Rightarrow> (case my_address e (n_hostname nw) of
              None \<Rightarrow> map_option (Pair EndError) (Sclose nw sock st1)
            | Some a \<Rightarrow> do {
                (r, c) \<leftarrow> gethost_ask e (timeout o') (gethost_request a (distingProp o')) clock 0 stack (sk_conn s);
                let sock1 = Some (with_conn c s);
                (case r of
                   StillWaiting \<Rightarrow> Some (EndWaiting, st1)
                 | ReadError \<Rightarrow> map_option (Pair EndError) (Sclose nw sock1 st1)
                 | GotHost nm k \<Rightarrow> gethost_run nw putenv_ok child nm cmd sock1 st1) })) })"

subsection \<open>loadavg\<close>

definition UPTIME_SIZE :: nat where
  "UPTIME_SIZE = 1024"

definition loadavg_round :: "net \<Rightarrow> client_opts \<Rightarrow> ip \<Rightarrow> string option \<Rightarrow> netst \<Rightarrow> netst option" where
  \<comment> \<open>one round of \<open>while(1)\<close>, with the output of \<open>uptime\<close> if \<open>popen\<close> succeeds\<close>
  "loadavg_round nw o' a uptime st = do {
     (sock, st1) \<leftarrow> open_dmucs nw o' st;
     (case (sock, uptime) of
        (None, _) \<Rightarrow> Sclose nw sock st1
      | (_, None) \<Rightarrow> Sclose nw sock st1
      | (Some s, Some output) \<Rightarrow> do {
          ldStr \<leftarrow> loadavg_line (map_option (\<lambda>(l, rest). cstr l) (fgets UPTIME_SIZE output));
          Sclose nw (Some (with_conn (put_string (loadavg_request a ldStr (distingProp o')) (sk_conn s)) s)) st1 }) }"

fun loadavg_rounds :: "net \<Rightarrow> client_opts \<Rightarrow> ip \<Rightarrow> string option list \<Rightarrow> netst \<Rightarrow> netst option" where
  "loadavg_rounds nw o' a [] st = Some st"
| "loadavg_rounds nw o' a (u # us) st = Option.bind (loadavg_round nw o' a u st) (loadavg_rounds nw o' a us)"

datatype loadavg_start = LdUsage | LdNoHost | LdRunning netst

definition loadavg_program :: "env \<Rightarrow> net \<Rightarrow> string list \<Rightarrow> string option list \<Rightarrow> netst \<Rightarrow> loadavg_start option" where
  \<comment> \<open>as far as the rounds go\<close>
  "loadavg_program e nw args us st = (case loadavg_args default_opts args of
     None \<Rightarrow> Some LdUsage
   | Some o' \<Rightarrow> (case my_address e (n_hostname nw) of
         None \<Rightarrow> Some LdNoHost
       | Some a \<Rightarrow> map_option LdRunning (loadavg_rounds nw o' a us st)))"

subsection \<open>remhost and addhost\<close>

definition remhost_address :: "env \<Rightarrow> net \<Rightarrow> client_opts \<Rightarrow> ip option" where
  "remhost_address e nw o' = do {
     nm \<leftarrow> n_hostname nw;
     (_, a) \<leftarrow> gethostbyname e (case suppliedHost o' of Some h \<Rightarrow> h | None \<Rightarrow> nm);
     Some a }"

definition remhost_program :: "env \<Rightarrow> net \<Rightarrow> string \<Rightarrow> string list \<Rightarrow> netst \<Rightarrow> (int \<times> netst) option" where
  \<comment> \<open>the exit status\<close>
  "remhost_program e nw argv0 args st = (case remhost_args default_opts args of
     None \<Rightarrow> Some (- 1, st)
   | Some o' \<Rightarrow> do {
       (sock, st1) \<leftarrow> open_dmucs nw o' st;
       (case sock of
          None \<Rightarrow> Some (- 1, st1)
        | Some s \<Rightarrow> (case remhost_address e nw o' of
              None \<Rightarrow> map_option (Pair (- 1)) (Sclose nw sock st1)
            | Some a \<Rightarrow> map_option (Pair 0)
                (Sclose nw (Some (with_conn (put_string (status_request argv0 o' a) (sk_conn s)) s)) st1))) })"

subsection \<open>monitor\<close>

fun monitor_rounds ::
    "env \<Rightarrow> net \<Rightarrow> client_opts \<Rightarrow> nat \<Rightarrow> string \<Rightarrow> netst \<Rightarrow> (bool \<times> string list \<times> netst) option" where
  \<comment> \<open>so many rounds of \<open>while(1)\<close>, unless a read fails and ends the program: whether it still runs, and
     the texts it has shown\<close>
  "monitor_rounds e nw o' 0 resultStr st = Some (True, [], st)"
| "monitor_rounds e nw o' (Suc n) resultStr st = do {
     (r, buf, st1) \<leftarrow> monitor_round e nw o' resultStr st;
     (case r of
        MonFailed \<Rightarrow> Some (False, [], st1)
      | MonRetry \<Rightarrow> monitor_rounds e nw o' n buf st1
      | MonShown x \<Rightarrow> map_option (\<lambda>(b, xs, st2). (b, x # xs, st2)) (monitor_rounds e nw o' n buf st1)) }"

datatype monitor_end = MonUsage | MonNoHost | MonRuns "string list" netst | MonEnded "string list" netst

definition monitor_program :: "env \<Rightarrow> net \<Rightarrow> string list \<Rightarrow> nat \<Rightarrow> netst \<Rightarrow> monitor_end option" where
  \<comment> \<open>the buffer is static, hence zero at first\<close>
  "monitor_program e nw args n st = (case monitor_args default_opts args of
     None \<Rightarrow> Some MonUsage
   | Some o' \<Rightarrow> (case my_address e (n_hostname nw) of
         None \<Rightarrow> Some MonNoHost
       | Some _ \<Rightarrow> map_option (\<lambda>(b, xs, st1). if b then MonRuns xs st1 else MonEnded xs st1)
           (monitor_rounds e nw o' n (replicate RESULT_MAX_SIZE NUL) st)))"

end
