(* ===== verification/Dmucs_Client_Lemmas.thy ===== *)
theory Dmucs_Client_Lemmas
  imports Dmucs_Client_Main Dmucs_Requests Dmucs_Server_Inv Ssl_Open_Lemmas
begin

text \<open>
  The clients on their connection: the texts of a host request and of its answer survive the packets, the
  loop of \<open>gethost\<close> on the bytes of a connection is its loop on the replies, and a program whose server
  answers runs its command with the name of the cpu it was given.
\<close>

subsection \<open>Addresses as text\<close>

lemma digits10_zero_hd: "0 \<le> n \<Longrightarrow> digits10 n @ r = CHR ''0'' # q \<longleftrightarrow> n = 0 \<and> r = q"
  using digits10_hd [of n] by (cases "digits10 n"; cases "n = 0") (auto simp: digits10_0)

lemma strprefix_zero_address [simp]: "strprefix ''0.0.0.0'' (inet_ntoa a) \<longleftrightarrow> a = 0"
proof
  assume "strprefix ''0.0.0.0'' (inet_ntoa a)"
  then obtain q where "inet_ntoa a = ''0.0.0.0'' @ q" unfolding strprefix_def by (metis append_take_drop_id)
  then have "octet 0 a = 0 \<and> octet 1 a = 0 \<and> octet 2 a = 0 \<and> octet 3 a = 0"
    using digits10_zero_hd [of "octet 3 a" "[]" q] by (simp add: inet_ntoa_def digits10_zero_hd octet_range)
  then have "uint a = 0" using octets_word [of a] by simp
  then show "a = 0" by (simp add: uint_0_iff)
qed (simp add: strprefix_def inet_ntoa_def octet_def digits10_0)

lemma NUL_not_in_digits: "0 \<le> n \<Longrightarrow> NUL \<notin> set (digits10 n)"
  using digits10_digits [of n] by (auto simp: list_all_iff c_isdigit_def NUL_def)

lemma cstr_whole: "NUL \<notin> set x \<Longrightarrow> cstr x = x"
  unfolding cstr_def by (rule takeWhile_eq_all_conv [THEN iffD2]) auto

lemma cstr_inet_ntoa [simp]: "cstr (inet_ntoa a) = inet_ntoa a"
  by (rule cstr_whole) (simp add: inet_ntoa_def NUL_not_in_digits octet_range, simp add: NUL_def)

lemma cstr_gethost_request: "NUL \<notin> set d \<Longrightarrow> cstr (gethost_request a d) = gethost_request a d"
  by (rule cstr_whole)
    (simp add: gethost_request_def inet_ntoa_def NUL_not_in_digits octet_range, simp add: NUL_def)

lemma fits_inet_ntoa [simp]: "fits_buf HOSTNAME_SIZE (inet_ntoa a)"
  using inet_ntoa_length [of a] by (simp add: fits_buf_def HOSTNAME_SIZE_def)

subsection \<open>The loop of \<open>gethost\<close>\<close>

lemma gethost_ask_fed:
  assumes "list_all (fits_buf HOSTNAME_SIZE) rs" and "length rs = length ts"
  shows "\<exists>c'. gethost_ask e tmo req ts n buf (fed c (concat (map cstring_bytes rs)) z) =
    Some (gethost_loop e tmo n (zip (map (\<lambda>r. Some (cstr r)) rs) ts), c')"
  using assms
proof (induction rs arbitrary: ts n buf c)
  case (Cons r rs)
  then obtain t ts' where ts: "ts = t # ts'" by (cases ts) auto
  have "fits_buf HOSTNAME_SIZE r" using Cons.prems(1) by simp
  from read_string_fed [OF this] obtain buf1 where b: "read_string buf HOSTNAME_SIZE
      (fed (put_string req c) (cstring_bytes r @ concat (map cstring_bytes rs)) z) =
      Some (True, buf1, fed (put_string req c) (concat (map cstring_bytes rs)) z)" "cstr buf1 = cstr r"
    by blast
  show ?case using Cons.prems b Cons.IH [of ts' "n + 1" buf1 "put_string req c"] by (auto simp: ts Let_def)
qed simp

lemma gethost_ask_once:
  assumes "a = 0 \<Longrightarrow> tmo \<noteq> - 1 \<and> t \<le> tmo"
  shows "gethost_ask e tmo req [t] 0 buf (fed c (cstring_bytes (inet_ntoa a)) z) =
    Some (GotHost (if a = 0 then '''' else getHostName e a @ ''/100,lzo'') 1, fed (put_string req c) [] z)"
proof -
  obtain buf1 where b: "read_string buf HOSTNAME_SIZE (fed (put_string req c) (cstring_bytes (inet_ntoa a) @ []) z) =
      Some (True, buf1, fed (put_string req c) [] z)" "cstr buf1 = cstr (inet_ntoa a)"
    using read_string_fed [OF fits_inet_ntoa] by blast
  then show ?thesis using assms by (auto simp: gethost_resolve_def inet_addr_ntoa)
qed

subsection \<open>A compilation\<close>

lemma open_dmucs_connected:
  assumes "c_str (serverName o') = CHR ''@'' # host" and "length host + 1 < BUFSIZE" and "host \<noteq> ''''"
    and "0 < serverPortNum o'" and "serverPortNum o' < 2 ^ 16" and "n_socket nw" and "n_resolves nw host"
    and "n_connect nw (tries st) host (of_int (serverPortNum o')) = Some k"
  shows "open_dmucs nw o' st = Some (Some (makeSocket host (Some '''') PM_CLIENT\<lparr>sk_port := of_int (serverPortNum o'),
      sk_conn := k\<rparr>), st\<lparr>tries := tries st + 1\<rparr>)"
proof -
  have "clientPortStr o' = CHR ''c'' # digits10 (serverPortNum o')"
    using assms(4) by (simp add: clientPortStr_def string_of_int_def)
  then have "open_dmucs nw o' st = Some (Sopen_clientport nw host (Some '''') (of_int (serverPortNum o')) st)"
    using Sopen_at_port [OF assms(4,5,2)] assms(1) by (simp add: open_dmucs_def)
  then show ?thesis using assms(3,6,7,8) by (simp add: Sopen_clientport_def)
qed

definition child_result :: "string \<Rightarrow> child \<Rightarrow> gethost_end" where
  \<comment> \<open>how \<open>gethost\<close> ends when it has put a string into its environment\<close>
  "child_result str child = (case child of
     NoChild \<Rightarrow> EndError | Waited status \<Rightarrow> EndRan str None (status mod 256) | Reaped \<Rightarrow> EndRan str None 0)"

lemma gethost_program_connected:
  assumes "gethost_args default_opts args = Some (o', cmd)" and "open_dmucs nw o' st = Some (Some k, st1)"
    and "sk_conn k = fed c (cstring_bytes (inet_ntoa x)) z" and "sk_kind k = PM_CLIENT"
    and "my_address e (n_hostname nw) = Some a" and "x = 0 \<Longrightarrow> timeout o' \<noteq> - 1 \<and> t \<le> timeout o'"
  shows "gethost_program e nw args stack [t] True child st =
    Some (child_result (distcc_hosts (if x = 0 then '''' else getHostName e x @ ''/100,lzo'')) child,
      if child = NoChild then st1 else hang_up (fed (put_string (gethost_request a (distingProp o')) c) [] z) st1)"
  using assms gethost_ask_once [OF assms(6), of x]
  by (cases child) (simp_all add: gethost_program_def gethost_run_def child_result_def gethost_child_def putenv_hosts_def
    with_conn_def Sclose_def Let_def)

text \<open>The server's part: it reads the request, takes a cpu, and gives it back when the socket is closed.\<close>

lemma gethost_request_read:
  assumes "prop_ok d" and "NUL \<notin> set d" and "stream k = cstring_bytes (gethost_request a d)"
  shows "read_request buf k = Some (Some (gethost_request a d))"
proof -
  let ?r = "gethost_request a d" and ?n = "MSG_BUFSIZE - 2"
  note c = cstr_gethost_request [OF assms(2), of a]
  then have st: "stream k = ?r @ [NUL]" using assms(3) by (simp add: cstring_bytes_def)
  have "length ?r < ?n"
    using assms(1) inet_ntoa_length [of a] by (simp add: gethost_request_def prop_ok_def DPROP_MAX_STRLEN_def MSG_BUFSIZE_def)
  then have t: "take ?n (stream k) = ?r @ [NUL]" by (simp add: st)
  have "\<not> stalls k" by (simp add: stalls_def st)
  moreover have "request_text k = Some ?r"
    using cstr_stop [of ?r "[]"] by (simp add: request_text_def t c)
  ultimately show ?thesis by (simp add: read_request_eq)
qed

lemma closed_stream_read:
  assumes "stream k = []" and "ending k \<noteq> StillOpen"
  shows "read_request buf k = Some None"
  using assms by (simp add: read_request_eq stalls_def request_text_def MSG_BUFSIZE_def)

lemma serve_hangup:
  assumes "stream k = []" and "ending k \<noteq> StillOpen"
  shows "serve e buf k sends sk s = handleReq e sk None s"
proof -
  have "sent s' = sent s" if "handleReq e sk None s = Some s'" for s'
    using that by (auto simp: handleReq_def removeFd_def bind_eq_Some_conv)
  then show ?thesis
    by (cases "handleReq e sk None s") (simp_all add: serve_def closed_stream_read [OF assms] written_def)
qed

lemma gethost_request_handled:
  assumes "winv (sw s)" and "prop_ok d" and "handleReq e sk (Some (gethost_request a d)) s = Some s'"
  obtains x w1 where "s' = Sputs_to (inet_ntoa x) sk (s\<lparr>sw := w1\<rparr>)" and "winv w1"
    and "if no_cpus d (sw s) then x = 0 \<and> w1 = sw s else cpu_taken d sk x (sw s) w1"
proof -
  have "HostReq_handle e d sk s = Some s'"
    using assms(3) by (simp add: handleReq_def gethost_parsed [OF assms(2)])
  then obtain x w1 where tk: "take_cpu e d sk (sw s) = Some (x, w1)" "s' = Sputs_to (inet_ntoa x) sk (s\<lparr>sw := w1\<rparr>)"
    by (auto simp: HostReq_handle_def bind_eq_Some_conv)
  then show ?thesis using take_cpu_ok [OF assms(1), of e d sk] that by auto
qed

lemma gethost_request_served:
  assumes "winv (sw s)" and "prop_ok d" and "NUL \<notin> set d" and "stream k = cstring_bytes (gethost_request a d)"
    and "handleReq e sk (Some (gethost_request a d)) s = Some s'"
    and "\<And>x. Sputs True ws (inet_ntoa x) \<noteq> None"
  shows "serve e buf k (Some ws) sk s = Some s'"
proof -
  obtain x w1 where "s' = Sputs_to (inet_ntoa x) sk (s\<lparr>sw := w1\<rparr>)"
    by (rule gethost_request_handled [OF assms(1,2,5)])
  then have "written (Some ws) (drop (length (sent s)) (sent s'))" using assms(6) by (simp add: Sputs_to_def written_def)
  then show ?thesis by (simp add: serve_def gethost_request_read [OF assms(2-4)] assms(5))
qed

lemma answer_taken: "Sputs True [100] (inet_ntoa x) \<noteq> None"
proof -
  have "length (cstring_bytes (inet_ntoa x)) \<le> 16"
    using inet_ntoa_length [of x] by (simp add: cstring_bytes_def)
  then show ?thesis by (simp add: Sputs_def Swrite_def)
qed

lemma closed_socket_returns:
  assumes "sinv s" and "sk \<in> set (fdList s)" and "map_find sk (sock2DpropDb (sw s)) = None"
    and "map_find sk (assignedCpus (db_of d (sw s))) = None" and "winv w1"
    and "if no_cpus d (sw s) then x = 0 \<and> w1 = sw s else cpu_taken d sk x (sw s) w1"
  shows "\<exists>s2. handleReq e sk None (Sputs_to str sk (s\<lparr>sw := w1\<rparr>)) = Some s2 \<and> sinv s2 \<and> sk \<notin> set (fdList s2) \<and>
    map_find sk (sock2DpropDb (sw s2)) = None \<and>
    (\<forall>T y. count_list (tier_cpus T (db_of d (sw s2))) y = count_list (tier_cpus T (db_of d (sw s))) y)"
proof -
  have w: "winv (sw s)" and si: "inst_ok (sfile s)"
    and m: "wm.watches (listener s) (skt s) (fdList s) (smaskst s)"
    using assms(1) by (simp_all add: sinv_def)
  obtain w2 where w2: "DmucsDb_releaseCpu e sk w1 = Some w2" "winv w2" "map_find sk (sock2DpropDb w2) = None"
      "\<And>T y. count_list (tier_cpus T (db_of d w2)) y = count_list (tier_cpus T (db_of d (sw s))) y"
  proof (cases "no_cpus d (sw s)")
    case True
    then show thesis using that [of w1] assms(3,5,6) by (simp add: DmucsDb_releaseCpu_def)
  next
    case False
    then have "cpu_taken d sk x (sw s) w1" using assms(6) by simp
    then show thesis by (rule taken_returns [OF w assms(5) _ assms(3,4)]) (rule that)
  qed
  let ?s = "(Sputs_to str sk (s\<lparr>sw := w1\<rparr>))\<lparr>sw := w2\<rparr>"
  obtain s2 where s2: "removeFd sk ?s = Some s2" "sinv s2" "sw s2 = w2"
    using removeFd_ok [of ?s sk] w2(2) si m assms(2) by (auto simp: Sputs_to_def)
  from s2(1) have "fdList s2 = removeAll sk (fdList ?s)" by (auto simp: removeFd_def)
  then have "sk \<notin> set (fdList s2)" by simp
  with s2 w2 show ?thesis by (simp add: handleReq_def Sputs_to_def)
qed

subsection \<open>The reporters\<close>

lemma loadavg_round_connected:
  assumes "open_dmucs nw o' st = Some (Some k, st1)" and "sk_kind k = PM_CLIENT"
    and "loadavg_line (map_option (\<lambda>(l, rest). cstr l) (fgets UPTIME_SIZE output)) = Some ld"
  shows "loadavg_round nw o' a (Some output) st =
    Some (hang_up (put_string (loadavg_request a ld (distingProp o')) (sk_conn k)) st1)"
  using assms by (simp add: loadavg_round_def with_conn_def Sclose_def)

text \<open>While the server cannot be reached, \<open>loadavg\<close> keeps trying and sends nothing.\<close>

lemma loadavg_rounds_unconnected:
  assumes "\<And>st. \<exists>st1. open_dmucs nw o' st = Some (None, st1) \<and> finished st1 = finished st"
  shows "\<exists>st1. loadavg_rounds nw o' a us st = Some st1 \<and> finished st1 = finished st"
proof (induction us arbitrary: st)
  case (Cons u us)
  obtain st1 where "open_dmucs nw o' st = Some (None, st1)" "finished st1 = finished st" using assms by blast
  then show ?case using Cons.IH [of st1] by (simp add: loadavg_round_def Sclose_def)
qed simp

lemma remhost_program_connected:
  assumes "remhost_args default_opts args = Some o'" and "open_dmucs nw o' st = Some (Some k, st1)"
    and "sk_kind k = PM_CLIENT" and "remhost_address e nw o' = Some a"
  shows "remhost_program e nw argv0 args st =
    Some (0, hang_up (put_string (status_request argv0 o' a) (sk_conn k)) st1)"
  using assms by (simp add: remhost_program_def with_conn_def Sclose_def)

text \<open>The rounds of the monitor compose: what is shown first does not depend on how long it runs on.\<close>

lemma monitor_rounds_shown_prefix:
  assumes "monitor_rounds e nw o' (n + m) buf st = Some (b, xs, st')"
  shows "\<exists>b1 ys zs st1. monitor_rounds e nw o' n buf st = Some (b1, ys, st1) \<and> xs = ys @ zs \<and> (b1 \<or> \<not> b \<and> zs = [])"
  using assms
proof (induction n arbitrary: buf st xs)
  case (Suc n)
  then obtain r buf1 st1 where r: "monitor_round e nw o' buf st = Some (r, buf1, st1)"
    by (auto simp: bind_eq_Some_conv)
  show ?case
  proof (cases r)
    case (MonShown x)
    then obtain xs' where "monitor_rounds e nw o' (n + m) buf1 st1 = Some (b, xs', st')" "xs = x # xs'"
      using Suc.prems r by auto
    then show ?thesis using Suc.IH [of buf1 st1 xs'] r MonShown by fastforce
  qed (use Suc r in auto)
qed auto

end
