(* ===== verification/Ssl_Talk.thy ===== *)
theory Ssl_Talk
  imports Spm Ssl_Format Ssl_Open Ssl_Mask
begin

text \<open>
  The conversation example of the sockets library: the server \<open>EXAMPLES/talksrvr.c\<close> and the client
  \<open>EXAMPLES/talkclient.c\<close>.

  The doubly linked list from \<open>ahd\<close> to \<open>atl\<close> is a list; \<open>cid\<close> of a connection is its descriptor,
  descriptor 0 is standard input.  Standard input holds what has been typed and not yet been read; a
  \<open>fgets\<close> for which no full line is there blocks, which is \<open>None\<close>, as for the sockets.  What the
  programs print is given without the colours.
\<close>

definition TALK_BUFSIZE :: nat where
  "TALK_BUFSIZE = 256"

definition TALK_SERVER :: string where
  "TALK_SERVER = ''TalkServer''"

subsection \<open>Standard input\<close>

record tty =
  tty_text :: string
  tty_eof :: bool

definition line_there :: "nat \<Rightarrow> tty \<Rightarrow> bool" where
  \<comment> \<open>\<open>fgets\<close> does not block\<close>
  "line_there n t = (tty_eof t \<or> NEWLINE \<in> set (tty_text t) \<or> n \<le> length (tty_text t) + 1)"

definition fgets_tty :: "nat \<Rightarrow> string \<Rightarrow> tty \<Rightarrow> (string \<times> tty) option" where
  \<comment> \<open>the buffer afterwards; at the end of the input it is left alone\<close>
  "fgets_tty n buf t =
     (if line_there n t then
        (case fgets n (tty_text t) of
           None \<Rightarrow> Some (buf, t)
         | Some (l, rest) \<Rightarrow> Some (overwrite (l @ [NUL]) buf, t\<lparr>tty_text := rest\<rparr>))
      else None)"

definition trim_buf :: "string \<Rightarrow> string" where
  \<comment> \<open>\<open>srmtrblk(buf)\<close>\<close>
  "trim_buf buf = (let s = cstr buf; r = srmtrblk s
     in overwrite (r @ replicate (length s - length r) NUL) buf)"

subsection \<open>The server\<close>

record talker =
  acc_id :: int
  acc_conn :: conn

record talk =
  tk_clients :: "talker list"            \<comment> \<open>from \<open>ahd\<close> to \<open>atl\<close>\<close>
  tk_id :: int
  tk_buf :: string
  tk_mask :: smask
  tk_fd :: int                           \<comment> \<open>the descriptor of \<open>srvr\<close>\<close>
  tk_waiting :: "conn option list"       \<comment> \<open>what \<open>accept\<close> will give for those who wait\<close>
  tk_tty :: tty
  tk_printed :: string
  tk_closed :: "conn list"               \<comment> \<open>the connections closed so far\<close>

definition TALK_PROMPT :: string where
  "TALK_PROMPT = ''Server: ''"

definition srvr_socket :: "talk \<Rightarrow> ssocket" where
  "srvr_socket s = \<lparr>sk_type = PM_SERVER, queue = '''', coming = [], ending = StillOpen,
     backlog = length (tk_waiting s)\<rparr>"

definition talk_fd :: "talker \<Rightarrow> int" where
  "talk_fd a = int (cid (acc_conn a))"

definition RemoveAccpt :: "talker \<Rightarrow> talk \<Rightarrow> talk option" where
  \<comment> \<open>the caller takes it out of the list.  A peer that has closed still takes one string\<close>
  "RemoveAccpt a s = do {
     m \<leftarrow> Smaskunset (Some (talk_fd a)) (tk_mask s);
     Some (s\<lparr>tk_mask := m, tk_closed := tk_closed s @ [put_string ''q'' (acc_conn a)]\<rparr>) }"

fun SendAllbut :: "int \<Rightarrow> string \<Rightarrow> talker list \<Rightarrow> talker list option" where
  \<comment> \<open>the loop over the part of the list that does not hold \<open>notme\<close>\<close>
  "SendAllbut frm msg [] = Some []"
| "SendAllbut frm msg (a # as) = do {
     (_, c) \<leftarrow> Sprintf (Some (acc_conn a)) ''m%d %s'' [AInt frm, AStr msg];
     r \<leftarrow> SendAllbut frm msg as;
     Some (a\<lparr>acc_conn := the c\<rparr> # r) }"

definition talk_accept :: "talk \<Rightarrow> (bool \<times> talk) option" where
  \<comment> \<open>a client wants to connect; whether the loop goes on.  The counter \<open>id\<close> must not overflow\<close>
  "talk_accept s = (case tk_waiting s of
     [] \<Rightarrow> None
   | None # ws \<Rightarrow> Some (False, s\<lparr>tk_waiting := ws\<rparr>)
   | Some c # ws \<Rightarrow> do {
       m1 \<leftarrow> Smaskset (Some (int (cid c))) (tk_mask s);
       k \<leftarrow> (if tk_id s < 2147483647 then Some (tk_id s + 1) else None);
       m2 \<leftarrow> Smaskset (Some (int (cid c))) m1;
       Some (True, s\<lparr>tk_waiting := ws, tk_mask := m2, tk_id := k,
         tk_clients := tk_clients s @ [\<lparr>acc_id = k, acc_conn = c\<rparr>]\<rparr>) })"

definition print_message :: "int \<Rightarrow> string \<Rightarrow> talk \<Rightarrow> talk option" where
  "print_message frm b s = do {
     t \<leftarrow> vsprintf (NEWLINE # ''client#%d: %s'' @ [NEWLINE]) [AInt frm, AStr b];
     Some (s\<lparr>tk_printed := tk_printed s @ t @ TALK_PROMPT\<rparr>) }"

lemma SendAllbut_length: "SendAllbut frm msg as = Some as' \<Longrightarrow> length as' = length as"
  by (induction as arbitrary: as') (auto split: bind_splits)

definition talk_request :: "talker list \<Rightarrow> talker \<Rightarrow> talker list \<Rightarrow> bool \<Rightarrow> talk \<Rightarrow>
    (talker list \<times> talker list \<times> bool \<times> talk) option" where
  \<comment> \<open>the switch, for the text in \<open>buf\<close>: the clients before and behind \<open>accpt\<close>, \<open>doquit\<close> and the state\<close>
  "talk_request seen a rest ok s =
     (if ok \<and> tk_buf s ! 0 \<noteq> CHR ''q'' then
        (if tk_buf s ! 0 = CHR ''Q'' then map_option (\<lambda>s1. (seen, rest, True, s1)) (RemoveAccpt a s)
         else if tk_buf s ! 0 = CHR ''m'' then do {
           let b = stpblk (drop 1 (cstr (tk_buf s)));
           s1 \<leftarrow> print_message (acc_id a) b s;
           seen' \<leftarrow> SendAllbut (acc_id a) b seen;
           rest' \<leftarrow> SendAllbut (acc_id a) b rest;
           Some (seen' @ [a], rest', False, s1) }
         else Some (seen @ [a], rest, False, s))
      else map_option (\<lambda>s1. (seen, rest, False, s1)) (RemoveAccpt a s))"

definition talk_client_round :: "talker list \<Rightarrow> talker \<Rightarrow> talker list \<Rightarrow> bool \<Rightarrow> talk \<Rightarrow>
    (talker list \<times> talker list \<times> bool \<times> bool \<times> talk) option" where
  \<comment> \<open>one round of the loop over the clients; with \<open>didwork\<close>, too\<close>
  "talk_client_round seen a rest didwork s = do {
     (result, so) \<leftarrow> Stest (Some (io (acc_conn a)));
     let c1 = (acc_conn a)\<lparr>io := the so\<rparr>;
     (if 0 < result then do {
        (ok, buf, c2) \<leftarrow> read_string (tk_buf s) TALK_BUFSIZE c1;
        (seen', rest', doquit, s1) \<leftarrow> talk_request seen (a\<lparr>acc_conn := c2\<rparr>) rest ok (s\<lparr>tk_buf := buf\<rparr>);
        Some (seen', rest', ok \<or> didwork, doquit, s1) }
      else if result < 0 then
        map_option (\<lambda>s1. (seen, rest, didwork, False, s1)) (RemoveAccpt (a\<lparr>acc_conn := c1\<rparr>) s)
      else Some (seen @ [a\<lparr>acc_conn := c1\<rparr>], rest, didwork, False, s)) }"

lemma talk_client_round_length:
  "talk_client_round seen a rest d s = Some (seen', rest', w, q, s') \<Longrightarrow> length rest' = length rest"
  by (auto simp: talk_client_round_def talk_request_def bind_eq_Some_conv Let_def dest: SendAllbut_length
      split: if_splits)

function talk_clients :: "talker list \<Rightarrow> talker list \<Rightarrow> bool \<Rightarrow> talk \<Rightarrow> (bool \<times> bool \<times> talk) option" where
  \<comment> \<open>the loop over the clients: those already looked at, those to come, and \<open>didwork\<close>; with
     \<open>didwork\<close>, \<open>doquit\<close> and the state after it\<close>
  "talk_clients seen todo didwork s = (case todo of
     [] \<Rightarrow> Some (didwork, False, s\<lparr>tk_clients := seen\<rparr>)
   | a # rest \<Rightarrow> (case talk_client_round seen a rest didwork s of
       None \<Rightarrow> None
     | Some (seen', rest', d, doquit, s1) \<Rightarrow>
         if doquit then Some (d, True, s1\<lparr>tk_clients := seen' @ rest'\<rparr>)
         else talk_clients seen' rest' d s1))"
  by pat_completeness auto
termination
  by (relation "measure (\<lambda>(seen, todo, d, s). length todo)")
    (auto dest: talk_client_round_length [OF sym] talk_client_round_length)

declare talk_clients.simps [simp del]

definition talk_stdin :: "talk \<Rightarrow> (bool \<times> talk) option" where
  \<comment> \<open>no socket had anything, so it must be standard input; whether the loop goes on\<close>
  "talk_stdin s = do {
     (buf, t) \<leftarrow> fgets_tty TALK_BUFSIZE (tk_buf s) (tk_tty s);
     let buf = trim_buf buf;
     let s1 = s\<lparr>tk_buf := buf, tk_tty := t\<rparr>;
     (if cstr buf = ''QUIT'' then Some (False, s1)
      else do {
        as \<leftarrow> SendAllbut 0 (cstr buf) (tk_clients s1);
        Some (True, s1\<lparr>tk_clients := as, tk_printed := tk_printed s1 @ TALK_PROMPT\<rparr>) }) }"

definition talk_round :: "selector \<Rightarrow> talk \<Rightarrow> (bool \<times> talk) option" where
  \<comment> \<open>one round of the main loop; whether it goes on\<close>
  "talk_round sel s = (case Smaskwait sel (tk_mask s) of (result, m) \<Rightarrow>
     (let s0 = s\<lparr>tk_mask := m\<rparr>
      in if result \<le> 0 then Some (False, s0)
         else do {
           (r, _) \<leftarrow> Stest (Some (srvr_socket s0));
           if 0 < r then talk_accept s0
           else do {
             (didwork, doquit, s1) \<leftarrow> talk_clients [] (tk_clients s0) False s0;
             if didwork then Some (\<not> doquit, s1)
             else map_option (\<lambda>(go, s2). (go \<and> \<not> doquit, s2)) (talk_stdin s1) } }))"

fun remove_all :: "talker list \<Rightarrow> talk \<Rightarrow> talk option" where
  \<comment> \<open>\<open>while(ahd) RemoveAccpt(ahd);\<close>\<close>
  "remove_all [] s = Some (s\<lparr>tk_clients := []\<rparr>)"
| "remove_all (a # as) s = do { s1 \<leftarrow> RemoveAccpt a s; remove_all as s1 }"

definition talk_start :: "string \<Rightarrow> int \<Rightarrow> tty \<Rightarrow> talk option" where
  \<comment> \<open>once the server is open: what the stack holds, its descriptor and the terminal\<close>
  "talk_start stack fd t = do {
     m \<leftarrow> Smaskset (Some fd) smask_init;
     Some \<lparr>tk_clients = [], tk_id = 0, tk_buf = stack, tk_mask = Smaskfdset 0 m, tk_fd = fd,
       tk_waiting = [], tk_tty = t, tk_printed = TALK_PROMPT, tk_closed = []\<rparr> }"

definition talk_open :: "net \<Rightarrow> netst \<Rightarrow> (socket option \<times> netst) option" where
  \<comment> \<open>the server is opened; without it the program ends with an error\<close>
  "talk_open nw st = Sopen nw (Some TALK_SERVER) ''S'' st"

definition talk_finish :: "net \<Rightarrow> socket \<Rightarrow> netst \<Rightarrow> talk \<Rightarrow> (talk \<times> netst) option" where
  "talk_finish nw srvr st s = do {
     s1 \<leftarrow> remove_all (tk_clients s) s;
     st1 \<leftarrow> Sclose nw (Some srvr) st;
     Some (s1, st1) }"

subsection \<open>The client\<close>

record talk_client =
  tc_skt :: "socket option"
  tc_buf :: string
  tc_id :: int
  tc_mask :: smask
  tc_tty :: tty
  tc_printed :: string
  tc_warned :: "string list"
  tc_net :: netst

definition CLIENT_PROMPT :: string where
  "CLIENT_PROMPT = ''Client: ''"

definition client_start :: "string \<Rightarrow> int \<Rightarrow> tty \<Rightarrow> netst \<Rightarrow> talk_client" where
  \<comment> \<open>with what the stack holds\<close>
  "client_start stack n t st = \<lparr>tc_skt = None, tc_buf = stack, tc_id = n, tc_mask = Smaskfdset 0 smask_init,
     tc_tty = t, tc_printed = CLIENT_PROMPT, tc_warned = [], tc_net = st\<rparr>"

definition read_typed :: "talk_client \<Rightarrow> talk_client option" where
  \<comment> \<open>\<open>fgets(buf,BUFSIZE,stdin); srmtrblk(buf);\<close>\<close>
  "read_typed c = map_option (\<lambda>(buf, t). c\<lparr>tc_buf := trim_buf buf, tc_tty := t\<rparr>)
     (fgets_tty TALK_BUFSIZE (tc_buf c) (tc_tty c))"

definition typed_select :: "tty \<Rightarrow> selector" where
  \<comment> \<open>\<open>select\<close> where only standard input is in the mask\<close>
  "typed_select t n fds limit =
     (if 0 \<in> fds \<and> 0 < n \<and> (tty_eof t \<or> NEWLINE \<in> set (tty_text t)) then (1, {0}, (0, 0)) else (0, {}, (0, 0)))"

partial_function (option) client_connect :: "net \<Rightarrow> talk_client \<Rightarrow> (bool \<times> talk_client) option" where
  \<comment> \<open>the loop until the server accepts; whether the program goes on\<close>
  "client_connect nw c = Option.bind (Sopen nw (Some TALK_SERVER) ''c'' (tc_net c)) (\<lambda>(skt, st1).
     let (r, m) = Smasktest (typed_select (tc_tty c)) (tc_mask c);
         c1 = c\<lparr>tc_net := st1, tc_skt := skt, tc_mask := m\<rparr>
     in Option.bind (if 0 < r then read_typed c1 else Some c1) (\<lambda>c2.
       if 0 < r \<and> cstr (tc_buf c2) = ''q'' then Some (False, c2)
       else case skt of None \<Rightarrow> client_connect nw c2
         | Some s \<Rightarrow> map_option (\<lambda>m2. (True, c2\<lparr>tc_mask := m2\<rparr>))
             (Smaskset (Some (int (cid (sk_conn s)))) (tc_mask c2))))"

definition client_drop :: "net \<Rightarrow> talk_client \<Rightarrow> talk_client option" where
  \<comment> \<open>\<open>Smaskunset(client); Sclose(client); client= NULL;\<close>, for a client that is there\<close>
  "client_drop nw c = (case tc_skt c of None \<Rightarrow> Some c
     | Some s \<Rightarrow> do {
         m \<leftarrow> Smaskunset (Some (int (cid (sk_conn s)))) (tc_mask c);
         st \<leftarrow> Sclose nw (Some s) (tc_net c);
         Some (c\<lparr>tc_mask := m, tc_net := st, tc_skt := None\<rparr>) })"

definition client_message :: "talk_client \<Rightarrow> talk_client option" where
  \<comment> \<open>\<open>case 'm'\<close>\<close>
  "client_message c =
     (let n = (case sscanf (cstr (drop 1 (tc_buf c))) ''%d'' of [CInt i] \<Rightarrow> i | _ \<Rightarrow> tc_id c)
      in do {
        t \<leftarrow> (if n = 0 then vsprintf (NEWLINE # ''server%s'' @ [NEWLINE]) [AStr (drop 2 (tc_buf c))]
              else vsprintf (NEWLINE # ''client%s'' @ [NEWLINE]) [AStr (drop 1 (tc_buf c))]);
        Some (c\<lparr>tc_id := n, tc_printed := tc_printed c @ t @ CLIENT_PROMPT\<rparr>) })"

definition client_warn :: "string \<Rightarrow> talk_client \<Rightarrow> talk_client" where
  "client_warn t c = c\<lparr>tc_warned := tc_warned c @ [t]\<rparr>"

definition client_received :: "net \<Rightarrow> bool \<Rightarrow> talk_client \<Rightarrow> (bool \<times> talk_client) option" where
  \<comment> \<open>once \<open>Sgets\<close> has returned.  After an error the switch still looks at the buffer\<close>
  "client_received nw ok c = do {
     c1 \<leftarrow> (if ok then Some c else client_drop nw (client_warn ''error on Sgets'' c));
     (if tc_buf c1 ! 0 = CHR ''m'' then map_option (Pair True) (client_message c1)
      else if tc_buf c1 ! 0 = CHR ''q'' then map_option (Pair False) (client_drop nw c1)
      else Some (True, client_warn
        (''protocol violation, I don'' @ [CHR 0x27] @ ''t know what to do with <'' @ sprt (Some (tc_buf c1)) @ ''>'') c1)) }"

definition client_send :: "conn \<Rightarrow> talk_client \<Rightarrow> talk_client" where
  "client_send k c = c\<lparr>tc_skt := map_option (\<lambda>s. s\<lparr>sk_conn := k\<rparr>) (tc_skt c)\<rparr>"

definition client_typed :: "net \<Rightarrow> conn \<Rightarrow> talk_client \<Rightarrow> (bool \<times> talk_client) option" where
  "client_typed nw k c = do {
     c1 \<leftarrow> read_typed c;
     let c2 = c1\<lparr>tc_printed := tc_printed c1 @ CLIENT_PROMPT\<rparr>;
     (if cstr (tc_buf c2) = ''q'' then Some (True, client_send (put_string ''q'' k) c2)
      else if cstr (tc_buf c2) = ''Q'' then
        map_option (Pair False) (client_drop nw (client_send (put_string ''Q'' k) c2))
      else do {
        (_, k1) \<leftarrow> Sprintf (Some k) ''m%s'' [AStr (tc_buf c2)];
        Some (True, client_send (the k1) c2) }) }"

definition client_round :: "net \<Rightarrow> selector \<Rightarrow> talk_client \<Rightarrow> (bool \<times> talk_client) option" where
  \<comment> \<open>one round of \<open>while(1)\<close>; whether it goes on\<close>
  "client_round nw sel c = do {
     (go, c0) \<leftarrow> (case tc_skt c of None \<Rightarrow> client_connect nw c | Some _ \<Rightarrow> Some (True, c));
     (case (go, tc_skt c0) of
        (True, Some s) \<Rightarrow> do {
          let (_, m) = Smaskwait sel (tc_mask c0);
          (result, so) \<leftarrow> Stest (Some (io (sk_conn s)));
          let k = (sk_conn s)\<lparr>io := the so\<rparr>;
          let c1 = client_send k (c0\<lparr>tc_mask := m\<rparr>);
          (if 0 < result then do {
             (ok, buf, k1) \<leftarrow> read_string (tc_buf c1) TALK_BUFSIZE k;
             client_received nw ok ((client_send k1 c1)\<lparr>tc_buf := buf\<rparr>) }
           else if result < 0 then map_option (Pair True) (client_drop nw (client_warn ''error on Stest'' c1))
           else client_typed nw k c1) }
      | _ \<Rightarrow> Some (False, c0)) }"

end
