(* ===== verification/Ssl_Color.thy ===== *)
theory Ssl_Color
  imports Spm Ssl_Open
begin

text \<open>
  The terminal colours, \<open>COSMIC/rdcolor.c\<close>: \<open>rdcolor\<close> sets the colour variables from the file
  \<open>rdcolor.dat\<close> (or \<open>color.dat\<close>), looking for the entry of the terminal first, and \<open>rdcputs\<close>
  writes a string or the colour it names.

  The 31 colour variables are a list in the order of the table \<open>colors\<close>; a null pointer is
  \<open>None\<close>.  The eight variables \<open>RD_BLACK\<close>, ..., \<open>RD_WHITE\<close> are a list too.  The C strings
  the code works on end with a NUL; a pointer into one is the rest of the text from there.
\<close>

record color_state =
  col_vars :: "string option list"     \<comment> \<open>\<open>BLACK\<close> to \<open>CLEAR\<close>, in the order of \<open>colors\<close>\<close>
  col_copies :: "string option list"   \<comment> \<open>\<open>RD_BLACK\<close> to \<open>RD_WHITE\<close>\<close>
  rdcolor_done :: bool
  col_warned :: "string list"          \<comment> \<open>the names in the warnings \<open>ignoring unknown color\<close>\<close>

definition color_names :: "string list" where
  "color_names =
     [''BLACK'', ''RED'', ''GREEN'', ''YELLOW'', ''BLUE'', ''MAGENTA'', ''CYAN'', ''WHITE'',
      ''UBLACK'', ''URED'', ''UGREEN'', ''UYELLOW'', ''UBLUE'', ''UMAGENTA'', ''UCYAN'', ''UWHITE'',
      ''RVBLACK'', ''RVRED'', ''RVGREEN'', ''RVYELLOW'', ''RVBLUE'', ''RVMAGENTA'', ''RVCYAN'', ''RVWHITE'',
      ''BOLD'', ''NRML'', ''PYELLOW'', ''PRED'', ''PCYAN'', ''PBLACK'', ''CLEAR'']"

definition ncolor :: nat where
  "ncolor = length color_names"

definition color_files :: "string list" where
  "color_files = [''rdcolor.dat'', ''color.dat'']"

definition LINESIZE :: nat where
  "LINESIZE = 80"

definition color_init :: color_state where
  "color_init = \<lparr>col_vars = replicate ncolor None, col_copies = replicate 8 None, rdcolor_done = False,
     col_warned = []\<rparr>"

subsection \<open>The terminal entry\<close>

function strtok_all :: "string \<Rightarrow> string \<Rightarrow> string list" where
  \<comment> \<open>what the successive calls of \<open>strtok\<close> give\<close>
  "strtok_all ds s = (let t = dropWhile (\<lambda>c. c \<in> set ds) s
     in if t = [] then []
        else takeWhile (\<lambda>c. c \<notin> set ds) t # strtok_all ds (drop 1 (dropWhile (\<lambda>c. c \<notin> set ds) t)))"
  by pat_completeness auto
termination
proof (relation "measure (\<lambda>(ds, s). length s)")
  fix ds s t :: string
  assume t: "t = dropWhile (\<lambda>c. c \<in> set ds) s" and "t \<noteq> []"
  let ?r = "dropWhile (\<lambda>c. c \<notin> set ds) t"
  have "length ?r \<le> length t" by (rule length_dropWhile_le)
  moreover have "length t \<le> length s" unfolding t by (rule length_dropWhile_le)
  moreover have "0 < length t" using \<open>t \<noteq> []\<close> by simp
  ultimately have "length (drop 1 ?r) < length s" by (simp only: length_drop)
  then show "((ds, drop 1 ?r), ds, s) \<in> measure (\<lambda>(ds, s). length s)" by simp
qed simp

declare strtok_all.simps [simp del]

definition term_line :: "string \<Rightarrow> string \<Rightarrow> bool" where
  \<comment> \<open>whether the line of the file is an entry for this terminal\<close>
  "term_line term l =
     (\<not> (case l of [] \<Rightarrow> False | c # _ \<Rightarrow> c_isspace c) \<and>
      term \<in> set (map (\<lambda>w. srmtrblk (stpblk w)) (strtok_all ''|:'' (srmtrblk l))))"

lemma fgets_shorter: "fgets n s = Some (l, rest) \<Longrightarrow> 1 < n \<Longrightarrow> length rest < length s"
  by (cases s) (auto simp: fgets_def Let_def min_def split: if_splits)

lemma fgets_line_shorter: "fgets LINESIZE s = Some (l, rest) \<Longrightarrow> length rest < length s"
  by (erule fgets_shorter) (simp add: LINESIZE_def)

function find_term :: "string \<Rightarrow> string \<Rightarrow> string option" where
  \<comment> \<open>the file behind the entry of the terminal\<close>
  "find_term term f = (case fgets LINESIZE f of None \<Rightarrow> None
     | Some (l, rest) \<Rightarrow> if term_line term (cstr l) then Some rest else find_term term rest)"
  by pat_completeness auto
termination
  by (relation "measure (\<lambda>(t, f). length f)") (auto dest: fgets_line_shorter)

declare find_term.simps [simp del]

subsection \<open>The colour lines\<close>

definition escape_char :: "char \<Rightarrow> char" where
  \<comment> \<open>what stands for a backslash and this character\<close>
  "escape_char c =
     (if c = CHR ''e'' then CHR 0x1B
      else if c = CHR ''f'' then CHR 0x0C
      else if c = CHR ''h'' then CHR 0x08
      else if c = CHR ''n'' then CHR 0x0A
      else if c = CHR ''t'' then CHR 0x09
      else if 65 \<le> (of_char c :: int) \<and> (of_char c :: int) \<le> 90 then char_of (of_char c - 64 :: int)
      else c)"

fun color_text :: "string \<Rightarrow> string" where
  \<comment> \<open>what is written to \<open>newdef\<close>.  A backslash in the last place takes the NUL behind it, and the
     loop goes on at the next byte, which is a NUL, too: the place of the character that was removed\<close>
  "color_text [] = []"
| "color_text [c] = (if c = CHR 0x5C then [escape_char NUL] else [c])"
| "color_text (c # d # cs) = (if c = CHR 0x5C then escape_char d # color_text cs else c # color_text (d # cs))"

datatype color_line =
    Blank                     \<comment> \<open>a blank line or a comment\<close>
  | EntryEnds                 \<comment> \<open>the line begins in the first column\<close>
  | Unknown string
  | Defines nat string

definition read_color_line :: "string \<Rightarrow> color_line" where
  \<comment> \<open>one round of the loop, for the text of the line\<close>
  "read_color_line line = (let cmd = stpblk line
     in if cmd = [] then Blank
        else if cmd = line then EntryEnds
        else if take 1 cmd = ''#'' then Blank
        else let color = take_word cmd;
                 arg = dropWhile (\<lambda>c. c = CHR 0x09) (butlast (skip_word cmd))
             in case List.find (\<lambda>i. color_names ! i = color) [0..<ncolor] of
                  None \<Rightarrow> Unknown color
                | Some i \<Rightarrow> Defines i (cstr (color_text arg)))"

function color_lines :: "string \<Rightarrow> color_state \<Rightarrow> color_state" where
  "color_lines f s = (case fgets LINESIZE f of None \<Rightarrow> s
     | Some (l, rest) \<Rightarrow> (case read_color_line (cstr l) of
         Blank \<Rightarrow> color_lines rest s
       | EntryEnds \<Rightarrow> s
       | Unknown c \<Rightarrow> color_lines rest (s\<lparr>col_warned := col_warned s @ [c]\<rparr>)
       | Defines i t \<Rightarrow> color_lines rest (s\<lparr>col_vars := (col_vars s)[i := Some t]\<rparr>)))"
  by pat_completeness auto
termination
  by (relation "measure (\<lambda>(f, s). length f)") (auto dest: fgets_line_shorter)

declare color_lines.simps [simp del]

definition copy_colors :: "color_state \<Rightarrow> color_state" where
  \<comment> \<open>\<open>RD_BLACK= BLACK; ...\<close>\<close>
  "copy_colors s = s\<lparr>col_copies := take 8 (col_vars s)\<rparr>"

fun open_color_file :: "(string \<Rightarrow> string option) \<Rightarrow> string list \<Rightarrow> string option \<Rightarrow> string option \<times> string option" where
  \<comment> \<open>the first file there is, and the variable \<open>RDCOLOR\<close> afterwards\<close>
  "open_color_file fop [] env = (None, env)"
| "open_color_file fop (n # ns) env = (case fopenv fop n env of
     (Some f, env') \<Rightarrow> (Some f, env')
   | (None, env') \<Rightarrow> open_color_file fop ns env')"

definition rdcolor :: "(string \<Rightarrow> string option) \<Rightarrow> string option \<Rightarrow> string option \<Rightarrow> color_state \<Rightarrow>
    color_state \<times> string option" where
  \<comment> \<open>with the files there are, the variables \<open>RDCOLOR\<close> and \<open>TERM\<close>\<close>
  "rdcolor fop env term s =
     (let s0 = s\<lparr>rdcolor_done := True, col_vars := replicate ncolor (Some '''')\<rparr>
      in case open_color_file fop color_files env of
           (None, env') \<Rightarrow> (copy_colors s0, env')
         | (Some f, env') \<Rightarrow>
             (case (case term of None \<Rightarrow> Some f | Some t \<Rightarrow> find_term t f) of
                None \<Rightarrow> (s0, env')
              | Some rest \<Rightarrow> (copy_colors (color_lines rest s0), env')))"

subsection \<open>rdcputs\<close>

definition rdcputs :: "color_state \<Rightarrow> string \<Rightarrow> string option" where
  \<comment> \<open>what is written; \<open>None\<close> if no number is read, the index is out of the table or the
     variable is null.  \<open>\255\<close> is an octal escape\<close>
  "rdcputs s str =
     (if take 2 str = [CHR 0xAD, CHR ''X''] then
        (if rdcolor_done s then
           (case scan_int (drop 2 str) of None \<Rightarrow> None
            | Some (i, _) \<Rightarrow> if 0 \<le> i \<and> i < int ncolor then col_vars s ! nat i else None)
         else Some '''')
      else Some str)"

end
