(* ===== verification/Ssl_Color_Lemmas.thy ===== *)
theory Ssl_Color_Lemmas
  imports Ssl_Color Ssl_Format_Lemmas
begin

text \<open>
  Facts about the terminal colours: the variables are C strings once \<open>rdcolor\<close> has run, a file that
  has been written for a terminal is read back, and a failed search leaves the copies as they were.
\<close>

subsection \<open>The colour variables\<close>

definition colors_typed :: "color_state \<Rightarrow> bool" where
  \<comment> \<open>31 and 8 variables; every pointer that is not null points to a C string, and after \<open>rdcolor\<close> no
     variable is null\<close>
  "colors_typed s \<longleftrightarrow> length (col_vars s) = ncolor \<and> length (col_copies s) = 8 \<and>
     (\<forall>v\<in>set (col_vars s) \<union> set (col_copies s). \<forall>t. v = Some t \<longrightarrow> NUL \<notin> set t) \<and>
     (rdcolor_done s \<longrightarrow> None \<notin> set (col_vars s))"

lemma ncolor_31: "ncolor = 31"
  by (simp add: ncolor_def color_names_def)

lemma color_init_typed [simp]: "colors_typed color_init"
  by (simp add: colors_typed_def color_init_def)

lemma Defines_props:
  assumes "read_color_line l = Defines i t"
  shows "i < ncolor" and "NUL \<notin> set t"
proof -
  obtain c arg where "List.find (\<lambda>i. color_names ! i = c) [0..<ncolor] = Some i" and "t = cstr (color_text arg)"
    using assms by (auto simp: read_color_line_def Let_def split: if_splits option.splits)
  then show "i < ncolor" "NUL \<notin> set t"
    by (auto simp: find_Some_iff cstr_no_NUL)
qed

lemma color_lines_simps:
  "color_lines f s = (case fgets LINESIZE f of None \<Rightarrow> s
     | Some (l, rest) \<Rightarrow> (case read_color_line (cstr l) of
         Blank \<Rightarrow> color_lines rest s
       | EntryEnds \<Rightarrow> s
       | Unknown c \<Rightarrow> color_lines rest (s\<lparr>col_warned := col_warned s @ [c]\<rparr>)
       | Defines i t \<Rightarrow> color_lines rest (s\<lparr>col_vars := (col_vars s)[i := Some t]\<rparr>)))"
  by (subst color_lines.simps) (auto split: option.split color_line.split)

lemma color_lines_typed:
  "colors_typed s \<Longrightarrow> rdcolor_done s \<Longrightarrow>
   colors_typed (color_lines f s) \<and> rdcolor_done (color_lines f s) \<and> col_copies (color_lines f s) = col_copies s"
proof (induction f s rule: color_lines.induct)
  case (1 f s)
  show ?case
  proof (cases "fgets LINESIZE f")
    case None
    with "1.prems" show ?thesis by (subst (1 2 3) color_lines_simps) simp
  next
    case (Some p)
    obtain l rest where p: "fgets LINESIZE f = Some (l, rest)" using Some by (cases p) auto
    note IH = "1.IH" [OF p refl]
    have wf: "colors_typed (s\<lparr>col_warned := x\<rparr>)" for x using "1.prems" by (simp add: colors_typed_def)
    show ?thesis
    proof (cases "read_color_line (cstr l)")
      case (Defines i t)
      have "colors_typed (s\<lparr>col_vars := (col_vars s)[i := Some t]\<rparr>)"
        using "1.prems" Defines_props [OF Defines] set_update_subset_insert [of "col_vars s" i "Some t"]
        unfolding colors_typed_def by (simp, blast)
      from IH(3) [OF Defines this] "1.prems" p Defines show ?thesis
        by (subst (1 2 3) color_lines_simps) simp
    next
      case (Unknown c)
      from IH(2) [OF Unknown wf] "1.prems" p Unknown show ?thesis by (subst (1 2 3) color_lines_simps) simp
    next
      case Blank
      from IH(1) [OF Blank "1.prems"] p Blank show ?thesis by (subst (1 2 3) color_lines_simps) simp
    next
      case EntryEnds
      with p "1.prems" show ?thesis by (subst (1 2 3) color_lines_simps) simp
    qed
  qed
qed

lemma copy_colors_typed: "colors_typed s \<Longrightarrow> colors_typed (copy_colors s)"
  by (auto simp: colors_typed_def copy_colors_def ncolor_31 dest: in_set_takeD)

lemma rdcolor_start_typed:
  "colors_typed s \<Longrightarrow> colors_typed (s\<lparr>rdcolor_done := True, col_vars := replicate ncolor (Some '''')\<rparr>)"
  by (auto simp: colors_typed_def)

lemma rdcolor_typed:
  assumes "colors_typed s"
  shows "colors_typed (fst (rdcolor fop env term s)) \<and> rdcolor_done (fst (rdcolor fop env term s))"
  using rdcolor_start_typed [OF assms] color_lines_typed [OF rdcolor_start_typed [OF assms]]
  by (auto simp: rdcolor_def Let_def copy_colors_typed copy_colors_def [of s] split: prod.split option.split)
    (simp_all add: copy_colors_def)

subsection \<open>A file is read back\<close>

definition quote_char :: "char \<Rightarrow> string" where
  \<comment> \<open>how a character is written in the file, as the header of \<open>rdcolor.c\<close> says\<close>
  "quote_char c = (if c = CHR 0x5C then [c, c]
     else if c = CHR 0x1B then [CHR 0x5C, CHR ''e'']
     else if 1 \<le> (of_char c :: int) \<and> (of_char c :: int) \<le> 26 then [CHR 0x5C, char_of (of_char c + 64 :: int)]
     else [c])"

definition quote_color :: "string \<Rightarrow> string" where
  "quote_color t = concat (map quote_char t)"

definition write_color :: "nat \<times> string \<Rightarrow> string" where
  "write_color d = ''  '' @ color_names ! fst d @ [CHR 0x09] @ quote_color (snd d) @ [NEWLINE]"

definition write_entry :: "string \<Rightarrow> (nat \<times> string) list \<Rightarrow> string" where
  \<comment> \<open>the entry of a terminal: its name and the colours\<close>
  "write_entry term ds = term @ '':'' @ [NEWLINE] @ concat (map write_color ds)"

definition entry_fits :: "(nat \<times> string) \<Rightarrow> bool" where
  "entry_fits d = (fst d < ncolor \<and> NUL \<notin> set (snd d) \<and> length (write_color d) < LINESIZE)"

lemma color_text_cons: "c \<noteq> CHR 0x5C \<Longrightarrow> color_text (c # cs) = c # color_text cs"
  by (cases cs) simp_all

lemma color_text_escape: "color_text (CHR 0x5C # d # cs) = escape_char d # color_text cs"
  by simp

lemma char_int_eq: "c = d \<longleftrightarrow> (of_char c :: int) = of_char d"
  by simp

lemma quote_control:
  assumes "1 \<le> (of_char c :: int)" "(of_char c :: int) \<le> 26"
  shows "escape_char (char_of (of_char c + 64 :: int)) = c"
proof -
  have *: "(of_char (char_of (of_char c + 64 :: int)) :: int) = of_char c + 64"
    using assms by (simp add: of_char_of)
  show ?thesis
    using assms
    by (simp add: escape_char_def char_int_eq [of "char_of (of_char c + 64 :: int)"] * del: of_char_eq_iff)
qed

lemma color_text_quote: "color_text (quote_char c @ cs) = c # color_text cs"
proof -
  consider (bs) "c = CHR 0x5C" | (esc) "c = CHR 0x1B"
    | (ctl) "c \<noteq> CHR 0x5C" "c \<noteq> CHR 0x1B" "1 \<le> (of_char c :: int)" "(of_char c :: int) \<le> 26"
    | (plain) "quote_char c = [c]" "c \<noteq> CHR 0x5C"
    unfolding quote_char_def by argo
  then show ?thesis
  proof cases
    case bs then show ?thesis by (simp add: quote_char_def escape_char_def)
  next
    case esc then show ?thesis by (simp add: quote_char_def escape_char_def)
  next
    case ctl then show ?thesis by (simp add: quote_char_def quote_control)
  next
    case plain then show ?thesis by (simp add: color_text_cons)
  qed
qed

lemma color_text_quoted: "color_text (quote_color t) = t"
  by (induction t) (simp_all add: quote_color_def color_text_quote)

lemma quote_chars:
  assumes "d \<in> set (quote_char c)" and "c \<noteq> NUL"
  shows "d \<noteq> NUL" and "d \<noteq> NEWLINE" and "d \<noteq> CHR 0x09"
proof -
  have "of_char c \<noteq> (0 :: int)" using assms(2) by (simp add: NUL_def char_int_eq [of c] del: of_char_eq_iff)
  moreover have "0 \<le> (of_char c :: int)" by (metis of_nat_of_char of_nat_0_le_iff)
  ultimately have c: "1 \<le> (of_char c :: int)" by linarith
  have e: "of_char (char_of (of_char c + 64 :: int)) = (of_char c + 64 :: int)" if "(of_char c :: int) \<le> 26"
    using c that by (simp add: of_char_of)
  show "d \<noteq> NUL" "d \<noteq> NEWLINE" "d \<noteq> CHR 0x09"
    using assms(1) c e
    by (auto simp: quote_char_def NUL_def NEWLINE_def char_int_eq [of d] char_int_eq [of c] simp del: of_char_eq_iff split: if_splits)
qed

lemma quoted_chars:
  assumes "NUL \<notin> set t"
  shows "NUL \<notin> set (quote_color t)" and "NEWLINE \<notin> set (quote_color t)" and "CHR 0x09 \<notin> set (quote_color t)"
  using assms quote_chars by (simp_all add: quote_color_def) blast+

lemma fgets_line:
  assumes "NEWLINE \<notin> set l" and "length l + 1 < n"
  shows "fgets n (l @ NEWLINE # rest) = Some (l @ [NEWLINE], rest)"
proof -
  have "takeWhile (\<lambda>c. c \<noteq> NEWLINE) (l @ NEWLINE # rest) = l"
    using assms(1) by (subst takeWhile_append2) auto
  with assms(2) show ?thesis by (simp add: fgets_def)
qed

definition color_word :: "string \<Rightarrow> bool" where
  \<comment> \<open>a name that can stand at the start of a line of the file\<close>
  "color_word w = (w \<noteq> [] \<and> hd w \<noteq> CHR ''#'' \<and>
     list_all (\<lambda>c. \<not> c_isspace c \<and> c \<noteq> NUL \<and> c \<noteq> NEWLINE) w)"

lemma color_names_words: "list_all color_word color_names"
  by code_simp

lemma color_names_distinct: "distinct color_names"
  by code_simp

lemma color_name_word: "i < ncolor \<Longrightarrow> color_word (color_names ! i)"
  using color_names_words by (simp add: list_all_length ncolor_def)

lemma find_color_name: "i < ncolor \<Longrightarrow> List.find (\<lambda>j. color_names ! j = color_names ! i) [0..<ncolor] = Some i"
  using color_names_distinct by (auto simp: find_Some_iff ncolor_def nth_eq_iff_index_eq intro!: exI [of _ i])

lemma c_isspace_marks [simp]: "c_isspace (CHR 0x09)" "c_isspace NEWLINE" "c_isspace (CHR '' '')"
  by (simp_all add: c_isspace_def NEWLINE_def)

lemma word_ends:
  assumes "color_word w" and "c_isspace c"
  shows "take_word (w @ c # r) = w" and "skip_word (w @ c # r) = c # r"
proof -
  have "\<forall>x\<in>set w. \<not> c_isspace x" using assms(1) by (auto simp: color_word_def list_all_iff)
  with assms(2) show "take_word (w @ c # r) = w" "skip_word (w @ c # r) = c # r"
    by (simp_all add: take_word_def skip_word_def takeWhile_append2 dropWhile_append2)
qed

lemma read_written_color:
  assumes "i < ncolor" and "NUL \<notin> set t"
  shows "read_color_line (write_color (i, t)) = Defines i t"
proof -
  let ?w = "color_names ! i"
  have w: "color_word ?w" by (rule color_name_word [OF assms(1)])
  obtain x xs where x: "?w = x # xs" "\<not> c_isspace x" "x \<noteq> CHR ''#''"
    using w by (cases ?w) (auto simp: color_word_def)
  have cmd: "stpblk (write_color (i, t)) = ?w @ CHR 0x09 # quote_color t @ [NEWLINE]"
    using x by (simp add: write_color_def stpblk_def)
  have "dropWhile (\<lambda>c. c = CHR 0x09) (quote_color t) = quote_color t"
    using quoted_chars(3) [OF assms(2)] by (cases "quote_color t") auto
  moreover have "cstr t = t" by (rule cstr_self [OF assms(2)])
  moreover have "write_color (i, t) \<noteq> ?w @ CHR 0x09 # quote_color t @ [NEWLINE]" by (simp add: write_color_def)
  ultimately show ?thesis
    using cmd word_ends [OF w c_isspace_marks(1), of "quote_color t @ [NEWLINE]"] find_color_name [OF assms(1)] x
    by (simp add: read_color_line_def Let_def color_text_quoted butlast_append)
qed

lemma written_color_line:
  assumes "entry_fits d"
  shows "fgets LINESIZE (write_color d @ rest) = Some (write_color d, rest)"
    and "cstr (write_color d) = write_color d"
proof -
  let ?l = "''  '' @ color_names ! fst d @ [CHR 0x09] @ quote_color (snd d)"
  have w: "color_word (color_names ! fst d)" and t: "NUL \<notin> set (snd d)" and len: "length (write_color d) < LINESIZE"
    using assms color_name_word by (simp_all add: entry_fits_def)
  have nl: "NEWLINE \<notin> set ?l" and nul: "NUL \<notin> set ?l"
    using w quoted_chars [OF t] by (auto simp: color_word_def list_all_iff NEWLINE_def NUL_def)
  have d: "write_color d = ?l @ [NEWLINE]" by (simp add: write_color_def)
  show "fgets LINESIZE (write_color d @ rest) = Some (write_color d, rest)"
    using fgets_line [OF nl, of LINESIZE rest] len by (simp add: write_color_def)
  show "cstr (write_color d) = write_color d"
    using nul unfolding d by (intro cstr_self) (simp add: NEWLINE_def NUL_def)
qed

lemma color_lines_written:
  "list_all entry_fits ds \<Longrightarrow> color_lines (concat (map write_color ds) @ f) s =
   color_lines f (s\<lparr>col_vars := fold (\<lambda>d vs. vs[fst d := Some (snd d)]) ds (col_vars s)\<rparr>)"
proof (induction ds arbitrary: s)
  case (Cons d ds)
  then have "read_color_line (write_color d) = Defines (fst d) (snd d)"
    using read_written_color [of "fst d" "snd d"] by (simp add: entry_fits_def)
  with Cons written_color_line(1) [of d "concat (map write_color ds) @ f"] written_color_line(2) [of d] show ?case
    by (subst color_lines_simps) simp
qed simp

lemma color_lines_end: "color_lines [] s = s"
  by (subst color_lines_simps) (simp add: fgets_def)

definition term_name :: "string \<Rightarrow> bool" where
  \<comment> \<open>a terminal name that can stand alone in the first line of an entry\<close>
  "term_name w = (w \<noteq> [] \<and> length w + 2 < LINESIZE \<and>
     list_all (\<lambda>c. \<not> c_isspace c \<and> c \<noteq> NUL \<and> c \<noteq> CHR ''|'' \<and> c \<noteq> CHR '':'') w)"

lemma newline_no_FF: "NEWLINE \<noteq> FF"
  by (simp add: NEWLINE_def FF_def)

lemma srmtrblk_word:
  assumes "w \<noteq> []" and "\<not> c_isspace (last w)"
  shows "srmtrblk w = w" and "srmtrblk (w @ [NEWLINE]) = w"
proof -
  obtain v z where "w = v @ [z]" using assms(1) by (cases w rule: rev_cases) auto
  with assms show "srmtrblk w = w" "srmtrblk (w @ [NEWLINE]) = w"
    using newline_no_FF by (simp_all add: srmtrblk_def)
qed

lemma strtok_one:
  assumes "w \<noteq> []" and "set w \<inter> set ds = {}" and "c \<in> set ds"
  shows "strtok_all ds (w @ [c]) = [w]"
proof -
  have "dropWhile (\<lambda>c. c \<in> set ds) (w @ [c]) = w @ [c]"
    using assms by (cases w) auto
  moreover have "takeWhile (\<lambda>c. c \<notin> set ds) (w @ [c]) = w" "dropWhile (\<lambda>c. c \<notin> set ds) (w @ [c]) = [c]"
    using assms by (auto simp: takeWhile_append2 dropWhile_append2 disjoint_iff)
  ultimately show ?thesis by (subst strtok_all.simps, subst strtok_all.simps) simp
qed

lemma written_term_line:
  assumes "term_name w"
  shows "fgets LINESIZE (w @ '':'' @ [NEWLINE] @ rest) = Some (w @ '':'' @ [NEWLINE], rest)"
    and "term_line v (cstr (w @ '':'' @ [NEWLINE])) \<longleftrightarrow> v = w"
proof -
  have w: "w \<noteq> []" "\<forall>c\<in>set w. \<not> c_isspace c \<and> c \<noteq> NUL \<and> c \<noteq> CHR ''|'' \<and> c \<noteq> CHR '':''"
    and len: "length w + 2 < LINESIZE"
    using assms by (auto simp: term_name_def list_all_iff)
  have nl: "NEWLINE \<notin> set w" "NUL \<notin> set w" using w(2) c_isspace_marks(2) by blast+
  have marks: "CHR '':'' \<noteq> NEWLINE" "CHR '':'' \<noteq> NUL" "NEWLINE \<noteq> NUL" by (simp_all add: NEWLINE_def NUL_def)
  have "NEWLINE \<notin> set (w @ '':'')" using nl marks by simp
  from fgets_line [OF this, of LINESIZE rest] len
  show "fgets LINESIZE (w @ '':'' @ [NEWLINE] @ rest) = Some (w @ '':'' @ [NEWLINE], rest)" by simp
  have c: "cstr (w @ '':'' @ [NEWLINE]) = w @ '':'' @ [NEWLINE]"
    using nl marks by (intro cstr_self) auto
  have "\<not> c_isspace (last (w @ '':''))" by (simp add: c_isspace_def)
  then have l: "srmtrblk (w @ '':'' @ [NEWLINE]) = w @ '':''"
    using srmtrblk_word(2) [of "w @ '':''"] by (simp only: append_assoc append_is_Nil_conv) simp
  have tok: "strtok_all ''|:'' (w @ '':'') = [w]" using w by (intro strtok_one) auto
  obtain x xs where x: "w = x # xs" "\<not> c_isspace x" using w by (cases w) auto
  then have "stpblk w = w" by (simp add: stpblk_def)
  moreover have "srmtrblk w = w" using w by (intro srmtrblk_word(1)) auto
  ultimately show "term_line v (cstr (w @ '':'' @ [NEWLINE])) \<longleftrightarrow> v = w"
    using x(2) unfolding c term_line_def l tok by (simp add: x(1))
qed

lemma find_written_term:
  assumes "term_name w"
  shows "find_term w (write_entry w ds @ f) = Some (concat (map write_color ds) @ f)"
  using written_term_line [OF assms] by (subst find_term.simps) (simp add: write_entry_def)

lemma open_color_file_first: "fop ''rdcolor.dat'' = Some f \<Longrightarrow> open_color_file fop color_files env = (Some f, env)"
  by (simp add: color_files_def fopenv_def)

subsection \<open>A file with many entries\<close>

type_synonym color_entry = "string \<times> (nat \<times> string) list"

definition color_file :: "color_entry list \<Rightarrow> string" where
  "color_file es = concat (map (\<lambda>(w, ds). write_entry w ds) es)"

definition entry_ok :: "color_entry \<Rightarrow> bool" where
  "entry_ok e = (term_name (fst e) \<and> list_all entry_fits (snd e))"

lemma color_file_Cons:
  "color_file ((w, ds) # es) = w @ '':'' @ [NEWLINE] @ concat (map write_color ds) @ color_file es"
  by (simp add: color_file_def write_entry_def)

lemma find_term_skips_colors:
  "list_all entry_fits ds \<Longrightarrow> find_term w (concat (map write_color ds) @ f) = find_term w f"
proof (induction ds)
  case (Cons d ds)
  have "\<not> term_line w (cstr (write_color d))"
    using written_color_line(2) [of d] Cons.prems by (simp add: term_line_def write_color_def)
  with Cons written_color_line(1) [of d "concat (map write_color ds) @ f"] show ?case
    by (subst find_term.simps) simp
qed simp

lemma find_term_file:
  "list_all entry_ok es \<Longrightarrow> find_term w (color_file es) = (case map_of es w of None \<Rightarrow> None
     | Some ds \<Rightarrow> Some (concat (map write_color ds) @ color_file (tl (dropWhile (\<lambda>e. fst e \<noteq> w) es))))"
proof (induction es)
  case Nil
  then show ?case by (subst find_term.simps) (simp add: color_file_def fgets_def)
next
  case (Cons e es)
  obtain v ds where e: "e = (v, ds)" by (cases e)
  have v: "term_name v" "list_all entry_fits ds" using Cons.prems e by (simp_all add: entry_ok_def)
  note line = written_term_line [OF v(1)]
  have "find_term w (color_file (e # es)) = (if w = v then Some (concat (map write_color ds) @ color_file es)
      else find_term w (concat (map write_color ds) @ color_file es))"
    using line(1) [of "concat (map write_color ds) @ color_file es"] line(2) [of w]
    unfolding e color_file_Cons by (subst find_term.simps) simp
  with Cons find_term_skips_colors [OF v(2)] show ?case by (simp add: e split: option.split)
qed

lemma entry_ends:
  assumes "list_all entry_ok es"
  shows "color_lines (color_file es) s = s"
proof (cases es)
  case Nil
  then show ?thesis by (simp add: color_file_def color_lines_end)
next
  case (Cons e es')
  obtain v ds where e: "e = (v, ds)" by (cases e)
  have v: "term_name v" using assms Cons e by (simp add: entry_ok_def)
  then obtain x xs where x: "v = x # xs" "\<not> c_isspace x" "x \<noteq> NUL" by (cases v) (auto simp: term_name_def)
  have "read_color_line (cstr (v @ '':'' @ [NEWLINE])) = EntryEnds"
    using x by (simp add: cstr_def read_color_line_def stpblk_def Let_def)
  with written_term_line(1) [OF v, of "concat (map write_color ds) @ color_file es'"] show ?thesis
    unfolding Cons e color_file_Cons by (subst color_lines_simps) simp
qed

definition color_defaults :: "color_state \<Rightarrow> color_state" where
  "color_defaults s = s\<lparr>rdcolor_done := True, col_vars := replicate ncolor (Some '''')\<rparr>"

definition define_colors :: "(nat \<times> string) list \<Rightarrow> color_state \<Rightarrow> color_state" where
  "define_colors ds s = s\<lparr>col_vars := fold (\<lambda>d vs. vs[fst d := Some (snd d)]) ds (col_vars s)\<rparr>"

lemma rdcolor_file:
  assumes "fop ''rdcolor.dat'' = Some (color_file es)" and "list_all entry_ok es"
  shows "rdcolor fop env (Some w) s = (case map_of es w of
      Some ds \<Rightarrow> (copy_colors (define_colors ds (color_defaults s)), env)
    | None \<Rightarrow> (color_defaults s, env))"
proof (cases "map_of es w")
  case None
  with assms show ?thesis
    by (simp add: rdcolor_def open_color_file_first find_term_file color_defaults_def Let_def)
next
  case (Some ds)
  then have "(w, ds) \<in> set es" by (rule map_of_SomeD)
  then have ds: "list_all entry_fits ds" using assms(2) by (force simp: list_all_iff entry_ok_def)
  have "x \<in> set es" if "x \<in> set (tl (dropWhile (\<lambda>e. fst e \<noteq> w) es))" for x
    using that set_dropWhileD [of x "\<lambda>e. fst e \<noteq> w" es] by (cases "dropWhile (\<lambda>e. fst e \<noteq> w) es") auto
  then have "list_all entry_ok (tl (dropWhile (\<lambda>e. fst e \<noteq> w) es))"
    using assms(2) by (auto simp: list_all_iff)
  from entry_ends [OF this] have "color_lines (concat (map write_color ds) @ color_file (tl (dropWhile (\<lambda>e. fst e \<noteq> w) es)))
      (color_defaults s) = define_colors ds (color_defaults s)"
    by (simp only: color_lines_written [OF ds]) (simp add: define_colors_def)
  with Some assms show ?thesis
    by (simp add: rdcolor_def open_color_file_first find_term_file color_defaults_def Let_def)
qed

lemma rdcputs_color:
  assumes "rdcolor_done s" and "i < ncolor"
  shows "rdcputs s ([CHR 0xAD, CHR ''X''] @ string_of_int (int i)) = col_vars s ! i"
proof -
  have "scan_int (string_of_int (int i)) = Some (int i, [])"
    using scan_int_string_of_int [of "int i" "[]"] assms(2) by (simp add: ncolor_31)
  with assms show ?thesis by (simp add: rdcputs_def)
qed

end
