(* ===== verification/Ssl_Talk_Lemmas.thy ===== *)
theory Ssl_Talk_Lemmas
  imports Ssl_Talk Ssl_Color_Lemmas "HOL-Library.Sublist"
begin

text \<open>
  Facts about the conversation example: the invariant of the server, its refinement of an abstract
  conversation in which everybody has a mailbox, the order of the messages, and a message's way from
  one client to another.
\<close>

subsection \<open>A rule for the loop over the clients\<close>

definition same_talker :: "talker \<Rightarrow> talker \<Rightarrow> bool" where
  \<comment> \<open>up to what has been received\<close>
  "same_talker a a' \<longleftrightarrow> acc_id a' = acc_id a \<and> out (acc_conn a') = out (acc_conn a) \<and> cid (acc_conn a') = cid (acc_conn a)"

definition same_talk :: "talk \<Rightarrow> talk \<Rightarrow> bool" where
  \<comment> \<open>up to the clients, the buffer, the terminal and those who wait\<close>
  "same_talk s s' \<longleftrightarrow> tk_id s' = tk_id s \<and> tk_mask s' = tk_mask s \<and> tk_fd s' = tk_fd s \<and> tk_closed s' = tk_closed s"

lemma same_talk_refl [simp]:
  "same_talk s s" "same_talk s (s\<lparr>tk_clients := x\<rparr>)" "same_talk s (s\<lparr>tk_buf := b\<rparr>)"
  by (simp_all add: same_talk_def)

lemma same_talk_trans: "same_talk s s1 \<Longrightarrow> same_talk s1 s2 \<Longrightarrow> same_talk s s2"
  by (simp add: same_talk_def)

lemma print_message_same: "print_message n b s = Some s' \<Longrightarrow> same_talk s s'"
  by (auto simp: print_message_def same_talk_def bind_eq_Some_conv)

lemma read_string_same:
  "read_string b n c = Some (ok, buf, c') \<Longrightarrow> out c' = out c \<and> cid c' = cid c"
  by (auto simp: read_string_def bind_eq_Some_conv)

locale talk_moves =
  \<comment> \<open>what every move of the loop keeps\<close>
  fixes P :: "talker list \<Rightarrow> talk \<Rightarrow> bool"
  assumes touch: "P (as @ a # bs) s \<Longrightarrow> same_talker a a' \<Longrightarrow> P (as @ a' # bs) s"
    and same: "P as s \<Longrightarrow> same_talk s s' \<Longrightarrow> P as s'"
    and remove: "P (as @ a # bs) s \<Longrightarrow> RemoveAccpt a s = Some s' \<Longrightarrow> P (as @ bs) s'"
    and say: "P (as @ a # bs) s \<Longrightarrow> SendAllbut (acc_id a) b as = Some as' \<Longrightarrow>
      SendAllbut (acc_id a) b bs = Some bs' \<Longrightarrow> P (as' @ a # bs') s"
begin

lemma request_keeps:
  assumes "talk_request seen a rest ok s = Some (seen', rest', q, s')" and P: "P (seen @ a # rest) s"
  shows "P (seen' @ rest') s'"
proof -
  have said: "P (sn @ a # rs) s2"
    if "print_message (acc_id a) b s = Some s2" "SendAllbut (acc_id a) b seen = Some sn"
      "SendAllbut (acc_id a) b rest = Some rs" for b s2 sn rs
    by (rule same [OF say [OF P that(2,3)] print_message_same [OF that(1)]])
  show ?thesis
    using assms(1) P remove [OF P] said
    by (auto simp: talk_request_def bind_eq_Some_conv Let_def split: if_splits)
qed

lemma round_keeps:
  assumes "talk_client_round seen a rest d s = Some (seen', rest', w, q, s')" and P: "P (seen @ a # rest) s"
  shows "P (seen' @ rest') s'"
proof -
  obtain r so where t: "Stest (Some (io (acc_conn a))) = Some (r, so)"
    using assms(1) by (auto simp: talk_client_round_def bind_eq_Some_conv)
  define a1 where "a1 = a\<lparr>acc_conn := (acc_conn a)\<lparr>io := the so\<rparr>\<rparr>"
  have a1: "P (seen @ a1 # rest) s" by (rule touch [OF P]) (simp add: same_talker_def a1_def)
  show ?thesis
  proof (cases "0 < r")
    case True
    with assms(1) t obtain ok buf c2 where rd: "read_string (tk_buf s) TALK_BUFSIZE (acc_conn a1) = Some (ok, buf, c2)"
      and rq: "talk_request seen (a\<lparr>acc_conn := c2\<rparr>) rest ok (s\<lparr>tk_buf := buf\<rparr>) = Some (seen', rest', q, s')"
      by (auto simp: talk_client_round_def bind_eq_Some_conv Let_def a1_def)
    have "P (seen @ a\<lparr>acc_conn := c2\<rparr> # rest) (s\<lparr>tk_buf := buf\<rparr>)"
      by (rule same [OF touch [OF P]])
        (use read_string_same [OF rd] in \<open>simp_all add: same_talker_def a1_def\<close>)
    from request_keeps [OF rq this] show ?thesis .
  next
    case False
    with assms(1) t a1 remove [OF a1] show ?thesis
      by (auto simp: talk_client_round_def a1_def Let_def split: if_splits)
  qed
qed

lemma clients_keep:
  "talk_clients seen todo d s = Some (w, q, s') \<Longrightarrow> P (seen @ todo) s \<Longrightarrow> P (tk_clients s') s'"
proof (induction "length todo" arbitrary: seen todo d s)
  case 0
  then show ?case by (subst (asm) talk_clients.simps) (auto intro: same)
next
  case (Suc n)
  then obtain a rest where todo: "todo = a # rest" "length rest = n" by (cases todo) auto
  obtain seen' rest' d' q' s1 where r: "talk_client_round seen a rest d s = Some (seen', rest', d', q', s1)"
    using Suc.prems(1) todo by (subst (asm) talk_clients.simps) (auto split: option.splits)
  have p: "P (seen' @ rest') s1" by (rule round_keeps [OF r]) (use Suc.prems(2) todo in simp)
  show ?case
  proof (cases q')
    case True
    with Suc.prems(1) todo r p show ?thesis by (subst (asm) talk_clients.simps) (auto intro: same)
  next
    case False
    with Suc.prems(1) todo r have "talk_clients seen' rest' d' s1 = Some (w, q, s')"
      by (subst (asm) talk_clients.simps) simp
    from Suc.hyps(1) [OF _ this p] talk_client_round_length [OF r] todo(2) show ?thesis by simp
  qed
qed

end

subsection \<open>The invariant\<close>

definition told_quit :: "conn \<Rightarrow> bool" where
  \<comment> \<open>the last that has been written is the command to quit\<close>
  "told_quit c = suffix (cstring_bytes ''q'') (out c)"

definition talk_inv :: "talker list \<Rightarrow> talk \<Rightarrow> bool" where
  \<comment> \<open>the identities grow along the list; the mask watches the server's socket, standard input and the
     sockets in the list, and no others; whose connection is closed has been told so\<close>
  "talk_inv as s \<longleftrightarrow> sorted_wrt (<) (map acc_id as) \<and> list_all (\<lambda>n. 0 < n \<and> n \<le> tk_id s) (map acc_id as) \<and>
     0 \<le> tk_id s \<and> wm.watches (tk_fd s) id (0 # map talk_fd as) (tk_mask s) \<and>
     (\<forall>c\<in>set (tk_closed s). told_quit c)"

lemma SendAllbut_map:
  "SendAllbut n b as = Some as' \<Longrightarrow> list_all2 (\<lambda>a a'. acc_id a' = acc_id a \<and> cid (acc_conn a') = cid (acc_conn a) \<and>
     out (acc_conn a') = out (acc_conn a) @ cstring_bytes (''m'' @ string_of_int n @ '' '' @ cstr b)) as as'"
  by (induction as arbitrary: as') (auto simp: bind_eq_Some_conv Sprintf_def split: if_splits)

lemma SendAllbut_ids:
  assumes "SendAllbut n b as = Some as'"
  shows "map acc_id as' = map acc_id as" and "map talk_fd as' = map talk_fd as"
proof -
  show "map acc_id as' = map acc_id as" "map talk_fd as' = map talk_fd as"
    using SendAllbut_map [OF assms]
    by (induction as as' rule: list_all2_induct) (simp_all add: talk_fd_def)
qed

lemma told_put_quit: "told_quit (put_string ''q'' c)"
  by (simp add: told_quit_def suffix_def)

lemma watches_remove:
  assumes "wm.watches l id (x # ys @ y # zs) m"
  shows "\<exists>m'. Smaskunset (Some y) m = Some m' \<and> wm.watches l id (x # ys @ zs) m'"
proof -
  have "distinct (x # ys @ y # zs)" using assms by (simp add: wm.watches_def)
  then have "removeAll y (x # ys @ y # zs) = x # ys @ zs" by (auto simp: removeAll_id)
  with wm.watches_del [OF assms, of y] show ?thesis by simp
qed

lemma RemoveAccpt_inv:
  assumes "talk_inv (as @ a # bs) s"
  shows "\<exists>s'. RemoveAccpt a s = Some s'" and "RemoveAccpt a s = Some s' \<Longrightarrow> talk_inv (as @ bs) s'"
proof -
  obtain m where m: "Smaskunset (Some (talk_fd a)) (tk_mask s) = Some m"
      "wm.watches (tk_fd s) id (0 # map talk_fd as @ map talk_fd bs) m"
    using watches_remove [of "tk_fd s" 0 "map talk_fd as" "talk_fd a" "map talk_fd bs" "tk_mask s"] assms
    by (auto simp: talk_inv_def)
  show "\<exists>s'. RemoveAccpt a s = Some s'" using m by (simp add: RemoveAccpt_def)
  show "talk_inv (as @ bs) s'" if "RemoveAccpt a s = Some s'"
    using that m assms told_put_quit by (auto simp: RemoveAccpt_def talk_inv_def sorted_wrt_append)
qed

interpretation tinv: talk_moves talk_inv
proof
  fix as bs a a' s s' b as' bs'
  show "talk_inv (as @ a' # bs) s" if "talk_inv (as @ a # bs) s" "same_talker a a'"
    using that by (simp add: talk_inv_def same_talker_def talk_fd_def)
  show "talk_inv as s'" if "talk_inv as s" "same_talk s s'"
    using that by (simp add: talk_inv_def same_talk_def)
  show "talk_inv (as @ bs) s'" if "talk_inv (as @ a # bs) s" "RemoveAccpt a s = Some s'"
    by (rule RemoveAccpt_inv(2) [OF that])
  show "talk_inv (as' @ a # bs') s" if "talk_inv (as @ a # bs) s"
      "SendAllbut (acc_id a) b as = Some as'" "SendAllbut (acc_id a) b bs = Some bs'"
  proof -
    have "map acc_id (as' @ a # bs') = map acc_id (as @ a # bs)" "map talk_fd (as' @ a # bs') = map talk_fd (as @ a # bs)"
      using SendAllbut_ids [OF that(2)] SendAllbut_ids [OF that(3)] by simp_all
    with that(1) show ?thesis by (simp only: talk_inv_def, blast)
  qed
qed

subsection \<open>What can happen\<close>

definition fresh_accept :: "talk \<Rightarrow> bool" where
  \<comment> \<open>the system gives a new connection a descriptor that is not in use\<close>
  "fresh_accept s = (case tk_waiting s of Some c # _ \<Rightarrow> legal_fd (int (cid c)) \<and>
     int (cid c) \<notin> insert (tk_fd s) (set (0 # map talk_fd (tk_clients s))) \<and> out c = [] | _ \<Rightarrow> True)"

inductive talk_reach :: "talk \<Rightarrow> bool" where
  start: "talk_start stack fd t = Some s \<Longrightarrow> fd \<noteq> 0 \<Longrightarrow> talk_reach s"
| knock: "talk_reach s \<Longrightarrow> talk_reach (s\<lparr>tk_waiting := tk_waiting s @ [w]\<rparr>)"
| typed: "talk_reach s \<Longrightarrow> talk_reach (s\<lparr>tk_tty := t\<rparr>)"
| arrives: "talk_reach s \<Longrightarrow> tk_clients s = as @ a # bs \<Longrightarrow>
    talk_reach (s\<lparr>tk_clients := as @ a\<lparr>acc_conn := (acc_conn a)\<lparr>io := so\<rparr>\<rparr> # bs\<rparr>)"
| round: "talk_reach s \<Longrightarrow> fresh_accept s \<Longrightarrow> talk_round sel s = Some (True, s') \<Longrightarrow> talk_reach s'"

lemma fresh_accept_mask: "fresh_accept (s\<lparr>tk_mask := m\<rparr>) = fresh_accept s"
  by (simp add: fresh_accept_def split: list.split option.split)

lemma talk_stdin_cases:
  assumes "talk_stdin s = Some (go, s')"
  obtains s1 where "same_talk s s1" "tk_clients s1 = tk_clients s"
    "s' = s1 \<or> (\<exists>b as pr. SendAllbut 0 b (tk_clients s) = Some as \<and> s' = s1\<lparr>tk_clients := as, tk_printed := pr\<rparr>)"
proof -
  obtain buf t where r: "fgets_tty TALK_BUFSIZE (tk_buf s) (tk_tty s) = Some (buf, t)"
    using assms by (auto simp: talk_stdin_def bind_eq_Some_conv)
  define s1 where "s1 = s\<lparr>tk_buf := trim_buf buf, tk_tty := t\<rparr>"
  have s1: "same_talk s s1" "tk_clients s1 = tk_clients s" by (simp_all add: s1_def same_talk_def)
  have eq: "talk_stdin s = (if cstr (trim_buf buf) = ''QUIT'' then Some (False, s1)
      else map_option (\<lambda>as. (True, s1\<lparr>tk_clients := as, tk_printed := tk_printed s1 @ TALK_PROMPT\<rparr>))
        (SendAllbut 0 (cstr (trim_buf buf)) (tk_clients s)))"
    by (cases "SendAllbut 0 (cstr (trim_buf buf)) (tk_clients s)")
      (simp_all add: talk_stdin_def r Let_def s1_def)
  show ?thesis
  proof (cases "cstr (trim_buf buf) = ''QUIT''")
    case True
    with eq assms have "s' = s1" by simp
    with that s1 show ?thesis by blast
  next
    case False
    with eq assms obtain as where "SendAllbut 0 (cstr (trim_buf buf)) (tk_clients s) = Some as"
      "s' = s1\<lparr>tk_clients := as, tk_printed := tk_printed s1 @ TALK_PROMPT\<rparr>"
      by (cases "SendAllbut 0 (cstr (trim_buf buf)) (tk_clients s)") (simp_all only: if_False option.map option.inject prod.inject option.distinct)
    with that s1 show ?thesis by blast
  qed
qed

lemma Stest_srvr: "Stest (Some (srvr_socket s)) = Some (if tk_waiting s = [] then 0 else 1, Some (srvr_socket s))"
  by (simp add: Stest_def srvr_socket_def select_now_def readable_def)

lemma talk_round_cases:
  assumes "talk_round sel s = Some (go, s')" and "go"
  defines "s0 \<equiv> s\<lparr>tk_mask := snd (Smaskwait sel (tk_mask s))\<rparr>"
  shows "talk_accept s0 = Some (True, s') \<or> (\<exists>w q s1. talk_clients [] (tk_clients s0) False s0 = Some (w, q, s1) \<and>
      (s' = s1 \<or> (\<exists>go. talk_stdin s1 = Some (go, s'))))"
proof -
  obtain n m where w: "Smaskwait sel (tk_mask s) = (n, m)" by (cases "Smaskwait sel (tk_mask s)")
  have s0: "s0 = s\<lparr>tk_mask := m\<rparr>" using w by (simp add: s0_def)
  have n: "0 < n" using assms(1,2) by (cases "n \<le> 0") (simp_all add: talk_round_def w)
  have eq: "talk_round sel s = (if tk_waiting s0 \<noteq> [] then talk_accept s0
      else Option.bind (talk_clients [] (tk_clients s0) False s0) (\<lambda>(didwork, doquit, s1).
        if didwork then Some (\<not> doquit, s1) else map_option (\<lambda>(go, s2). (go \<and> \<not> doquit, s2)) (talk_stdin s1)))"
    using n by (simp add: talk_round_def w Stest_srvr s0 Let_def)
  show ?thesis
  proof (cases "tk_waiting s0 = []")
    case False
    with eq assms(1,2) show ?thesis by simp
  next
    case True
    obtain d q s1 where c: "talk_clients [] (tk_clients s0) False s0 = Some (d, q, s1)"
      and e: "(if d then Some (\<not> q, s1) else map_option (\<lambda>(go, s2). (go \<and> \<not> q, s2)) (talk_stdin s1)) = Some (go, s')"
      using eq assms(1) True by (cases "talk_clients [] (tk_clients s0) False s0") auto
    from e have "s' = s1 \<or> (\<exists>go. talk_stdin s1 = Some (go, s'))" by (cases d) auto
    with c show ?thesis by blast
  qed
qed

lemmas talk_round_cases_go = talk_round_cases [OF _ TrueI]

locale talk_keeps = talk_moves +
  \<comment> \<open>what is kept by a new client, a message of the server, and \<open>select\<close>, and holds at the start\<close>
  assumes first: "talk_start stack fd t = Some s \<Longrightarrow> fd \<noteq> 0 \<Longrightarrow> P [] s"
    and join: "P (tk_clients s) s \<Longrightarrow> fresh_accept s \<Longrightarrow> talk_accept s = Some (True, s') \<Longrightarrow> P (tk_clients s') s'"
    and announce: "P as s \<Longrightarrow> SendAllbut 0 b as = Some as' \<Longrightarrow> P as' s"
    and waited: "P as s \<Longrightarrow> P as (s\<lparr>tk_mask := snd (Smaskwait sel (tk_mask s))\<rparr>)"
begin

lemma stdin_keeps:
  assumes P: "P (tk_clients s) s" and "talk_stdin s = Some (go, s')"
  shows "P (tk_clients s') s'"
proof -
  obtain s1 where s1: "same_talk s s1" "tk_clients s1 = tk_clients s"
    and "s' = s1 \<or> (\<exists>b as pr. SendAllbut 0 b (tk_clients s) = Some as \<and> s' = s1\<lparr>tk_clients := as, tk_printed := pr\<rparr>)"
    by (rule talk_stdin_cases [OF assms(2)])
  then show ?thesis
  proof (elim disjE exE conjE)
    assume "s' = s1"
    with same [OF P s1(1)] s1(2) show ?thesis by simp
  next
    fix b as pr assume as: "SendAllbut 0 b (tk_clients s) = Some as"
      and s': "s' = s1\<lparr>tk_clients := as, tk_printed := pr\<rparr>"
    have "P as s'" by (rule same [OF announce [OF P as]]) (use s1(1) in \<open>simp add: s' same_talk_def\<close>)
    then show ?thesis by (simp add: s')
  qed
qed

lemma main_round_keeps:
  assumes P: "P (tk_clients s) s" and f: "fresh_accept s" and r: "talk_round sel s = Some (True, s')"
  shows "P (tk_clients s') s'"
proof -
  define s0 where "s0 = s\<lparr>tk_mask := snd (Smaskwait sel (tk_mask s))\<rparr>"
  have s0: "P (tk_clients s0) s0" "fresh_accept s0"
    using waited [OF P] f by (simp_all add: s0_def fresh_accept_mask)
  from talk_round_cases_go [OF r, folded s0_def] show ?thesis
  proof
    assume "talk_accept s0 = Some (True, s')"
    from join [OF s0 this] show ?thesis .
  next
    assume "\<exists>w q s1. talk_clients [] (tk_clients s0) False s0 = Some (w, q, s1) \<and>
      (s' = s1 \<or> (\<exists>go. talk_stdin s1 = Some (go, s')))"
    then obtain w q s1 where "talk_clients [] (tk_clients s0) False s0 = Some (w, q, s1)"
      and s': "s' = s1 \<or> (\<exists>go. talk_stdin s1 = Some (go, s'))"
      by blast
    from clients_keep [OF this(1)] s0(1) have "P (tk_clients s1) s1" by simp
    with s' show ?thesis by (auto intro: stdin_keeps)
  qed
qed

lemma reach_keeps: "talk_reach s \<Longrightarrow> P (tk_clients s) s"
proof (induction rule: talk_reach.induct)
  case (start stack fd t s)
  then have "tk_clients s = []" by (auto simp: talk_start_def bind_eq_Some_conv)
  with first [OF start] show ?case by simp
next
  case (arrives s as a bs so)
  have "P (as @ a\<lparr>acc_conn := (acc_conn a)\<lparr>io := so\<rparr>\<rparr> # bs) s"
    by (rule touch) (use arrives in \<open>simp_all add: same_talker_def\<close>)
  then show ?case by (simp add: same)
next
  case (round s sel s')
  then show ?case by (blast intro: main_round_keeps)
qed (auto intro: same simp: same_talk_def)

end

lemma talk_accept_join:
  assumes "talk_accept s = Some (True, s')"
  obtains c ws m1 m2 where "tk_waiting s = Some c # ws" "Smaskset (Some (int (cid c))) (tk_mask s) = Some m1"
    "Smaskset (Some (int (cid c))) m1 = Some m2"
    "s' = s\<lparr>tk_waiting := ws, tk_mask := m2, tk_id := tk_id s + 1,
       tk_clients := tk_clients s @ [\<lparr>acc_id = tk_id s + 1, acc_conn = c\<rparr>]\<rparr>"
  using assms by (auto simp: talk_accept_def bind_eq_Some_conv split: list.splits option.splits if_splits)

lemma watches_join:
  assumes w: "wm.watches l id ss m" and x: "legal_fd x" "x \<noteq> l" "x \<notin> set ss"
    and m1: "Smaskset (Some x) m = Some m1" and m2: "Smaskset (Some x) m1 = Some m2"
  shows "wm.watches l id (ss @ [x]) m2"
proof -
  have "id(x := x) = (id :: int \<Rightarrow> int)" by auto
  then have w1: "wm.watches l id (ss @ [x]) m1"
    using wm.watches_add [OF w x(3,1,2)] x(3) m1 by simp
  obtain m' where "Smaskset (Some x) m1 = Some m'" "smask_inv m'" "maskfds m' = insert x (maskfds m1)"
    using wm.add_ok [of m1 x] w1 x(1) by (auto simp: wm.watches_def)
  with w1 m2 show ?thesis by (auto simp: wm.watches_def)
qed

interpretation tinv: talk_keeps talk_inv
proof
  fix stack fd t s s' b as as' sel
  show "talk_inv [] s" if st: "talk_start stack fd t = Some s" and ne: "fd \<noteq> 0"
  proof -
    obtain m where m: "Smaskset (Some fd) smask_init = Some m" "s = \<lparr>tk_clients = [], tk_id = 0, tk_buf = stack,
        tk_mask = Smaskfdset 0 m, tk_fd = fd, tk_waiting = [], tk_tty = t, tk_printed = TALK_PROMPT, tk_closed = []\<rparr>"
      using st by (auto simp: talk_start_def bind_eq_Some_conv)
    have l: "legal_fd fd" "legal_fd 0" using m(1) by (auto simp: Smaskset_def legal_fd_def FD_SETSIZE_def split: if_splits)
    then have mi: "smask_inv m" "maskfds m = {fd}" "\<not> first m"
      using m(1) smask_inv_ops(1) [OF smask_inv_init m(1)]
      by (auto simp: Smaskset_def mask_first_def mask_add_def smask_init_def)
    then have "smask_inv (Smaskfdset 0 m)" "maskfds (Smaskfdset 0 m) = {0, fd}"
      using smask_inv_ops(2) [OF mi(1), of 0] l by (simp_all add: Smaskfdset_def mask_first_def mask_add_def FD_SETSIZE_def)
    with l ne show ?thesis by (auto simp: m(2) talk_inv_def wm.watches_def)
  qed
  show "talk_inv (tk_clients s') s'"
    if inv: "talk_inv (tk_clients s) s" and f: "fresh_accept s" and acc: "talk_accept s = Some (True, s')"
  proof -
    obtain c ws m1 m2 where a: "tk_waiting s = Some c # ws" "Smaskset (Some (int (cid c))) (tk_mask s) = Some m1"
      "Smaskset (Some (int (cid c))) m1 = Some m2" and s': "s' = s\<lparr>tk_waiting := ws, tk_mask := m2,
        tk_id := tk_id s + 1, tk_clients := tk_clients s @ [\<lparr>acc_id = tk_id s + 1, acc_conn = c\<rparr>]\<rparr>"
      by (rule talk_accept_join [OF acc])
    have "wm.watches (tk_fd s) id (0 # map talk_fd (tk_clients s)) (tk_mask s)" using inv by (simp add: talk_inv_def)
    from watches_join [OF this _ _ _ a(2,3)] f a(1)
    have "wm.watches (tk_fd s) id (0 # map talk_fd (tk_clients s) @ [int (cid c)]) m2" by (simp add: fresh_accept_def)
    with inv show ?thesis by (auto simp: talk_inv_def s' talk_fd_def sorted_wrt_append list_all_iff)
  qed
  show "talk_inv as' s" if "talk_inv as s" "SendAllbut 0 b as = Some as'"
    using that(1) unfolding talk_inv_def SendAllbut_ids [OF that(2)] .
  show "talk_inv as (s\<lparr>tk_mask := snd (Smaskwait sel (tk_mask s))\<rparr>)" if "talk_inv as s"
    using that smask_inv_ops(8) [of "tk_mask s" sel] by (simp add: talk_inv_def wm.watches_def Smaskwait_def split: prod.splits)
qed

subsection \<open>The conversation\<close>

text \<open>
  The abstract conversation: who takes part, with the messages each one has been sent, in order, and
  who said them (0 is the server).
\<close>

type_synonym mailbox = "int \<times> (int \<times> string) list"

datatype chat_event = Join | Leave int | Say int string

fun chat_step :: "chat_event \<Rightarrow> int \<times> mailbox list \<Rightarrow> int \<times> mailbox list" where
  "chat_step Join (n, ms) = (n + 1, ms @ [(n + 1, [])])"
| "chat_step (Leave i) (n, ms) = (n, filter (\<lambda>m. fst m \<noteq> i) ms)"
| "chat_step (Say i t) (n, ms) = (n, map (\<lambda>(j, b). if j = i then (j, b) else (j, b @ [(i, t)])) ms)"

definition chat_run :: "chat_event list \<Rightarrow> int \<times> mailbox list" where
  "chat_run evs = fold chat_step evs (0, [])"

definition wire :: "int \<times> string \<Rightarrow> string" where
  \<comment> \<open>a message as it is sent\<close>
  "wire m = cstring_bytes (''m'' @ string_of_int (fst m) @ '' '' @ snd m)"

definition in_mailbox :: "talker \<Rightarrow> mailbox \<Rightarrow> bool" where
  "in_mailbox a m \<longleftrightarrow> acc_id a = fst m \<and> out (acc_conn a) = concat (map wire (snd m))"

definition chatting :: "talker list \<Rightarrow> talk \<Rightarrow> bool" where
  \<comment> \<open>the server's state is a state of the conversation\<close>
  "chatting as s \<longleftrightarrow> (\<exists>evs ms. chat_run evs = (tk_id s, ms) \<and> list_all2 in_mailbox as ms)"

lemma chat_run_snoc: "chat_run (evs @ [e]) = chat_step e (chat_run evs)"
  by (simp add: chat_run_def)

lemma chat_ids:
  "chat_run evs = (n, ms) \<Longrightarrow> 0 \<le> n \<and> sorted_wrt (<) (map fst ms) \<and> (\<forall>i\<in>fst ` set ms. 0 < i \<and> i \<le> n)"
proof (induction evs arbitrary: n ms rule: rev_induct)
  case (snoc e evs)
  obtain n0 ms0 where r: "chat_run evs = (n0, ms0)" by (cases "chat_run evs")
  note IH = snoc.IH [OF r]
  show ?case
  proof (cases e)
    case (Leave i)
    have "sorted_wrt (<) (map fst (filter (\<lambda>m. fst m \<noteq> i) ms0))"
      using IH by (auto simp: sorted_wrt_map intro: sorted_wrt_filter)
    with snoc.prems r IH Leave show ?thesis by (auto simp: chat_run_snoc)
  next
    case (Say i t)
    with snoc.prems r have "n = n0" "map fst ms = map fst ms0" by (auto simp: chat_run_snoc)
    with IH show ?thesis by (metis list.set_map)
  next
    case Join
    have "i \<le> n0 + 1" if "(i, b) \<in> set ms0" for i b using IH that by force
    with snoc.prems r IH Join show ?thesis by (auto simp: chat_run_snoc sorted_wrt_append)
  qed
qed (simp add: chat_run_def)

lemma say_mailboxes:
  "SendAllbut n b as = Some as' \<Longrightarrow> list_all2 in_mailbox as ms \<Longrightarrow>
   list_all2 in_mailbox as' (map (\<lambda>(j, x). (j, x @ [(n, cstr b)])) ms)"
proof (induction as arbitrary: as' ms)
  case (Cons a as)
  then obtain j x ms' where ms: "ms = (j, x) # ms'" "in_mailbox a (j, x)" "list_all2 in_mailbox as ms'"
    by (auto simp: list_all2_Cons1)
  obtain k r where k: "Sprintf (Some (acc_conn a)) ''m%d %s'' [AInt n, AStr b] = Some k" "SendAllbut n b as = Some r"
      "as' = a\<lparr>acc_conn := the (snd k)\<rparr> # r"
    using Cons.prems(1) by (auto simp: bind_eq_Some_conv)
  have "in_mailbox (a\<lparr>acc_conn := the (snd k)\<rparr>) (j, x @ [(n, cstr b)])"
    using k(1) ms(2) by (auto simp: Sprintf_def in_mailbox_def wire_def bind_eq_Some_conv split: if_splits)
  with Cons.IH [OF k(2) ms(3)] k(3) ms(1) show ?case by simp
qed simp

interpretation chat: talk_moves chatting
proof
  fix as bs a a' s s' b as' bs'
  show "chatting (as @ a' # bs) s" if "chatting (as @ a # bs) s" "same_talker a a'"
    using that by (auto simp: chatting_def list_all2_append1 list_all2_Cons1 same_talker_def in_mailbox_def)
  show "chatting as s'" if "chatting as s" "same_talk s s'"
    using that by (simp add: chatting_def same_talk_def)
  show "chatting (as @ bs) s'" if c: "chatting (as @ a # bs) s" and rm: "RemoveAccpt a s = Some s'"
  proof -
    obtain evs ms where r: "chat_run evs = (tk_id s, ms)" and l: "list_all2 in_mailbox (as @ a # bs) ms"
      using c by (auto simp: chatting_def)
    then obtain xs m ys where ms: "ms = xs @ m # ys" "list_all2 in_mailbox as xs" "in_mailbox a m" "list_all2 in_mailbox bs ys"
      by (auto simp: list_all2_append1 list_all2_Cons1)
    have "sorted_wrt (<) (map fst ms)" using chat_ids [OF r] by simp
    then have "\<forall>x\<in>set xs \<union> set ys. fst x \<noteq> acc_id a"
      using ms(3) by (fastforce simp: ms(1) in_mailbox_def sorted_wrt_append)
    then have "filter (\<lambda>x. fst x \<noteq> acc_id a) ms = xs @ ys"
      using ms(3) by (simp add: ms(1) in_mailbox_def filter_id_conv)
    then have "chat_run (evs @ [Leave (acc_id a)]) = (tk_id s', xs @ ys)"
      using r rm by (auto simp: chat_run_snoc RemoveAccpt_def bind_eq_Some_conv)
    with ms(2,4) show ?thesis unfolding chatting_def by (blast intro: list_all2_appendI)
  qed
  show "chatting (as' @ a # bs') s" if c: "chatting (as @ a # bs) s"
      and s1: "SendAllbut (acc_id a) b as = Some as'" and s2: "SendAllbut (acc_id a) b bs = Some bs'"
  proof -
    obtain evs ms where r: "chat_run evs = (tk_id s, ms)" and l: "list_all2 in_mailbox (as @ a # bs) ms"
      using c by (auto simp: chatting_def)
    then obtain xs m ys where ms: "ms = xs @ m # ys" "list_all2 in_mailbox as xs" "in_mailbox a m" "list_all2 in_mailbox bs ys"
      by (auto simp: list_all2_append1 list_all2_Cons1)
    let ?f = "\<lambda>(j, x). (j, x @ [(acc_id a, cstr b)])"
    have "sorted_wrt (<) (map fst ms)" using chat_ids [OF r] by simp
    then have "\<forall>x\<in>set xs \<union> set ys. fst x \<noteq> acc_id a"
      using ms(3) by (fastforce simp: ms(1) in_mailbox_def sorted_wrt_append)
    then have "map (\<lambda>(j, x). if j = acc_id a then (j, x) else (j, x @ [(acc_id a, cstr b)])) ms = map ?f xs @ m # map ?f ys"
      using ms(3) by (cases m) (force simp: ms(1) in_mailbox_def)
    then have "chat_run (evs @ [Say (acc_id a) (cstr b)]) = (tk_id s, map ?f xs @ m # map ?f ys)"
      using r by (simp add: chat_run_snoc)
    moreover have "list_all2 in_mailbox (as' @ a # bs') (map ?f xs @ m # map ?f ys)"
      using say_mailboxes [OF s1 ms(2)] say_mailboxes [OF s2 ms(4)] ms(3) by (simp add: list_all2_appendI)
    ultimately show ?thesis unfolding chatting_def by blast
  qed
qed

interpretation chat: talk_keeps chatting
proof
  fix stack fd t s s' b as as' sel
  show "chatting [] s" if "talk_start stack fd t = Some s" "fd \<noteq> 0"
  proof -
    have "chat_run [] = (tk_id s, [])" using that(1) by (auto simp: talk_start_def chat_run_def bind_eq_Some_conv)
    then show ?thesis unfolding chatting_def by blast
  qed
  show "chatting (tk_clients s') s'"
    if c: "chatting (tk_clients s) s" and f: "fresh_accept s" and acc: "talk_accept s = Some (True, s')"
  proof -
    obtain k ws m1 m2 where a: "tk_waiting s = Some k # ws" and s': "s' = s\<lparr>tk_waiting := ws, tk_mask := m2,
        tk_id := tk_id s + 1, tk_clients := tk_clients s @ [\<lparr>acc_id = tk_id s + 1, acc_conn = k\<rparr>]\<rparr>"
      by (rule talk_accept_join [OF acc])
    obtain evs ms where r: "chat_run evs = (tk_id s, ms)" and l: "list_all2 in_mailbox (tk_clients s) ms"
      using c by (auto simp: chatting_def)
    have "chat_run (evs @ [Join]) = (tk_id s', ms @ [(tk_id s + 1, [])])" using r by (simp add: chat_run_snoc s')
    moreover have "list_all2 in_mailbox (tk_clients s') (ms @ [(tk_id s + 1, [])])"
      using l f a by (simp add: s' in_mailbox_def fresh_accept_def list_all2_appendI)
    ultimately show ?thesis unfolding chatting_def by blast
  qed
  show "chatting as' s" if c: "chatting as s" and s1: "SendAllbut 0 b as = Some as'"
  proof -
    obtain evs ms where r: "chat_run evs = (tk_id s, ms)" and l: "list_all2 in_mailbox as ms"
      using c by (auto simp: chatting_def)
    have "map (\<lambda>(j, x). if j = 0 then (j, x) else (j, x @ [(0, cstr b)])) ms = map (\<lambda>(j, x). (j, x @ [(0, cstr b)])) ms"
      using chat_ids [OF r] by force
    then have "chat_run (evs @ [Say 0 (cstr b)]) = (tk_id s, map (\<lambda>(j, x). (j, x @ [(0, cstr b)])) ms)"
      using r by (simp add: chat_run_snoc)
    with say_mailboxes [OF s1 l] show ?thesis unfolding chatting_def by blast
  qed
  show "chatting as (s\<lparr>tk_mask := snd (Smaskwait sel (tk_mask s))\<rparr>)" if "chatting as s"
    using that by (simp add: chatting_def)
qed

lemma talk_reach_inv: "talk_reach s \<Longrightarrow> talk_inv (tk_clients s) s"
  by (rule tinv.reach_keeps)

lemma talk_reach_chats: "talk_reach s \<Longrightarrow> chatting (tk_clients s) s"
  by (rule chat.reach_keeps)

subsection \<open>The order of the messages\<close>

definition heard :: "int \<Rightarrow> (int \<times> string) list \<Rightarrow> (int \<times> string) list" where
  \<comment> \<open>the messages that are not by \<open>j\<close>\<close>
  "heard j b = filter (\<lambda>m. fst m \<noteq> j) b"

lemma heard_snoc: "heard j (b @ [m]) = (if fst m \<noteq> j then heard j b @ [m] else heard j b)"
  by (simp add: heard_def)

lemma suffix_snoc: "suffix (x @ [m]) (y @ [m]) \<longleftrightarrow> suffix x y"
  by (auto simp: suffix_def)

definition in_order :: "mailbox \<Rightarrow> mailbox \<Rightarrow> bool" where
  \<comment> \<open>what a later client has heard from others, an earlier one has heard last\<close>
  "in_order x y \<longleftrightarrow> suffix (heard (fst x) (snd y)) (heard (fst y) (snd x))"

lemma in_order_say:
  assumes "in_order (i, x) (j, y)"
  shows "in_order (if i = k then (i, x) else (i, x @ [(k, t)])) (if j = k then (j, y) else (j, y @ [(k, t)]))"
  using assms by (auto simp: in_order_def heard_snoc suffix_snoc)

lemma chat_in_order: "chat_run evs = (n, ms) \<Longrightarrow> sorted_wrt in_order ms"
proof (induction evs arbitrary: n ms rule: rev_induct)
  case (snoc e evs)
  obtain n0 ms0 where r: "chat_run evs = (n0, ms0)" by (cases "chat_run evs")
  note IH = snoc.IH [OF r]
  show ?case
  proof (cases e)
    case (Leave i)
    with snoc.prems r IH show ?thesis by (auto simp: chat_run_snoc intro: sorted_wrt_filter)
  next
    case (Say k t)
    let ?f = "\<lambda>(j, b). if j = k then (j, b) else (j, b @ [(k, t)])"
    have "sorted_wrt (\<lambda>x y. in_order (?f x) (?f y)) ms0"
    proof (rule sorted_wrt_mono_rel [OF _ IH])
      fix x y assume "in_order x y"
      then show "in_order (?f x) (?f y)" by (cases x, cases y) (simp add: in_order_say)
    qed
    with snoc.prems r Say show ?thesis by (auto simp: chat_run_snoc sorted_wrt_map)
  qed (use snoc.prems r IH in \<open>auto simp: chat_run_snoc sorted_wrt_append in_order_def heard_def\<close>)
qed (simp add: chat_run_def)

subsection \<open>The way of a message\<close>

definition silent_talker :: "talker \<Rightarrow> bool" where
  \<comment> \<open>nothing is there to be read\<close>
  "silent_talker a = (queue (io (acc_conn a)) = [] \<and> ending (io (acc_conn a)) = StillOpen \<and> sk_type (io (acc_conn a)) = PM_ACCEPT)"

definition say_to :: "int \<times> string \<Rightarrow> talker \<Rightarrow> talker" where
  "say_to m a = a\<lparr>acc_conn := put_bytes (wire m) (acc_conn a)\<rparr>"

definition sayable :: "int \<times> string \<Rightarrow> bool" where
  \<comment> \<open>a number that fits and a text as \<open>Sgets\<close> can give it\<close>
  "sayable m = (0 \<le> fst m \<and> fst m < 2147483648 \<and> NUL \<notin> set (snd m) \<and> length (snd m) < TALK_BUFSIZE)"

lemma number_length: "0 \<le> n \<Longrightarrow> n < 2147483648 \<Longrightarrow> length (string_of_int n) \<le> 10"
  using digits10_length_le [of n 10] by (simp add: string_of_int_def)

lemma message_fits:
  "sayable m \<Longrightarrow> length (''m'' @ string_of_int (fst m) @ '' '' @ snd m) < PM_BIGBUF"
  using number_length [of "fst m"] by (simp add: sayable_def TALK_BUFSIZE_def PM_BIGBUF_def)

lemma SendAllbut_says:
  assumes "sayable (n, b)"
  shows "SendAllbut n b as = Some (map (say_to (n, b)) as)"
proof (induction as)
  case (Cons a as)
  have "cstr b = b" using assms by (simp add: sayable_def cstr_self)
  with Cons message_fits [OF assms] show ?case by (simp add: Sprintf_def say_to_def wire_def)
qed simp

lemma silent_talker_skipped:
  assumes "list_all silent_talker qs"
  shows "talk_clients seen (qs @ todo) d s = talk_clients (seen @ qs) todo d s"
  using assms
proof (induction qs arbitrary: seen)
  case (Cons a qs)
  have "Stest (Some (io (acc_conn a))) = Some (0, Some (io (acc_conn a)))"
    using Cons.prems by (simp add: silent_talker_def Stest_def select_now_def readable_def Let_def)
  with Cons show ?case by (subst talk_clients.simps) (simp add: talk_client_round_def)
qed simp

lemma Stest_fed: "q \<noteq> [] \<Longrightarrow> z \<noteq> SelectError \<Longrightarrow> \<exists>r>0. Stest (Some (flat PM_ACCEPT q z)) = Some (r, Some (flat PM_ACCEPT q z))"
  by (cases q) (auto simp: Stest_def select_now_def readable_def Let_def peek_count_def recv_peek_eq PM_BIGBUF_def)

lemma silent_talker_say_to [simp]: "silent_talker (say_to m a) = silent_talker a"
  by (simp add: silent_talker_def say_to_def)

lemma message_request:
  assumes "acc_conn a = fed k (cstring_bytes (''m'' @ txt) @ q) z" and "z \<noteq> SelectError" and "NUL \<notin> set txt"
    and "length txt + 4 \<le> TALK_BUFSIZE" and "sayable (acc_id a, stpblk txt)"
  shows "\<exists>s'. talk_client_round seen a rest d s = Some (map (say_to (acc_id a, stpblk txt)) seen @ [a\<lparr>acc_conn := fed k q z\<rparr>],
      map (say_to (acc_id a, stpblk txt)) rest, True, False, s') \<and> same_talk s s' \<and> tk_tty s' = tk_tty s \<and>
      tk_printed s' = tk_printed s @ (NEWLINE # ''client#'') @ string_of_int (acc_id a) @ '': '' @ stpblk txt @ [NEWLINE] @ TALK_PROMPT"
proof -
  obtain r where r: "0 < r" "Stest (Some (io (acc_conn a))) = Some (r, Some (io (acc_conn a)))"
    using Stest_fed [of "cstring_bytes (''m'' @ txt) @ q" z] assms(1,2) by (auto simp: cstring_bytes_def)
  have m: "cstr (''m'' @ txt) = ''m'' @ txt" using assms(3) by (intro cstr_self) (auto simp: NUL_def)
  have "fits_buf TALK_BUFSIZE (''m'' @ txt)" using assms(4) unfolding fits_buf_def m by simp
  then obtain buf where rd: "read_string (tk_buf s) TALK_BUFSIZE (acc_conn a) = Some (True, buf, fed k q z)"
    and buf: "cstr buf = ''m'' @ txt"
    using read_string_fed [of TALK_BUFSIZE "''m'' @ txt" "tk_buf s" k q z] assms(1) m by auto
  have b0: "buf ! 0 = CHR ''m''" using buf by (cases buf) (auto simp: cstr_def split: if_splits)
  have b: "cstr (stpblk txt) = stpblk txt"
    using assms(3) by (intro cstr_self) (auto simp: stpblk_def dest: set_dropWhileD)
  show ?thesis
    using r rd buf b0 b SendAllbut_says [OF assms(5)]
    by (simp add: talk_client_round_def talk_request_def print_message_def Let_def same_talk_def NEWLINE_def)
qed

lemma message_relayed:
  assumes "tk_clients s = as @ a # bs" and "list_all silent_talker as" and "list_all silent_talker bs" and "tk_waiting s = []"
    and "0 < fst (Smaskwait sel (tk_mask s))"
    and "acc_conn a = fed k (cstring_bytes (''m'' @ txt) @ q) z" and "z \<noteq> SelectError" and "NUL \<notin> set txt"
    and "length txt + 4 \<le> TALK_BUFSIZE" and "sayable (acc_id a, stpblk txt)"
  shows "\<exists>s'. talk_round sel s = Some (True, s') \<and>
    tk_clients s' = map (say_to (acc_id a, stpblk txt)) as @ a\<lparr>acc_conn := fed k q z\<rparr> # map (say_to (acc_id a, stpblk txt)) bs \<and>
    tk_tty s' = tk_tty s \<and>
    tk_printed s' = tk_printed s @ (NEWLINE # ''client#'') @ string_of_int (acc_id a) @ '': '' @ stpblk txt @ [NEWLINE] @ TALK_PROMPT"
proof -
  obtain n m where w: "Smaskwait sel (tk_mask s) = (n, m)" "0 < n" using assms(5) by (cases "Smaskwait sel (tk_mask s)") auto
  define s0 where "s0 = s\<lparr>tk_mask := m\<rparr>"
  obtain s1 where s1: "talk_client_round as a bs False s0 = Some (map (say_to (acc_id a, stpblk txt)) as @ [a\<lparr>acc_conn := fed k q z\<rparr>],
      map (say_to (acc_id a, stpblk txt)) bs, True, False, s1)" "tk_tty s1 = tk_tty s0"
      "tk_printed s1 = tk_printed s0 @ (NEWLINE # ''client#'') @ string_of_int (acc_id a) @ '': '' @ stpblk txt @ [NEWLINE] @ TALK_PROMPT"
    using message_request [OF assms(6-10), of as bs False s0] by blast
  have bs: "list_all silent_talker (map (say_to (acc_id a, stpblk txt)) bs)" using assms(3) by (simp add: list_all_iff)
  let ?cs = "map (say_to (acc_id a, stpblk txt)) as @ a\<lparr>acc_conn := fed k q z\<rparr> # map (say_to (acc_id a, stpblk txt)) bs"
  have "talk_clients [] (tk_clients s0) False s0 = Some (True, False, s1\<lparr>tk_clients := ?cs\<rparr>)"
    using silent_talker_skipped [OF assms(2), of "[]" "a # bs" False s0] s1(1) silent_talker_skipped [OF bs, of _ "[]" True s1]
    by (simp add: s0_def assms(1), subst talk_clients.simps, simp, subst talk_clients.simps, simp)
  then have "talk_round sel s = Some (True, s1\<lparr>tk_clients := ?cs\<rparr>)"
    using w assms(4) by (simp add: talk_round_def Stest_srvr s0_def)
  with s1(2,3) show ?thesis by (simp add: s0_def)
qed

lemma wire_read:
  assumes "sayable (n, t)" and "length t + 16 \<le> TALK_BUFSIZE" and "z \<noteq> SelectError"
  shows "\<exists>buf. read_string b TALK_BUFSIZE (fed k (wire (n, t)) z) = Some (True, buf, fed k [] z) \<and>
    cstr buf = ''m'' @ string_of_int n @ '' '' @ t"
proof -
  have "NUL \<notin> set (''m'' @ string_of_int n @ '' '' @ t)"
    using assms(1) number_no_NUL [of n] by (auto simp: sayable_def NUL_def)
  then have c: "cstr (''m'' @ string_of_int n @ '' '' @ t) = ''m'' @ string_of_int n @ '' '' @ t" by (rule cstr_self)
  have "length (string_of_int n) \<le> 10" using assms(1) by (intro number_length) (simp_all add: sayable_def)
  then have "fits_buf TALK_BUFSIZE (''m'' @ string_of_int n @ '' '' @ t)"
    using assms(2) unfolding fits_buf_def c by simp
  from read_string_fed [OF this, of b k "[]" z] show ?thesis unfolding c by (simp add: wire_def)
qed

lemma cstr_drop: "cstr buf = xs \<Longrightarrow> n \<le> length xs \<Longrightarrow> cstr (drop n buf) = drop n xs"
  unfolding cstr_def
proof (induction n arbitrary: buf xs)
  case (Suc n)
  then show ?case by (cases buf; cases xs) (auto split: if_splits)
qed simp

lemma format_d_scan: "sscanf s ''%d'' = (case scan_int s of None \<Rightarrow> [] | Some (i, t) \<Rightarrow> [CInt i])"
  by (simp add: sscanf_def format_d(2) split: option.split prod.split)

lemma client_message_prints:
  assumes "sayable (n, t)" and "cstr (tc_buf c) = ''m'' @ string_of_int n @ '' '' @ t"
  shows "client_message c = Some (c\<lparr>tc_id := n, tc_printed := tc_printed c @ [NEWLINE] @
    (if n = 0 then ''server '' @ t else ''client'' @ string_of_int n @ '' '' @ t) @ [NEWLINE] @ CLIENT_PROMPT\<rparr>)"
proof -
  have d1: "cstr (drop 1 (tc_buf c)) = string_of_int n @ '' '' @ t"
    using cstr_drop [OF assms(2), of 1] by simp
  have "scan_int (string_of_int n @ '' '' @ t) = Some (n, '' '' @ t)"
    using assms(1) by (intro scan_int_string_of_int) (auto simp: sayable_def c_isdigit_def)
  then have sc: "sscanf (string_of_int n @ CHR '' '' # t) ''%d'' = [CInt n]" by (simp add: format_d_scan)
  have d2: "cstr (drop 2 (tc_buf c)) = '' '' @ t" if "n = 0"
    using cstr_drop [OF assms(2), of 2] that digits10_0 by (simp add: string_of_int_def)
  show ?thesis
    using d1 d2 sc by (cases "n = 0") (simp_all add: client_message_def sc NEWLINE_def Let_def del: One_nat_def)
qed

lemma client_prints:
  assumes "tc_skt c = Some sk" and "sk_conn sk = fed k (wire (n, t)) z" and "sayable (n, t)"
    and "length t + 16 \<le> TALK_BUFSIZE" and "z \<noteq> SelectError"
  shows "\<exists>c'. client_round nw sel c = Some (True, c') \<and> tc_skt c' = Some (sk\<lparr>sk_conn := fed k [] z\<rparr>) \<and>
    tc_printed c' = tc_printed c @ [NEWLINE] @
      (if n = 0 then ''server '' @ t else ''client'' @ string_of_int n @ '' '' @ t) @ [NEWLINE] @ CLIENT_PROMPT"
proof -
  obtain r where r: "0 < r" "Stest (Some (io (sk_conn sk))) = Some (r, Some (io (sk_conn sk)))"
    using Stest_fed [of "wire (n, t)" z] assms(2,5) by (auto simp: wire_def cstring_bytes_def)
  obtain buf where rd: "read_string (tc_buf c) TALK_BUFSIZE (sk_conn sk) = Some (True, buf, fed k [] z)"
    and buf: "cstr buf = ''m'' @ string_of_int n @ '' '' @ t"
    using wire_read [OF assms(3,4,5), of "tc_buf c" k] assms(2) by auto
  have b0: "buf ! 0 = CHR ''m''" using buf by (cases buf) (auto simp: cstr_def split: if_splits)
  show ?thesis
    using r rd b0 assms(1) client_message_prints [OF assms(3), of "_\<lparr>tc_buf := buf\<rparr>"] buf
    by (simp add: client_round_def client_received_def client_send_def Let_def split: prod.split)
qed

definition typed_line :: "string \<Rightarrow> bool" where
  \<comment> \<open>a line that is sent as a message, as it is\<close>
  "typed_line l \<longleftrightarrow> l \<noteq> [] \<and> l \<noteq> ''q'' \<and> l \<noteq> ''Q'' \<and> NUL \<notin> set l \<and> NEWLINE \<notin> set l \<and> \<not> c_isspace (last l) \<and>
     length l + 16 \<le> TALK_BUFSIZE"

lemma srmtrblk_prefix: "\<exists>w. s = srmtrblk s @ w"
proof -
  let ?P = "\<lambda>c. c_isspace c \<and> c \<noteq> FF"
  have "rev s = takeWhile ?P (rev s) @ dropWhile ?P (rev s)" by simp
  then have "s = rev (dropWhile ?P (rev s)) @ rev (takeWhile ?P (rev s))" by (metis rev_append rev_rev_ident)
  then show ?thesis unfolding srmtrblk_def by blast
qed

lemma cstr_trim_buf: "cstr (trim_buf buf) = srmtrblk (cstr buf)"
proof -
  obtain w where w: "cstr buf = srmtrblk (cstr buf) @ w" using srmtrblk_prefix by blast
  have buf: "buf = cstr buf @ drop (length (cstr buf)) buf"
    unfolding cstr_def by (simp add: dropWhile_eq_drop [symmetric])
  have nul: "NUL \<notin> set (srmtrblk (cstr buf))" using cstr_no_NUL [of buf] w by (metis Un_iff set_append)
  show ?thesis
  proof (cases w)
    case Nil
    then have "trim_buf buf = buf" using w buf by (simp add: trim_buf_def Let_def overwrite_def)
    with w Nil show ?thesis by simp
  next
    case (Cons x xs)
    have "length (cstr buf) - length (srmtrblk (cstr buf)) = Suc (length xs)"
      using arg_cong [OF w, of length] Cons by simp
    then obtain r where r: "trim_buf buf = srmtrblk (cstr buf) @ NUL # r"
      by (simp add: trim_buf_def Let_def overwrite_def)
    show ?thesis unfolding r using cstr_append [OF nul, of "NUL # r"] by (simp add: cstr_def [of "NUL # r"])
  qed
qed

lemma typed_line_read:
  assumes "typed_line l" and "tty_text t = l @ NEWLINE # later"
  shows "\<exists>buf. fgets_tty TALK_BUFSIZE b t = Some (buf, t\<lparr>tty_text := later\<rparr>) \<and> cstr (trim_buf buf) = l"
proof -
  have len: "length l + 1 < TALK_BUFSIZE" and nl: "NEWLINE \<notin> set l" and nul: "NUL \<notin> set l" and ne: "l \<noteq> []" "\<not> c_isspace (last l)"
    using assms(1) by (auto simp: typed_line_def)
  have g: "fgets TALK_BUFSIZE (tty_text t) = Some (l @ [NEWLINE], later)"
    using nl len unfolding assms(2) by (rule fgets_line)
  let ?buf = "overwrite (l @ [NEWLINE, NUL]) b"
  have c: "cstr ?buf = l @ [NEWLINE]"
    using nul cstr_append [of "l @ [NEWLINE]" "NUL # drop (length l + 2) b"] by (simp add: overwrite_def NEWLINE_def NUL_def cstr_def)
  have t: "srmtrblk (l @ [NEWLINE]) = l"
    by (rule srmtrblk_word(2) [OF ne])
  have "cstr (trim_buf ?buf) = l"
    by (simp only: cstr_trim_buf c t)
  with g show ?thesis by (simp add: fgets_tty_def line_there_def assms(2))
qed

lemma client_sends:
  assumes "typed_line l" and "tty_text (tc_tty c) = l @ NEWLINE # later"
    and "tc_skt c = Some sk" and "sk_conn sk = fed k [] StillOpen"
  shows "\<exists>c'. client_round nw sel c = Some (True, c') \<and>
    tc_skt c' = Some (sk\<lparr>sk_conn := put_bytes (cstring_bytes (''m'' @ l)) (sk_conn sk)\<rparr>) \<and>
    tc_tty c' = (tc_tty c)\<lparr>tty_text := later\<rparr>"
proof -
  have t: "Stest (Some (io (sk_conn sk))) = Some (0, Some (io (sk_conn sk)))"
    by (simp add: assms(4) Stest_def select_now_def readable_def)
  obtain buf where b: "fgets_tty TALK_BUFSIZE (tc_buf c) (tc_tty c) = Some (buf, (tc_tty c)\<lparr>tty_text := later\<rparr>)"
    "cstr (trim_buf buf) = l"
    using typed_line_read [OF assms(1,2)] by blast
  have l: "l \<noteq> ''q''" "l \<noteq> ''Q''" "length (''m'' @ l) < PM_BIGBUF"
    using assms(1) by (auto simp: typed_line_def TALK_BUFSIZE_def PM_BIGBUF_def)
  have s: "Sprintf (Some (sk_conn sk)) ''m%s'' [AStr (trim_buf buf)] =
      Some (int (length (''m'' @ l)), Some (put_bytes (cstring_bytes (''m'' @ l)) (sk_conn sk)))"
    using l(3) b(2) by (simp add: Sprintf_def)
  have k: "(sk_conn sk)\<lparr>io := flat PM_ACCEPT [] StillOpen\<rparr> = sk_conn sk" by (simp add: assms(4))
  show ?thesis
    using t b l(1,2) s assms(3)
    by (simp add: client_round_def client_typed_def read_typed_def client_send_def Let_def k split: prod.split)
qed

lemma remove_all_inv:
  "talk_inv as s \<Longrightarrow> \<exists>s'. remove_all as s = Some s' \<and> tk_clients s' = [] \<and> talk_inv [] s' \<and> tk_fd s' = tk_fd s \<and>
     tk_closed s' = tk_closed s @ map (\<lambda>a. put_string ''q'' (acc_conn a)) as"
proof (induction as arbitrary: s)
  case Nil
  then show ?case by (auto simp: talk_inv_def)
next
  case (Cons a as)
  obtain s1 where s1: "RemoveAccpt a s = Some s1" using RemoveAccpt_inv(1) [of "[]" a as s] Cons.prems by auto
  then have "talk_inv as s1" using RemoveAccpt_inv(2) [of "[]" a as s s1] Cons.prems by simp
  from Cons.IH [OF this] s1 show ?case by (auto simp: RemoveAccpt_def bind_eq_Some_conv)
qed

lemma vanished_client_blocks:
  \<comment> \<open>the only client has gone: it is removed, and the server waits for the terminal\<close>
  assumes "tk_clients s = [a]" and "acc_conn a = fed k [] PeerClosed" and "tk_waiting s = []"
    and "0 < fst (Smaskwait sel (tk_mask s))" and "\<not> line_there TALK_BUFSIZE (tk_tty s)"
  shows "talk_round sel s = None"
proof -
  obtain n m where w: "Smaskwait sel (tk_mask s) = (n, m)" "0 < n" using assms(4) by (cases "Smaskwait sel (tk_mask s)") auto
  have t: "Stest (Some (flat PM_ACCEPT [] PeerClosed)) = Some (- 1, Some (flat PM_ACCEPT [] PeerClosed))"
    by (simp add: Stest_def select_now_def readable_def peek_count_def recv_peek_eq)
  let ?s0 = "s\<lparr>tk_mask := m\<rparr>"
  have "talk_clients [] [a] False ?s0 = None \<or> (\<exists>s1. talk_clients [] [a] False ?s0 = Some (False, False, s1) \<and> tk_tty s1 = tk_tty s)"
    by (subst (1 2) talk_clients.simps)
      (auto simp: talk_client_round_def assms(2) t RemoveAccpt_def talk_clients.simps [of "[]" "[]"] bind_eq_Some_conv
        split: option.split)
  moreover have "talk_stdin s1 = None" if "tk_tty s1 = tk_tty s" for s1
    using that assms(5) by (simp add: talk_stdin_def fgets_tty_def)
  ultimately show ?thesis using w assms(1,3) by (auto simp: talk_round_def Stest_srvr)
qed

end
