(* ===== verification/Ssl_Examples.thy ===== *)
theory Ssl_Examples
  imports Ssl_Talk
begin

text \<open>
  The other examples of the sockets library: the echo server \<open>EXAMPLES/multiskt.c\<close>, the smallest server
  and client, \<open>smsrvr.c\<close> and \<open>smclient.c\<close>, the client \<open>sktpoll.c\<close> that polls, the forking server
  \<open>sktfork.c\<close>, the server \<open>sktsig.c\<close> that is woken by a signal, and \<open>oobsend.c\<close> and \<open>oobrecv.c\<close> with their
  out-of-band byte.

  What a program prints is a list of lines.  Signals and processes are given by what they deliver: the
  results of \<open>fork\<close>, \<open>wait\<close>, \<open>send\<close> and \<open>recv\<close> for out-of-band data are arguments.
\<close>

subsection \<open>multiskt\<close>

definition MULTI_BUFSIZE :: nat where
  "MULTI_BUFSIZE = 128"

record multi =
  ms_clients :: "talker list"            \<comment> \<open>from \<open>shd\<close> to \<open>stl\<close>\<close>
  ms_buf :: string
  ms_mask :: smask
  ms_waiting :: "conn option list"
  ms_printed :: "string list"
  ms_closed :: "conn list"

definition multi_open :: "net \<Rightarrow> netst \<Rightarrow> (socket option \<times> netst) option" where
  \<comment> \<open>servers of that name are removed if the first attempt fails\<close>
  "multi_open nw st = do {
     (srvr, st1) \<leftarrow> Sopen nw (Some ''multiskt'') ''s'' st;
     if srvr \<noteq> None then Some (srvr, st1)
     else do {
       (_, _, st2) \<leftarrow> Srmsrvr nw ''multiskt'' st1;
       Sopen nw (Some ''multiskt'') ''s'' st2 } }"

definition multi_start :: "string \<Rightarrow> int \<Rightarrow> multi option" where
  \<comment> \<open>with what the stack holds and the descriptor of the server\<close>
  "multi_start stack fd = do {
     m \<leftarrow> Smaskset (Some fd) smask_init;
     Some \<lparr>ms_clients = [], ms_buf = stack, ms_mask = m, ms_waiting = [], ms_printed = [], ms_closed = []\<rparr> }"

definition next_id :: "talker list \<Rightarrow> int" where
  \<comment> \<open>\<open>stl->prv? (stl->prv->id + 1) : 1\<close> after the new entry has been linked\<close>
  "next_id as = (if as = [] then 1 else acc_id (last as) + 1)"

definition multi_accept :: "multi \<Rightarrow> multi option" where
  \<comment> \<open>\<open>continue\<close> goes to the condition of the loop\<close>
  "multi_accept s = (case ms_waiting s of
     [] \<Rightarrow> None
   | None # ws \<Rightarrow> Some (s\<lparr>ms_waiting := ws\<rparr>)
   | Some c # ws \<Rightarrow> do {
       m \<leftarrow> Smaskset (Some (int (cid c))) (ms_mask s);
       Some (s\<lparr>ms_waiting := ws, ms_mask := m,
         ms_clients := ms_clients s @ [\<lparr>acc_id = next_id (ms_clients s), acc_conn = c\<rparr>]\<rparr>) })"

definition multi_serve :: "int \<Rightarrow> talker \<Rightarrow> multi \<Rightarrow> (talker option \<times> multi) option" where
  \<comment> \<open>something waits on this socket; what \<open>Sgets\<close> returns is not looked at.  \<open>Smaskunset\<close> reads the
     descriptor from the memory that \<open>Sclose\<close> has freed: \<open>junk\<close>\<close>
  "multi_serve junk a s = do {
     (_, buf, c1) \<leftarrow> read_string (ms_buf s) MULTI_BUFSIZE (acc_conn a);
     line \<leftarrow> vsprintf (''skt%d: mesg<%s>'' @ [NEWLINE]) [AInt (acc_id a), AStr buf];
     (_, c2) \<leftarrow> Sprintf (Some c1) (''received <%s>'' @ [NEWLINE]) [AStr (sprt (Some buf))];
     let s1 = s\<lparr>ms_buf := buf, ms_printed := ms_printed s @ [line]\<rparr>;
     (if cstr buf = ''q'' then do {
        m \<leftarrow> Smaskunset (Some junk) (ms_mask s1);
        Some (None, s1\<lparr>ms_mask := m, ms_closed := ms_closed s1 @ [the c2]\<rparr>) }
      else Some (Some (a\<lparr>acc_conn := the c2\<rparr>), s1)) }"

fun multi_clients :: "int \<Rightarrow> talker list \<Rightarrow> multi \<Rightarrow> (talker list \<times> multi) option" where
  \<comment> \<open>the loop over the clients; those that stay\<close>
  "multi_clients junk [] s = Some ([], s)"
| "multi_clients junk (a # as) s = do {
     (result, so) \<leftarrow> Stest (Some (io (acc_conn a)));
     let a1 = a\<lparr>acc_conn := (acc_conn a)\<lparr>io := the so\<rparr>\<rparr>;
     (k, s1) \<leftarrow> (if result \<noteq> 0 then multi_serve junk a1 s else Some (Some a1, s));
     (as', s2) \<leftarrow> multi_clients junk as s1;
     Some ((case k of None \<Rightarrow> as' | Some a2 \<Rightarrow> a2 # as'), s2) }"

definition multi_srvr :: "multi \<Rightarrow> ssocket" where
  "multi_srvr s = \<lparr>sk_type = PM_SERVER, queue = '''', coming = [], ending = StillOpen,
     backlog = length (ms_waiting s)\<rparr>"

definition multi_round :: "int \<Rightarrow> selector \<Rightarrow> multi \<Rightarrow> (bool \<times> multi) option" where
  \<comment> \<open>one round of \<open>do ... while(shd)\<close>; whether it goes on\<close>
  "multi_round junk sel s = do {
     let s0 = s\<lparr>ms_mask := snd (Smaskwait sel (ms_mask s))\<rparr>;
     (r, _) \<leftarrow> Stest (Some (multi_srvr s0));
     s1 \<leftarrow> (if r \<noteq> 0 then multi_accept s0
           else map_option (\<lambda>(as, s'). s'\<lparr>ms_clients := as\<rparr>) (multi_clients junk (ms_clients s0) s0));
     Some (ms_clients s1 \<noteq> [], s1) }"

subsection \<open>smsrvr, smclient and sktpoll\<close>

definition smsrvr_main :: "net \<Rightarrow> conn option \<Rightarrow> netst \<Rightarrow> netst option" where
  \<comment> \<open>with what \<open>accept\<close> gives\<close>
  "smsrvr_main nw acc st = do {
     (srvr, st1) \<leftarrow> Sopen nw (Some ''SmallServer'') ''s'' st;
     let skt = Saccept srvr acc;
     (_, c) \<leftarrow> Sprintf (map_option sk_conn skt) ''hello'' [];
     st2 \<leftarrow> Sclose nw (map_option (\<lambda>k. k\<lparr>sk_conn := the c\<rparr>) skt) st1;
     Sclose nw srvr st2 }"

partial_function (option) smclient_open :: "net \<Rightarrow> netst \<Rightarrow> (socket \<times> netst) option" where
  \<comment> \<open>once a second, until the server is there\<close>
  "smclient_open nw st = Option.bind (Sopen nw (Some ''SmallServer'') ''c'' st) (\<lambda>(skt, st1).
     case skt of Some k \<Rightarrow> Some (k, st1) | None \<Rightarrow> smclient_open nw st1)"

definition smclient_main :: "net \<Rightarrow> string \<Rightarrow> string \<Rightarrow> netst \<Rightarrow> (string \<times> netst) option" where
  \<comment> \<open>what is printed; with what the buffer holds at first, and the static variable of \<open>strnxtfmt\<close>.  A
     word of 128 characters overruns the buffer\<close>
  "smclient_main nw stack f st = do {
     (k, st1) \<leftarrow> smclient_open nw st;
     (_, vs, _, so) \<leftarrow> Sscanf (Some (io (sk_conn k))) ''%s'' 1 f;
     buf \<leftarrow> (case vs of [CStr t] \<Rightarrow> if length t < 128 then Some (overwrite (t @ [NUL]) stack) else None
            | _ \<Rightarrow> Some stack);
     line \<leftarrow> vsprintf (''buf<%s>'' @ [NEWLINE]) [AStr buf];
     st2 \<leftarrow> Sclose nw (Some (k\<lparr>sk_conn := (sk_conn k)\<lparr>io := the so\<rparr>\<rparr>)) st1;
     Some (line, st2) }"

partial_function (option) sktpoll_open :: "net \<Rightarrow> netst \<Rightarrow> (socket \<times> netst) option" where
  "sktpoll_open nw st = Option.bind (Sopenv nw ''sktpoll'' ''c'' (Some ''SKTPATH'') st) (\<lambda>(skt, st1).
     case skt of Some k \<Rightarrow> Some (k, st1) | None \<Rightarrow> sktpoll_open nw st1)"

definition sktpoll_main :: "net \<Rightarrow> netst \<Rightarrow> netst option" where
  "sktpoll_main nw st = do {
     (k, st1) \<leftarrow> sktpoll_open nw st;
     Sclose nw (Some (k\<lparr>sk_conn := put_string ''hello'' (sk_conn k)\<rparr>)) st1 }"

subsection \<open>sktfork\<close>

definition FORK_BUFSIZE :: nat where
  "FORK_BUFSIZE = 256"

definition fork_child :: "string \<Rightarrow> conn \<Rightarrow> (int \<times> string list \<times> conn) option" where
  \<comment> \<open>the child: its exit status, what it prints after the name of the socket, and the connection, which
     it closes if it has read a line\<close>
  "fork_child stack c = do {
     (ok, buf, c1) \<leftarrow> read_string stack FORK_BUFSIZE c;
     if \<not> ok then Some (0, [''***error*** unable to Sgets'' @ [NEWLINE]], c1)
     else do {
       line \<leftarrow> vsprintf (''got <%s>, goodbye!'' @ [NEWLINE]) [AStr buf];
       let c2 = put_string ''goodbye!'' c1;
       if cstr buf = ''Q'' then Some (1, [line, ''return: child 1'' @ [NEWLINE]], c2)
       else Some (0, [line, ''return: child 0'' @ [NEWLINE]], c2) } }"

datatype fork_event =
    Interrupted int        \<comment> \<open>\<open>Saccept\<close> fails: a child has ended, with what \<open>WEXITSTATUS(childstat)\<close> gives\<close>
  | Forked                 \<comment> \<open>a connection is accepted and \<open>fork\<close> succeeds\<close>
  | ForkFailed conn        \<comment> \<open>a connection is accepted and \<open>fork\<close> fails\<close>

fun fork_loop :: "net \<Rightarrow> socket \<Rightarrow> fork_event list \<Rightarrow> nat \<Rightarrow> netst \<Rightarrow> (nat \<times> netst) option" where
  \<comment> \<open>the loop of the parent and what follows it, with \<open>sktcnt\<close>; when nothing more happens, \<open>Saccept\<close>
     blocks\<close>
  "fork_loop nw srvr [] sktcnt st = None"
| "fork_loop nw srvr (e # es) sktcnt st = (case e of
     Interrupted status \<Rightarrow>
       if status = 1 then map_option (Pair sktcnt) (Sclose nw (Some srvr) st)
       else fork_loop nw srvr es sktcnt st
   | Forked \<Rightarrow> fork_loop nw srvr es (sktcnt + 1) st
   | ForkFailed c \<Rightarrow> do {
       let nskt = Saccept (Some srvr) (Some c);
       st1 \<leftarrow> Sclose nw nskt st;
       st2 \<leftarrow> Sclose nw (Some srvr) st1;
       Some (sktcnt + 1, st2) })"

definition sktfork_main :: "net \<Rightarrow> string list \<Rightarrow> fork_event list \<Rightarrow> netst \<Rightarrow> (int \<times> nat \<times> netst) option" where
  \<comment> \<open>the exit status and \<open>sktcnt\<close>\<close>
  "sktfork_main nw args es st = (case args of
     [] \<Rightarrow> Some (1, 0, st)
   | a # _ \<Rightarrow> do {
       (srvr, st1) \<leftarrow> Sopen nw (Some a) ''s'' st;
       (case srvr of None \<Rightarrow> Some (1, 0, st1)
        | Some k \<Rightarrow> map_option (\<lambda>(n, st2). (0, n, st2)) (fork_loop nw k es 0 st1)) })"

subsection \<open>sktsig\<close>

partial_function (option) sig_loop :: "string \<Rightarrow> string list \<Rightarrow> conn \<Rightarrow> (string list \<times> conn) option" where
  \<comment> \<open>the loop, each round after a signal; what is printed\<close>
  "sig_loop stack printed c = Option.bind (read_string stack FORK_BUFSIZE c) (\<lambda>(ok, buf, c1).
     if \<not> ok then Some (printed, c1)
     else Option.bind (vsprintf (''rcvd buf<%s>'' @ [NEWLINE]) [AStr (sprt (Some buf))]) (\<lambda>line.
       Option.bind (Sprintf (Some c1) ''rcvd buf <%s>'' [AStr buf]) (\<lambda>(n, c2).
         if cstr buf = ''q'' then Some (printed @ [line], the c2)
         else sig_loop buf (printed @ [line]) (the c2))))"

definition sktsig_main :: "net \<Rightarrow> string \<Rightarrow> conn option \<Rightarrow> netst \<Rightarrow> (int \<times> string list \<times> netst) option" where
  \<comment> \<open>the exit status and what is printed; \<open>error\<close> ends the program\<close>
  "sktsig_main nw stack acc st = do {
     (srvr, st1) \<leftarrow> Sopen nw (Some ''sktsig'') ''S'' st;
     (if srvr = None then Some (1, [], st1)
      else let p1 = [''server <sktsig> now available'' @ [NEWLINE], ''waiting for a client'' @ [NEWLINE]]
        in case Saccept srvr acc of
          None \<Rightarrow> map_option (\<lambda>st2. (1, p1, st2)) (Sclose nw srvr st1)
        | Some skt \<Rightarrow> do {
            (p2, c) \<leftarrow> sig_loop stack (p1 @ [''ready to receive'' @ [NEWLINE]]) (put_string ''ready to receive'' (sk_conn skt));
            st2 \<leftarrow> Sclose nw (Some (skt\<lparr>sk_conn := c\<rparr>)) st1;
            st3 \<leftarrow> Sclose nw srvr st2;
            Some (0, p2, st3) }) }"

subsection \<open>oobsend and oobrecv\<close>

definition oob_reply :: "string \<Rightarrow> int \<Rightarrow> conn \<Rightarrow> (string \<times> bool \<times> conn) option" where
  \<comment> \<open>after \<open>send\<close> with \<open>MSG_OOB\<close> has given \<open>cnt\<close>: what is printed of the reply, and whether the other
     process has been sent the signal\<close>
  "oob_reply stack cnt c =
     (if cnt < 0 then Some ('''', False, c)
      else do {
        (ok, buf, c1) \<leftarrow> read_string stack FORK_BUFSIZE c;
        line \<leftarrow> (if ok then vsprintf (''reply<%s>'' @ [NEWLINE]) [AStr (sprt (Some buf))]
                else Some (''socket error on Sgets'' @ [NEWLINE]));
        Some (line, True, c1) })"

definition oobsend_main :: "net \<Rightarrow> string \<Rightarrow> int \<Rightarrow> string \<Rightarrow> int \<Rightarrow> conn option \<Rightarrow> netst \<Rightarrow>
    ((int \<times> string \<times> bool) option \<times> netst) option" where
  \<comment> \<open>with what the stack, \<open>rcvpid\<close> and the static variable hold and what \<open>send\<close> and \<open>accept\<close> give: the
     process, the reply and whether the signal was sent; a null socket is used after a failed
     \<open>Saccept\<close>\<close>
  "oobsend_main nw stack rcvpid f cnt acc st = do {
     (srvr, st1) \<leftarrow> Sopen nw (Some ''oob'') ''S'' st;
     (if srvr = None then Some (None, st1)
      else case Saccept srvr acc of
        None \<Rightarrow> None
      | Some skt \<Rightarrow> do {
          (_, vs, _, so) \<leftarrow> Sscanf (Some (io (sk_conn skt))) ''%d'' 1 f;
          let pid = (case vs of [CInt i] \<Rightarrow> i | _ \<Rightarrow> rcvpid);
          (line, sent, c) \<leftarrow> oob_reply stack cnt
            (put_string ''something'' ((sk_conn skt)\<lparr>io := the so\<rparr>));
          st2 \<leftarrow> Sclose nw (Some (skt\<lparr>sk_conn := c\<rparr>)) st1;
          st3 \<leftarrow> Sclose nw srvr st2;
          Some (Some (pid, line, sent), st3) }) }"

partial_function (option) oobrecv_open :: "net \<Rightarrow> netst \<Rightarrow> (socket \<times> netst) option" where
  "oobrecv_open nw st = Option.bind (Sopen nw (Some ''oob'') ''c'' st) (\<lambda>(skt, st1).
     case skt of Some k \<Rightarrow> Some (k, st1) | None \<Rightarrow> oobrecv_open nw st1)"

definition sigurg_handler :: "conn \<Rightarrow> conn" where
  \<comment> \<open>what the handler writes, whatever \<open>recv\<close> has given\<close>
  "sigurg_handler c = put_string ''oob recvd'' c"

definition oobrecv_main :: "net \<Rightarrow> string \<Rightarrow> int \<Rightarrow> bool \<Rightarrow> netst \<Rightarrow> (string \<times> netst) option" where
  \<comment> \<open>with \<open>getpid\<close> and whether the signal comes while the program sleeps\<close>
  "oobrecv_main nw stack pid signalled st = do {
     (k, st1) \<leftarrow> oobrecv_open nw st;
     (_, c) \<leftarrow> Sprintf (Some (sk_conn k)) ''%d'' [AInt pid];
     (_, so) \<leftarrow> Swait (Some (io (the c)));
     let c1 = (the c)\<lparr>io := the so\<rparr>;
     let c2 = (if signalled then sigurg_handler c1 else c1);
     (_, buf, c3) \<leftarrow> read_string stack FORK_BUFSIZE c2;
     line \<leftarrow> vsprintf (''normal rcvd: buf<%s>'' @ [NEWLINE]) [AStr (sprt (Some buf))];
     st2 \<leftarrow> Sclose nw (Some (k\<lparr>sk_conn := c3\<rparr>)) st1;
     Some (line, st2) }"

end
