(* ===== verification/Ssl_Examples_Lemmas.thy ===== *)
theory Ssl_Examples_Lemmas
  imports Ssl_Examples Ssl_Talk_Lemmas
begin

text \<open>
  Facts about the small examples: a word is carried by \<open>Sprintf\<close> and \<open>Sscanf\<close>, so the greeting of
  \<open>smsrvr\<close> is what \<open>smclient\<close> prints; the echo server answers, but keeps a client that has vanished,
  and the descriptor of one that quits.
\<close>

subsection \<open>A word over a socket\<close>

definition wordy :: "string \<Rightarrow> bool" where
  "wordy u \<longleftrightarrow> u \<noteq> [] \<and> list_all (\<lambda>c. \<not> c_isspace c \<and> c \<noteq> NUL) u \<and> length u < PM_BIGBUF - 1"

lemma wordy_simps:
  assumes "wordy u"
  shows "skip_ws u = u" and "take_word u = u" and "skip_word u = []" and "NUL \<notin> set u"
proof -
  have u: "\<forall>c\<in>set u. \<not> c_isspace c" "NUL \<notin> set u" "u \<noteq> []" using assms by (auto simp: wordy_def list_all_iff)
  then show "take_word u = u" "skip_word u = []" "NUL \<notin> set u"
    by (simp_all add: take_word_def skip_word_def)
  show "skip_ws u = u" using u by (cases u) (simp_all add: skip_ws_def)
qed

lemma swallows_word:
  assumes "wordy u"
  shows "swallows ''%s'' u"
  unfolding swallows_def
proof (intro allI impI)
  fix v w assume "u = v @ w"
  then have v: "\<forall>c\<in>set v. \<not> c_isspace c" using assms by (auto simp: wordy_def list_all_iff)
  then have b: "stpblk v = v" by (cases v) (simp_all add: stpblk_def)
  have d: "dropWhile (\<lambda>c. \<not> c_isspace c) v = []" using v by (simp add: dropWhile_eq_Nil_conv)
  have n: "\<not> c_isdigit (CHR ''s'')" by (simp add: c_isdigit_def)
  show "stpnxt_loop v ''%s'' = []"
    using b by (cases "v = []") (simp_all add: d n stpnxt_loop.simps fmt_code_def skip_char_def stp_code_def)
qed

lemma format_s: "strnxtfmt (Some ''%s'') f = Some (Some ''%s'', [])" "parse_format ''%s'' = [DStr]"
  by code_simp+

lemma Sscanf_word:
  assumes "sk_type s \<noteq> PM_SERVER" and "ending s \<noteq> SelectError" and u: "wordy u" and "stream s = u @ NUL # rest"
  shows "\<exists>s'. Sscanf (Some s) ''%s'' 1 f = Some (1, [CStr u], [], Some s') \<and> stream s' = rest"
proof -
  have l: "length u < PM_BIGBUF - 1" "u \<noteq> []" using u by (auto simp: wordy_def)
  have "sscanf u ''%s'' = [CStr u]"
    using l by (simp add: sscanf_def format_s wordy_simps [OF u] Let_def)
  then obtain s' where "scan_one ''%s'' s = Some (int (length u + 1), Some (True, [CStr u]), s')" "stream s' = rest"
    using scan_one_swallowed [OF assms(1,2,4) wordy_simps(4) [OF u] l(1) swallows_word [OF u]]
    by (auto simp: sscanf_true_def)
  then show ?thesis by (simp add: Sscanf_def format_s)
qed

lemma smsrvr_greets:
  assumes "Sopen nw (Some ''SmallServer'') ''s'' st = Some (Some srvr, st1)"
  shows "smsrvr_main nw (Some c) st = Sclose nw (Some srvr) (hang_up (put_string ''hello'' c) st1)"
proof -
  have "cstr ''hello'' = ''hello''" by (simp add: cstr_def NUL_def)
  then show ?thesis
    using assms by (simp add: smsrvr_main_def Saccept_def makeSocket_def Sprintf_def Sclose_def PM_BIGBUF_def
        put_string_def)
qed

lemma smclient_prints:
  assumes "smclient_open nw st = Some (k, st1)" and "sk_type (io (sk_conn k)) \<noteq> PM_SERVER"
    and "ending (io (sk_conn k)) \<noteq> SelectError" and "stream (io (sk_conn k)) = cstring_bytes ''hello''"
    and "sk_kind k = PM_CLIENT"
  shows "\<exists>st2. smclient_main nw stack f st = Some (''buf<hello>'' @ [NEWLINE], st2)"
proof -
  have h: "cstr ''hello'' = ''hello''" "cstr (''hello'' @ NUL # r) = ''hello''" for r by (simp_all add: cstr_def NUL_def)
  have "wordy ''hello''" by code_simp
  from Sscanf_word [OF assms(2,3) this, of "[]" f] assms(4) h obtain s'
    where "Sscanf (Some (io (sk_conn k))) ''%s'' 1 f = Some (1, [CStr ''hello''], [], Some s')"
    by (auto simp: cstring_bytes_def)
  with assms(1,5) h show ?thesis
    by (simp add: smclient_main_def overwrite_def Sclose_def NEWLINE_def)
qed

subsection \<open>The echo server\<close>

lemma sprt_char_props: "length (sprt_char c) \<le> 2" "NUL \<notin> set (sprt_char c)"
proof -
  have "length (cstr xs) \<le> length xs" for xs by (simp add: cstr_def length_takeWhile_le)
  from this [of "''^'' @ [char_of_int (char_int c + 64)]"] show "length (sprt_char c) \<le> 2"
    by (auto simp: sprt_char_def Let_def)
  have "char_int NUL = 0" by (simp add: char_int_def NUL_def)
  then show "NUL \<notin> set (sprt_char c)" by (auto simp: sprt_char_def Let_def cstr_no_NUL)
qed

lemma sprt_loop_props:
  "length b \<le> 257 \<Longrightarrow> NUL \<notin> set b \<Longrightarrow> length (sprt_loop b s) \<le> 257 \<and> NUL \<notin> set (sprt_loop b s)"
proof (induction b s rule: sprt_loop.induct)
  case (2 b c s)
  have "length (b @ sprt_char c) \<le> 257 \<and> NUL \<notin> set (b @ sprt_char c)" if "length b < SPRT_SIZE - 5"
    using that sprt_char_props [of c] "2.prems" by (simp add: SPRT_SIZE_def)
  with 2 show ?case by simp
qed simp

lemma sprt_props: "length (sprt (Some t)) \<le> 257" "cstr (sprt (Some t)) = sprt (Some t)"
  using sprt_loop_props [of "[]" "cstr t"] by (simp_all add: sprt_def cstr_self)

lemma echo_answers:
  assumes "acc_conn a = fed k (cstring_bytes msg @ q) z" and "fits_buf MULTI_BUFSIZE msg" and "cstr msg \<noteq> ''q''"
  shows "\<exists>s'. multi_serve junk a s = Some (Some (a\<lparr>acc_conn := fed (put_bytes
      (cstring_bytes (''received <'' @ sprt (Some msg) @ ''>'' @ [NEWLINE])) k) q z\<rparr>), s') \<and> ms_mask s' = ms_mask s"
proof -
  obtain buf where r: "read_string (ms_buf s) MULTI_BUFSIZE (acc_conn a) = Some (True, buf, fed k q z)" "cstr buf = cstr msg"
    using read_string_fed [OF assms(2), of "ms_buf s" k q z] assms(1) by auto
  have sp: "sprt (Some buf) = sprt (Some msg)" using r(2) by (simp add: sprt_def)
  show ?thesis
    using r assms(3) sprt_props [of msg] by (simp add: multi_serve_def Let_def Sprintf_def sp PM_BIGBUF_def NEWLINE_def)
qed

lemma vanished_client_stays:
  \<comment> \<open>a client that has gone is answered in every round, and never removed\<close>
  assumes "acc_conn a = fed k [] PeerClosed" and "ms_buf s \<noteq> []"
  shows "\<exists>a' s'. multi_clients junk [a] s = Some ([a'], s') \<and> acc_id a' = acc_id a \<and>
    io (acc_conn a') = flat PM_ACCEPT [] PeerClosed \<and> length (out (acc_conn a')) = length (out k) + 13 \<and>
    length (ms_printed s') = length (ms_printed s) + 1"
proof -
  have t: "Stest (Some (flat PM_ACCEPT [] PeerClosed)) = Some (- 1, Some (flat PM_ACCEPT [] PeerClosed))"
    by (simp add: Stest_def select_now_def readable_def peek_count_def recv_peek_eq)
  have "Sgets_loop (MULTI_BUFSIZE - 2) [] (flat PM_ACCEPT [] PeerClosed) = Some (False, [], flat PM_ACCEPT [] PeerClosed)"
    by (simp add: Sgets_loop_flat_end MULTI_BUFSIZE_def)
  then obtain buf where r: "read_string (ms_buf s) MULTI_BUFSIZE (acc_conn a) = Some (False, buf, fed k [] PeerClosed)"
    and "buf = (ms_buf s)[0 := NUL, MULTI_BUFSIZE - 1 := NUL]"
    by (simp add: read_string_def Sgets_def assms(1) overwrite_def)
  then have "cstr buf = []" using assms(2) by (cases "ms_buf s") (simp_all add: cstr_def MULTI_BUFSIZE_def)
  then have c: "cstr buf = []" "sprt (Some buf) = []" by (simp_all add: sprt_def)
  have "length (cstring_bytes (''received <'' @ ''>'' @ [NEWLINE])) = 13" by code_simp
  with t r c show ?thesis
    by (simp add: multi_serve_def Let_def Sprintf_def PM_BIGBUF_def assms(1) NEWLINE_def cstr_def [of "[]"])
qed

lemma quitter_stays_in_mask:
  \<comment> \<open>unless the freed memory still holds the descriptor, it stays in the mask after it has been closed\<close>
  assumes "acc_conn a = fed k (cstring_bytes ''q'' @ q) z" and "junk \<noteq> talk_fd a" and "legal_fd junk"
    and "talk_fd a \<in> maskfds (ms_mask s)"
  shows "\<exists>s'. multi_serve junk a s = Some (None, s') \<and> talk_fd a \<in> maskfds (ms_mask s')"
proof -
  have q: "cstr ''q'' = ''q''" by (simp add: cstr_def NUL_def)
  then have "fits_buf MULTI_BUFSIZE ''q''" by (simp add: fits_buf_def MULTI_BUFSIZE_def)
  from read_string_fed [OF this, of "ms_buf s" k q z] obtain buf
    where r: "read_string (ms_buf s) MULTI_BUFSIZE (acc_conn a) = Some (True, buf, fed k q z)" "cstr buf = ''q''"
    using assms(1) q by auto
  show ?thesis
    using r assms(2-4) sprt_props [of buf]
    by (simp add: multi_serve_def Let_def Sprintf_def PM_BIGBUF_def Smaskunset_def NEWLINE_def)
qed

end
