(* ===== verification/Talk_Examples.thy ===== *)
theory Talk_Examples
  imports Ssl_Talk_Lemmas Ssl_Examples_Lemmas
begin

text \<open>
  A small conversation, for the examples at concrete inputs: two clients are accepted, and a line is
  typed at the server; and a client whose user has typed a line.
\<close>

definition demo_sel :: selector where
  \<comment> \<open>everything in the mask is ready\<close>
  "demo_sel n fds limit = (1, fds, (0, 0))"

definition demo_talker :: "nat \<Rightarrow> conn" where
  "demo_talker n = \<lparr>io = flat PM_ACCEPT '''' StillOpen, cid = n, out = '''', peeraddr = None\<rparr>"

definition demo_chat_round :: "talk \<Rightarrow> talk option" where
  "demo_chat_round s = (if fresh_accept s then
     (case talk_round demo_sel s of Some (True, s') \<Rightarrow> Some s' | _ \<Rightarrow> None) else None)"

definition demo_talk :: "talk option" where
  "demo_talk = do {
     s0 \<leftarrow> talk_start (replicate 8 NUL) 3 \<lparr>tty_text = '''', tty_eof = False\<rparr>;
     s1 \<leftarrow> demo_chat_round (s0\<lparr>tk_waiting := tk_waiting s0 @ [Some (demo_talker 4)]\<rparr>);
     s2 \<leftarrow> demo_chat_round (s1\<lparr>tk_waiting := tk_waiting s1 @ [Some (demo_talker 5)]\<rparr>);
     demo_chat_round (s2\<lparr>tk_tty := \<lparr>tty_text = ''hi'' @ [NEWLINE], tty_eof = False\<rparr>\<rparr>) }"

lemma demo_talk_value:
  "map_option (\<lambda>s. map (\<lambda>a. (acc_id a, out (acc_conn a))) (tk_clients s)) demo_talk =
     Some [(1, wire (0, ''hi'')), (2, wire (0, ''hi''))]"
  by code_simp

lemma demo_chat_round_reach: "talk_reach s \<Longrightarrow> demo_chat_round s = Some s' \<Longrightarrow> talk_reach s'"
  by (auto simp: demo_chat_round_def split: if_splits option.splits bool.splits intro: talk_reach.round)

lemma demo_talk_reach: "demo_talk = Some s \<Longrightarrow> talk_reach s"
proof -
  assume "demo_talk = Some s"
  then obtain s0 s1 s2 where s0: "talk_start (replicate 8 NUL) 3 \<lparr>tty_text = '''', tty_eof = False\<rparr> = Some s0"
    and r: "demo_chat_round (s0\<lparr>tk_waiting := tk_waiting s0 @ [Some (demo_talker 4)]\<rparr>) = Some s1"
      "demo_chat_round (s1\<lparr>tk_waiting := tk_waiting s1 @ [Some (demo_talker 5)]\<rparr>) = Some s2"
      "demo_chat_round (s2\<lparr>tk_tty := \<lparr>tty_text = ''hi'' @ [NEWLINE], tty_eof = False\<rparr>\<rparr>) = Some s"
    unfolding demo_talk_def bind_eq_Some_conv by (elim exE conjE)
  have "talk_reach s0" by (rule talk_reach.start [OF s0]) simp
  from demo_chat_round_reach [OF talk_reach.knock [OF this] r(1)] have "talk_reach s1" .
  from demo_chat_round_reach [OF talk_reach.knock [OF this] r(2)] have "talk_reach s2" .
  from demo_chat_round_reach [OF talk_reach.typed [OF this] r(3)] show "talk_reach s" .
qed

lemma map_option_SomeD: "map_option f x = Some r \<Longrightarrow> x = Some s \<Longrightarrow> f s = r"
  by simp

lemma demo_talk_reached:
  "\<exists>s. talk_reach s \<and> map (\<lambda>a. (acc_id a, out (acc_conn a))) (tk_clients s) = [(1, wire (0, ''hi'')), (2, wire (0, ''hi''))]"
proof -
  obtain s where s: "demo_talk = Some s" using demo_talk_value by (cases demo_talk) simp_all
  have "map (\<lambda>a. (acc_id a, out (acc_conn a))) (tk_clients s) = [(1, wire (0, ''hi'')), (2, wire (0, ''hi''))]"
    by (rule map_option_SomeD [OF demo_talk_value s])
  with demo_talk_reach [OF s] show ?thesis by (intro exI [of _ s] conjI)
qed

definition demo_client :: "string \<Rightarrow> conn \<Rightarrow> talk_client" where
  \<comment> \<open>connected, with this text typed\<close>
  "demo_client l k = (client_start (replicate 8 NUL) 0 \<lparr>tty_text = l, tty_eof = False\<rparr> \<lparr>tries = 0, finished = []\<rparr>)
     \<lparr>tc_skt := Some \<lparr>sk_conn = k, sk_port = 5, sk_kind = PM_CLIENT, sk_sktname = TALK_SERVER, sk_hostname = ''h''\<rparr>\<rparr>"

definition demo_listening :: "string \<Rightarrow> talk" where
  \<comment> \<open>a server with two clients, of whom the first has sent this message\<close>
  "demo_listening l = \<lparr>tk_clients = [\<lparr>acc_id = 1, acc_conn = fed (demo_talker 4) (cstring_bytes (''m'' @ l)) StillOpen\<rparr>,
       \<lparr>acc_id = 2, acc_conn = demo_talker 5\<rparr>], tk_id = 2, tk_buf = replicate 8 NUL, tk_mask = smask_init, tk_fd = 3,
     tk_waiting = [], tk_tty = \<lparr>tty_text = '''', tty_eof = False\<rparr>, tk_printed = '''', tk_closed = []\<rparr>"

end
