(* ===== verification/Dmucs_Pkt.thy ===== *)
theory Dmucs_Pkt
  imports Dmucs_Msg Ssl_Format
begin

text \<open>
  Two files that no program is built from: \<open>dmucs_pkt.cc\<close> and \<open>dmucs_pkt.h\<close>, the parser of an older
  protocol that \<open>dmucs_msg.cc\<close> has taken over, and \<open>test.cc\<close>, which runs its arguments as a command.
  A status request with an unknown state word reads an uninitialised variable: \<open>None\<close>.
\<close>

definition pkt_parse_host :: "ip \<Rightarrow> string \<Rightarrow> dmucs_msg option option" where
  \<comment> \<open>\<open>res\<close> may be 1 or 0, but not \<open>EOF\<close>\<close>
  "pkt_parse_host clientIp buffer =
     (let res = sscanf buffer ''host %s''
      in if \<not> fits [DPROP_MAX_STRLEN + 1] res then None
         else Some (case res of
             [CStr dpropstr] \<Rightarrow> Some (HostReqMsg clientIp dpropstr)
           | _ \<Rightarrow> if input_failure (parse_format ''host %s'') buffer then None
                else Some (HostReqMsg clientIp '''')))"

definition pkt_parse_load :: "ip \<Rightarrow> string \<Rightarrow> dmucs_msg option option" where
  "pkt_parse_load clientIp buffer =
     (let res = sscanf buffer ''load %s %f %f %f''
      in if \<not> fits [NAME_BUF] res then None
         else (case res of
             [CStr machname, CFlt a, CFlt b, CFlt c] \<Rightarrow>
               Some (Some (LdAvgMsg clientIp (inet_addr machname) a b c ''''))
           | _ \<Rightarrow>
               (let res2 = sscanf buffer ''load %s %f %f %f %s''
                in if \<not> fits [NAME_BUF, DPROP_MAX_STRLEN + 1] res2 then None
                   else Some (case res2 of
                       [CStr machname, CFlt a, CFlt b, CFlt c, CStr dpropstr] \<Rightarrow>
                         Some (LdAvgMsg clientIp (inet_addr machname) a b c dpropstr)
                     | _ \<Rightarrow> None))))"

definition pkt_state :: "string \<Rightarrow> host_status_t option" where
  "pkt_state state =
     (if strprefix ''up'' state then Some STATUS_AVAILABLE
      else if strprefix ''down'' state then Some STATUS_UNAVAILABLE else None)"

definition pkt_parse_status :: "ip \<Rightarrow> string \<Rightarrow> dmucs_msg option option" where
  "pkt_parse_status clientIp buffer =
     (let res = sscanf buffer ''status %s %s'';
          msg = (\<lambda>machname state dpropstr. map_option (\<lambda>st. Some (StatusMsg clientIp (inet_addr machname) st dpropstr))
            (pkt_state state))
      in if \<not> fits [NAME_BUF, STATE_BUF] res then None
         else (case res of
             [CStr machname, CStr state] \<Rightarrow> msg machname state ''''
           | _ \<Rightarrow>
               (let res2 = sscanf buffer ''status %s %s %s''
                in if \<not> fits [NAME_BUF, STATE_BUF, DPROP_MAX_STRLEN + 1] res2 then None
                   else (case res2 of
                       [CStr machname, CStr state, CStr dpropstr] \<Rightarrow> msg machname state dpropstr
                     | _ \<Rightarrow> Some None))))"

definition pkt_parseMsg :: "ip \<Rightarrow> string \<Rightarrow> dmucs_msg option option" where
  "pkt_parseMsg clientIp buffer =
     (if strprefix ''host'' buffer then pkt_parse_host clientIp buffer
      else if strprefix ''load'' buffer then pkt_parse_load clientIp buffer
      else if strprefix ''status'' buffer then pkt_parse_status clientIp buffer
      else if strprefix ''monitor'' buffer then Some (Some (MonitorReqMsg clientIp ''''))
      else Some None)"

definition test_command :: "string list \<Rightarrow> string" where
  \<comment> \<open>what \<open>test.cc\<close> prints and gives to \<open>system\<close>\<close>
  "test_command args = concat (map (\<lambda>a. a @ '' '') args)"

subsection \<open>The older parser and the one in use\<close>

fun conv_kind :: "conv \<Rightarrow> directive" where
  "conv_kind (CStr s) = DStr"
| "conv_kind (CInt i) = DInt"
| "conv_kind (CFlt x) = DFloat"
| "conv_kind (CDbl x) = DDouble"
| "conv_kind (CChr c) = DChar"

fun conversion :: "directive \<Rightarrow> bool" where
  "conversion DBlank = False"
| "conversion (DLit c) = False"
| "conversion d = True"

lemma conv_kind_simps [simp]:
  "conv_kind c = DStr \<longleftrightarrow> (\<exists>s. c = CStr s)" "conv_kind c = DFloat \<longleftrightarrow> (\<exists>x. c = CFlt x)"
  by (cases c; simp)+

lemma run_format_append:
  "\<exists>zs. run_format (ds @ es) s = run_format ds s @ zs \<and>
     (\<exists>t. zs = [] \<or> zs = run_format es t \<and> map conv_kind (run_format ds s) = filter conversion ds)"
proof (induction ds s rule: run_format.induct)
  case (3 c ds s)
  then show ?case by (cases s) auto
next
  case (5 ds s)
  then show ?case by (cases "scan_int s") auto
next
  case (6 ds s)
  then show ?case by (cases "scan_float s") auto
next
  case (7 ds s)
  then show ?case by (cases "scan_double s") auto
next
  case (8 ds s)
  then show ?case by (cases s) auto
qed (auto simp: Let_def)

lemma run_format_kinds: "\<exists>ks. map conv_kind (run_format ds s) @ ks = filter conversion ds"
proof (induction ds s rule: run_format.induct)
  case (3 c ds s)
  then show ?case by (cases s) auto
next
  case (5 ds s)
  then show ?case by (cases "scan_int s") auto
next
  case (6 ds s)
  then show ?case by (cases "scan_float s") auto
next
  case (7 ds s)
  then show ?case by (cases "scan_double s") auto
next
  case (8 ds s)
  then show ?case by (cases s) auto
qed (auto simp: Let_def)

fun without_property :: "dmucs_msg \<Rightarrow> dmucs_msg" where
  "without_property (LdAvgMsg c h a b l p) = LdAvgMsg c h a b l ''''"
| "without_property m = m"

lemma load_formats:
  "parse_format ''load %s %f %f %f %s'' = parse_format ''load %s %f %f %f'' @ [DBlank, DStr]"
  "filter conversion (parse_format ''load %s %f %f %f'') = [DStr, DFloat, DFloat, DFloat]"
  by code_simp+

lemma load_conversions:
  obtains (all) m x y z where "sscanf b ''load %s %f %f %f'' = [CStr m, CFlt x, CFlt y, CFlt z]"
      "sscanf b ''load %s %f %f %f %s'' = [CStr m, CFlt x, CFlt y, CFlt z] \<or>
       (\<exists>p. sscanf b ''load %s %f %f %f %s'' = [CStr m, CFlt x, CFlt y, CFlt z, CStr p])"
  | (some) "length (sscanf b ''load %s %f %f %f'') < 4" "sscanf b ''load %s %f %f %f %s'' = sscanf b ''load %s %f %f %f''"
proof -
  let ?r = "sscanf b ''load %s %f %f %f''"
  have "\<exists>zs t. sscanf b ''load %s %f %f %f %s'' = ?r @ zs \<and>
      (zs = [] \<or> zs = run_format [DBlank, DStr] t \<and> map conv_kind ?r = [DStr, DFloat, DFloat, DFloat])"
    using run_format_append [of "parse_format ''load %s %f %f %f''" "[DBlank, DStr]" b]
    unfolding sscanf_def load_formats by (elim exE conjE) (intro exI conjI; assumption)
  then obtain zs t where r: "sscanf b ''load %s %f %f %f %s'' = ?r @ zs"
    and zs: "zs = [] \<or> zs = run_format [DBlank, DStr] t \<and> map conv_kind ?r = [DStr, DFloat, DFloat, DFloat]"
    by (elim exE conjE)
  have "\<exists>ks. map conv_kind ?r @ ks = [DStr, DFloat, DFloat, DFloat]"
    using run_format_kinds [of "parse_format ''load %s %f %f %f''" b]
    unfolding sscanf_def load_formats .
  then obtain ks where ks: "map conv_kind ?r @ ks = [DStr, DFloat, DFloat, DFloat]" by (elim exE)
  show thesis
  proof (cases "length ?r < 4")
    case True
    then have "zs = []" using zs by (auto dest: arg_cong [where f = length])
    with True r some show ?thesis by simp
  next
    case False
    with arg_cong [OF ks, of length] have "length ks = 0" by (simp only: length_append length_map list.size)
    then have "ks = []" by simp
    with ks obtain m x y z where a: "?r = [CStr m, CFlt x, CFlt y, CFlt z]" by (auto simp: map_eq_Cons_conv)
    have "zs = [] \<or> (\<exists>p. zs = [CStr p])" using zs by (auto simp: Let_def split: if_splits)
    with a r all show ?thesis by auto
  qed
qed

lemma short_lists:
  fixes d :: 'a
  shows "length l < 4 \<Longrightarrow> (case l of [CStr m, CFlt x, CFlt y, CFlt z] \<Rightarrow> f m x y z | _ \<Rightarrow> d) = d"
    and "length l < 4 \<Longrightarrow> (case l of [CStr m, CFlt x, CFlt y, CFlt z, CStr p] \<Rightarrow> g m x y z p | _ \<Rightarrow> d) = d"
  by (auto split: list.splits conv.splits)

lemma pkt_load_loses_property:
  \<comment> \<open>the older parser understands the load reports the one in use does, but never their property: it
     tries the shorter format first, which matches\<close>
  assumes "parse_load c b = Some r"
  shows "pkt_parse_load c b = Some (map_option without_property r)"
proof (cases rule: load_conversions [of b])
  case (all m x y z)
  with assms show ?thesis
    by (auto simp: parse_load_def pkt_parse_load_def Let_def fits_def conv_words_def map_filter_simps split: if_splits)
next
  case some
  with assms show ?thesis
    by (simp add: parse_load_def pkt_parse_load_def Let_def short_lists split: if_splits)
qed

end
