(* ===== verification/Dmucs_Dump.thy ===== *)
theory Dmucs_Dump
  imports Dmucs_Requests Dmucs_Serialize
begin

text \<open>
  The dump of a database for its developers, \<open>DmucsDpropDb::dump\<close> and \<open>DmucsHost::dump\<close>, and the name of
  a peer in the debugging output, \<open>peer2buf\<close>.  The text of a pointer is an argument.
\<close>

fun state_dump :: "DmucsHostState \<Rightarrow> string" where
  "state_dump StateAvail = ''Available''"
| "state_dump StateUnavail = ''Unavail''"
| "state_dump StateSilent = ''Silent''"
| "state_dump StateOverloaded = ''Overloaded''"

definition fixed_width :: "nat \<Rightarrow> string \<Rightarrow> string" where
  \<comment> \<open>the directive \<open>%w.ws\<close>\<close>
  "fixed_width w x = replicate (w - length x) (CHR '' '') @ take w x"

definition dprop2cstr :: "dprop \<Rightarrow> string" where
  \<comment> \<open>the parameter is passed by value and taken to live to the end of the caller's expression\<close>
  "dprop2cstr d = c_str d"

definition host_dump :: "host \<Rightarrow> string" where
  "host_dump h = ''Host: '' @ fixed_width 20 (inet_ntoa (h_ip h)) @ ''  Dprop: '' @ fixed_width 8 (dprop2cstr (h_dprop h)) @
     ''  State: '' @ state_dump (h_state h) @ '' Pindex: '' @ string_of_int (h_pindex h) @
     '' Ncpus '' @ string_of_int (h_ncpus h) @ NL"

definition hosts_dump :: "(hptr \<Rightarrow> host) \<Rightarrow> hptr list \<Rightarrow> string" where
  "hosts_dump H S = concat (map (\<lambda>p. host_dump (H p)) S)"

definition tier_dump :: "int \<times> ip list \<Rightarrow> string" where
  "tier_dump tier = (case tier of (t, l) \<Rightarrow>
     if l = [] then ''''
     else ''Tier '' @ string_of_int t @ '': '' @ concat (map (\<lambda>x. inet_ntoa x @ '' '') l) @ NL)"

definition DpropDb_dump :: "(sock \<Rightarrow> string) \<Rightarrow> (hptr \<Rightarrow> host) \<Rightarrow> dprop_db \<Rightarrow> string" where
  "DpropDb_dump ptr H db =
     ''ALLHOSTS:'' @ NL @ hosts_dump H (allHosts db) @
     ''AVAIL HOSTS:'' @ NL @ hosts_dump H (availHosts db) @
     ''AVAIL CPUS:'' @ NL @ concat (map tier_dump (availCpus db)) @
     ''ASSIGNED CPUS:'' @ NL @
     concat (map (\<lambda>(sk, x). inet_ntoa x @ '' assigned to '' @ ptr sk) (assignedCpus db)) @ NL @
     ''OVERLOADED HOSTS:'' @ NL @ hosts_dump H (overloadedHosts db) @
     ''SILENT HOSTS:'' @ NL @ hosts_dump H (silentHosts db) @
     ''UNAVAIL HOSTS:'' @ NL @ hosts_dump H (unavailHosts db)"

definition peer2buf :: "ip \<Rightarrow> 16 word \<Rightarrow> string" where
  \<comment> \<open>with the value of \<open>sin_port\<close>, which is not put into the order of the host\<close>
  "peer2buf a sin_port = inet_ntoa a @ '':'' @ string_of_int (uint sin_port)"

subsection \<open>Lemmas\<close>

lemma fixed_width_length [simp]: "length (fixed_width w x) = w"
  by (simp add: fixed_width_def)

text \<open>An address is never cut.\<close>

lemma address_dumped_whole:
  "fixed_width 20 (inet_ntoa a) = replicate (20 - length (inet_ntoa a)) (CHR '' '') @ inet_ntoa a"
  using inet_ntoa_length [of a] by (simp add: fixed_width_def)

text \<open>
  The sections by state repeat the section of all hosts: under the invariant every host stands in exactly one
  of them, in the one of its state.
\<close>

lemma dump_sections_partition:
  assumes "dinv {} H n d db"
  shows "mset (availHosts db) + mset (overloadedHosts db) + mset (silentHosts db) + mset (unavailHosts db) =
    mset (allHosts db)"
proof -
  have ok: "sets_ok {} H db" "ksorted (host_key H) (allHosts db)"
    using assms by (simp_all add: dinv_def hosts_ok_def)
  have m: "mset (state_set st db) = filter_mset (\<lambda>p. h_state (H p) = st) (mset (allHosts db))" for st
  proof -
    have d: "distinct (state_set st db)" "distinct (filter (\<lambda>p. h_state (H p) = st) (allHosts db))"
      using ksorted_distinct [OF sets_ok_D(1) [OF ok(1)]] ksorted_distinct [OF ok(2)] by simp_all
    have "set (state_set st db) = set (filter (\<lambda>p. h_state (H p) = st) (allHosts db))"
      using sets_ok_D(2) [OF ok(1)] by auto
    then have "mset (state_set st db) = mset (filter (\<lambda>p. h_state (H p) = st) (allHosts db))"
      unfolding set_eq_iff_mset_eq_distinct [OF d] .
    then show ?thesis by simp
  qed
  have "filter_mset (\<lambda>p. h_state (H p) = StateAvail) M + filter_mset (\<lambda>p. h_state (H p) = StateOverloaded) M +
      filter_mset (\<lambda>p. h_state (H p) = StateSilent) M + filter_mset (\<lambda>p. h_state (H p) = StateUnavail) M = M" for M
  proof (induction M)
    case (add p M)
    then show ?case by (cases "h_state (H p)") auto
  qed simp
  from this [of "mset (allHosts db)"] show ?thesis by (simp add: m [symmetric])
qed

lemma dump_accounts_for_hosts:
  assumes "winv w" and "map_find d (dbDb w) = Some db"
  shows "size (mset (allHosts db)) = length (availHosts db) + length (overloadedHosts db) + length (silentHosts db) +
    length (unavailHosts db)"
  using arg_cong [OF dump_sections_partition [OF winv_D(3) [OF assms]], of size] by simp

text \<open>The assignments are run together: between the pointer and the next address there is nothing.\<close>

lemma assignments_run_together:
  assumes "assignedCpus db = [(1, 16777343), (2, 33554559)]" and "\<And>sk. ptr sk = ''0x'' @ string_of_int (int sk)"
  shows "\<exists>l r. DpropDb_dump ptr H db = l @ ''127.0.0.1 assigned to 0x1127.0.0.2 assigned to 0x2'' @ r"
proof -
  have "inet_ntoa 16777343 = ''127.0.0.1''" "inet_ntoa 33554559 = ''127.0.0.2''" "string_of_int 1 = ''1''"
    "string_of_int 2 = ''2''" by code_simp+
  then show ?thesis unfolding DpropDb_dump_def assms
    by (intro exI [of _ "''ALLHOSTS:'' @ NL @ hosts_dump H (allHosts db) @ ''AVAIL HOSTS:'' @ NL @
        hosts_dump H (availHosts db) @ ''AVAIL CPUS:'' @ NL @ concat (map tier_dump (availCpus db)) @ ''ASSIGNED CPUS:'' @ NL"] exI)
      simp
qed

end
