(* ===== verification/Spec2Isabelle.thy ===== *)
theory Spec2Isabelle
  imports Dmucs_Examples Spm_Examples Monitor_Examples Spm_Main Ssl_Format_Lemmas Dmucs_Client_Lemmas Talk_Examples Dmucs_Pkt Dmucs_Dump
begin

text \<open>
  A verification development of DMUCS, the distributed multi-user compilation system, and of the
  part of the Simple Sockets Library (\<open>COSMIC\<close>) that it is built on.  All file names are below
  \<open>src/dmucs/\<close>.

  \<^bold>\<open>The program.\<close>  The server \<open>dmucs\<close> (\<open>main.cc\<close>) keeps databases of compilation hosts, one for
  each distinguishing property.  Hosts send load averages (\<open>loadavg\<close>), from which the server computes
  a tier for each of them; a compilation asks for a cpu (\<open>gethost\<close>), is given the address of a host in the
  best tier that has a cpu left, and holds that cpu until its socket closes; hosts are taken out and put
  back by hand (\<open>remhost\<close>, \<open>addhost\<close>); a host that has been silent for a minute is taken out by
  a sweep.  All of them speak NUL-terminated strings over sockets of the Simple Sockets Library.  In
  that library a program opens a socket by a name: a daemon on each host, the PortMaster (\<open>Spm\<close>), keeps
  the table of names and ports, and \<open>Sopen\<close> and \<open>Sclose\<close> talk to it.

  \<^bold>\<open>The theories and the code.\<close>

  \<^item> \<open>Dmucs_Prelude\<close>: the types, the theorem collections and the lemmas all components share.
    \<open>Stl\<close>: the containers of the C++ library that occur (a \<open>std::map\<close> as an association list in
    the order of its keys, a \<open>std::set\<close> under a comparison as a sorted list).
    \<open>C_Float\<close>: binary32 and binary64 arithmetic with rounding.  \<open>C_Text\<close>, \<open>C_Text_Lemmas\<close>:
    \<open>sscanf\<close>, numbers, dotted addresses, and their round trips.
  \<^item> \<open>Dmucs_Host\<close>, \<open>Dmucs_Host_State\<close>: \<open>dmucs_host.cc\<close>, \<open>dmucs_host_state.cc\<close>,
    \<open>dmucs_resolve.cc\<close>.  A host is the record \<open>host\<close>; hosts live in a store (\<open>hosts w\<close>) because
    several sets point to them.
  \<^item> \<open>Dmucs_Db\<close>, \<open>Dmucs_Serialize\<close>: \<open>dmucs_db.h\<close> and \<open>dmucs_db.cc\<close>; \<open>dprop_db\<close> is the class
    \<open>DmucsDpropDb\<close>, \<open>world\<close> the class \<open>DmucsDb\<close> with the store.
  \<^item> \<open>Dmucs_Hosts_File\<close>: \<open>dmucs_hosts_file.cc\<close>; \<open>Dmucs_Hosts_Text\<close>: what a hosts-info file that is
    written line by line means.  \<open>Dmucs_Msg\<close>: the parser of \<open>dmucs_msg.cc\<close>;
    \<open>Dmucs_Pkt\<close>: the older one of \<open>dmucs_pkt.cc\<close>, which no program is built from, and \<open>test.cc\<close>.
  \<^item> \<open>Dmucs_Server\<close>: the handlers of \<open>dmucs_msg.cc\<close> and \<open>main.cc\<close>; a round of its loop is
    \<open>server_round\<close>, and \<open>serve\<close> is \<open>handleReq\<close> with its read (over \<open>Ssl_Io\<close>) and its writes: either may
    hold the server up.  \<open>Dmucs_Main\<close>: its command line and start.  \<open>Dmucs_Threads\<close>: the handlers
    as the critical sections they consist of, and their interleavings with \<open>doSilentSearch\<close>.
    \<open>Dmucs_Clients\<close>: \<open>gethost.cc\<close>, \<open>loadavg.cc\<close>, \<open>remhost.cc\<close>, and \<open>Dmucs_Client_Main\<close> their
    \<open>main\<close> functions over the sockets library.  \<open>Dmucs_Monitor\<close>: \<open>monitor.cc\<close>,
    whose parser reads a model of \<open>std::istringstream\<close>.
  \<^item> \<open>Ssl_Mask\<close>: \<open>Smaskwait.c\<close>.  \<open>Ssl_Io\<close>: waiting, reading and writing, over a model of a
    connection whose bytes arrive in pieces.  \<open>Ssl_Wire\<close>: the events of \<open>HDR/sockets.h\<close> and their
    encoding.  \<open>Ssl_Text\<close>: \<open>stpnxt.c\<close>, \<open>strnxtfmt.c\<close>, \<open>stpblk.c\<close>, \<open>srmtrblk.c\<close>.
    \<open>Ssl_Format\<close>: \<open>Svprintf.c\<close>, \<open>Sprintf.c\<close>, \<open>Sscanf.c\<close>, \<open>sprt.c\<close>, \<open>cprt.c\<close>, \<open>Sprtskt.c\<close>,
    \<open>Speeraddr.c\<close>, \<open>Speername.c\<close>, \<open>error.c\<close>, \<open>outofmem.c\<close>.
  \<^item> \<open>Spm\<close>: \<open>EXE/Spm.c\<close>, the PortMaster; \<open>Spm_Main\<close>: its start.  \<open>Ssl_Open\<close>: \<open>Smkskt.c\<close>, \<open>Sopen.c\<close>, \<open>Saccept.c\<close>,
    \<open>Srmsrvr.c\<close>, \<open>Sclose.c\<close>, \<open>Sopenv.c\<close>, \<open>fopenv.c\<close>.  \<open>Ssl_Tools\<close>: \<open>EXE/spmtable.c\<close>,
    \<open>EXE/spmchk.c\<close>, \<open>EXE/srmsrvr.c\<close>.  \<open>Ssl_Debug\<close>: \<open>EXE/sktdbg.c\<close>.
  \<^item> \<open>Ssl_Color\<close>: \<open>rdcolor.c\<close>, the colours of the messages; its variables are a list in the order of
    the table \<open>colors\<close>.  \<open>Ssl_Talk\<close>: the conversation of \<open>EXAMPLES/talksrvr.c\<close> and
    \<open>EXAMPLES/talkclient.c\<close>; \<open>talk_round\<close> and \<open>client_round\<close> are a round of their loops.
    \<open>Ssl_Examples\<close>: the other programs of \<open>EXAMPLES\<close>.

  \<^bold>\<open>Conventions.\<close>  \<open>None\<close> is undefined behaviour, a crash, or, for the functions of the sockets
  library, the PortMaster and the rounds of the server, a call that never returns.  A C++ exception is \<open>Inl\<close>.  The outside world
  is an argument: \<open>env\<close> (clock, \<open>random\<close>, name service, files), \<open>net\<close> (system calls and the
  connections they give), \<open>selector\<close> (\<open>select\<close>), \<open>spm_env\<close>.  Nothing is assumed of it but what
  a theorem's hypotheses say.  Tiers, cpu counts and clock values are \<open>int\<close> where the code cannot overflow them in
  practice; addresses are 32-bit words and ports and events 16-bit words, in the byte order they have on the wire.

  \<^bold>\<open>What the lemmas show.\<close>

  \<^item> \<open>Dmucs_Db_Inv\<close>, \<open>Dmucs_Events\<close>, \<open>Dmucs_Load\<close>, \<open>Dmucs_Sweep\<close>, \<open>Dmucs_Db_Ops\<close>,
    \<open>Dmucs_Server_Inv\<close>: the invariant \<open>winv\<close> of the databases, that every operation keeps it, what
    each does, that the server neither crashes nor leaves the invariant in any reachable
    state, and exactly which rounds do not return (\<open>round_stuck\<close>).  The abstract view of a host is the state machine of \<open>events_follow_transitions\<close>.
  \<^item> \<open>Dmucs_Threads_Lemmas\<close>: under every interleaving with the sweep a handler ends; it is the handler
    of \<open>Dmucs_Server\<close> as long as no host is silent, and only then.
  \<^item> \<open>Dmucs_Held\<close>: a cpu that is held is touched only by requests of its holder (\<open>unserved\<close>), and
    what becomes of it when the holder's socket is closed without being released (\<open>unaccepted\<close>).
  \<^item> \<open>Dmucs_Requests\<close>: what the clients print is what the server parses.  \<open>Dmucs_Client_Lemmas\<close>: a
    compilation from one end to the other.  \<open>Dmucs_Monitor_Lemmas\<close>: what the
    monitor shows of the text of the databases is what the databases hold.
  \<^item> \<open>Ssl_Io_Lemmas\<close>: reading does not depend on how the bytes are cut into pieces.
    \<open>Ssl_Format_Lemmas\<close>: nor does \<open>Sscanf\<close> for a text that its format swallows whole.
  \<^item> \<open>Spm_Lemmas\<close>, \<open>Spm_Requests\<close>: the PortMaster refines an abstract directory
    (\<open>dir_step\<close>; its laws are the locale \<open>directory\<close>).  \<open>Spm_Inv\<close>: its invariant for whatever
    bytes its clients send, and what makes it hang.  \<open>Ssl_Open_Lemmas\<close>, \<open>Ssl_Debug_Lemmas\<close>: the
    conversations of the library and of the test program with the PortMaster, from both ends.
  \<^item> \<open>Ssl_Color_Lemmas\<close>: the colours of a file that is written as documented are read back, whatever
    the file every colour is a string.  \<open>Ssl_Talk_Lemmas\<close>: the conversation server refines an
    abstract conversation of mailboxes (\<open>chat_step\<close>); what its rounds keep is proved from the
    locales \<open>talk_moves\<close> and \<open>talk_keeps\<close>.  \<open>Ssl_Examples_Lemmas\<close>: what the other
    examples send and print.
  \<^item> \<open>Dmucs_Examples\<close>, \<open>Spm_Examples\<close>, \<open>Monitor_Examples\<close>, \<open>Talk_Examples\<close>: the concrete states the witnesses use.

  \<^bold>\<open>Bounds and recursion.\<close>  Loops that always end are total functions with a measure: the retries of the
  PortMaster's clients are counted by \<open>PM_MAXTRY\<close>, parsers by the length of the text.  Loops that may not end
  are \<open>partial_function (option)\<close> (\<open>Sreadbytes\<close> on a connection that was closed, \<open>Sgets\<close> on one that stays open
  and silent, the search for waiting clients, the peeking of \<open>Sscanf\<close>), and the theorems say when they return and when not.  There is no fuel.

  \<^bold>\<open>Not modelled.\<close>  The debugging output (but for the dump of a database, \<open>Dmucs_Dump\<close>), the part of \<open>test.cc\<close> inside
  \<open>#if 0\<close>, threads as such (in \<open>Dmucs_Server\<close> the sweep and the statistics are steps between
  rounds; \<open>Dmucs_Threads\<close> interleaves the sweep with the load reports and status messages at the
  granularity of critical sections; \<open>releaseCpu\<close>, which holds no mutex, is one step), fork and exec (in \<open>gethost.cc\<close> and \<open>EXAMPLES/sktfork.c\<close> what
  \<open>fork\<close> and \<open>wait\<close> give are arguments; the child of \<open>gethost\<close> reads a destroyed string, so that nothing is said
  of what it does), exhaustion of memory, the delivery of signals (the handlers are
  modelled; \<open>SIGPIPE\<close> is modelled in the server only: the PortMaster, the clients and the examples write to
  peers that take what they are sent, as a peer does that has closed and is written to once), the text of the
  warnings of \<open>rdcolor.c\<close> (one of which is given an array of pointers for \<open>%s\<close>: it prints what lies there, and
  the model goes on), \<open>Sinit.c\<close>, which is empty on unix, the variants for other operating systems, the notifications
  of the monitor on macOS, and the headers, which only declare.
\<close>

section \<open>The server\<close>

text \<open>
  C1. In every state the server can reach, the databases satisfy their invariant (sets in order, the
  four state sets divide the known hosts by their state, every unassigned cpu belongs to an available
  host and lies in that host's tier, every socket with a property holds a cpu of that property), and
  the wait mask watches exactly the listening socket and the sockets of the list.
\<close>

theorem server_invariant:
  assumes "reachable s"
  shows "winv (sw s) \<and> wm.watches (listener s) (skt s) (fdList s) (smaskst s)"
  using reachable_sinv [OF assms] by (simp add: sinv_def)

theorem server_invariant_witness:
  "winv (sw demo_server) \<and>
    wm.watches (listener demo_server) (skt demo_server) (fdList demo_server) (smaskst demo_server)"
  by (rule server_invariant [OF demo_server_reachable])

text \<open>
  C2. In every reachable state a round of the server's loop returns, without undefined behaviour and in a
  reachable state, exactly if nobody holds it up: the client it serves has sent a whole string (or has
  filled the buffer, or has gone), and so has a client it accepts, and the answer to either can be written.
  That no word of a request overruns its buffer, that the hosts-info file is well formed, and that a new socket
  has a descriptor an \<open>fd_set\<close> can hold, is assumed.  In particular a client that connects and sends no whole
  string stops the server: it is read from as soon as it is accepted.
\<close>

theorem server_round_returns:
  assumes "reachable s" and "round_ok i s"
  shows "((\<exists>s'. server_round i s = Some s' \<and> reachable s') \<longleftrightarrow> \<not> round_stuck i s) \<and>
    (0 < fst (Smaskwait (ri_select i) (smaskst s)) \<and> listener s \<in> rmask (smaskst (woken i s)) \<and>
      ri_accept i \<noteq> None \<and> stalls (ri_read2 i) \<longrightarrow> server_round i s = None)"
proof (intro conjI)
  note s = reachable_sinv [OF assms(1)]
  show "(\<exists>s'. server_round i s = Some s' \<and> reachable s') \<longleftrightarrow> \<not> round_stuck i s"
    using server_round_ok(1) [OF s assms(2)] assms by (auto intro: reachable.step server_step.round)
  show "0 < fst (Smaskwait (ri_select i) (smaskst s)) \<and> listener s \<in> rmask (smaskst (woken i s)) \<and>
      ri_accept i \<noteq> None \<and> stalls (ri_read2 i) \<longrightarrow> server_round i s = None"
    using silent_client_stops [OF s assms(2)] by blast
qed

theorem server_round_returns_witness:
  "(\<exists>s'. server_round demo_round demo_start = Some s' \<and> reachable s') \<and>
    server_round demo_silent demo_server = None"
  using server_round_returns [OF demo_start_reachable demo_round_ok] demo_round_returns
    server_round_returns [OF demo_server_reachable demo_silent_ok] demo_silent_accepted by blast

text \<open>
  C3. Every known host is in exactly the set of its state: the sets of available, unavailable,
  silent and overloaded hosts are disjoint and cover the hosts of a database.
\<close>

theorem host_in_its_state_set:
  assumes "reachable s" and "map_find d (dbDb (sw s)) = Some db" and "p \<in> set (allHosts db)"
  shows "p \<in> set (state_set st db) \<longleftrightarrow> st = h_state (hosts (sw s) p)"
  using reachable_sinv [OF assms(1)] winv_D(3) [OF _ assms(2)] assms(3)
    sets_ok_D(2) [of "{}" "hosts (sw s)" db p st]
  by (auto simp: sinv_def dinv_def)

theorem host_in_its_state_set_witness:
  "0 \<in> set (state_set StateAvail (db_of ''x'' (sw demo_server))) \<longleftrightarrow>
    StateAvail = h_state (hosts (sw demo_server) 0)"
proof -
  have "map_find ''x'' (dbDb (sw demo_server)) \<noteq> None" "0 \<in> set (allHosts (db_of ''x'' (sw demo_server)))"
    by code_simp+
  then show ?thesis
    by (intro host_in_its_state_set [OF demo_server_reachable, of "''x''"]) (auto simp: db_of_def)
qed

text \<open>
  C4. A cpu is on offer only while its host is available: every unassigned cpu of a tier has a known
  host with its address that is available and has that tier by its present load averages.
\<close>

theorem offered_cpu_has_available_host:
  assumes "reachable s" and "map_find d (dbDb (sw s)) = Some db" and "x \<in> set (tier_cpus t db)"
  shows "\<exists>p\<in>set (allHosts db). h_ip (hosts (sw s) p) = x \<and> h_dprop (hosts (sw s) p) = d \<and>
    h_state (hosts (sw s) p) = StateAvail \<and> getTier (hosts (sw s) p) = t"
proof -
  have inv: "dinv {} (hosts (sw s)) (nexthost (sw s)) d db"
    using reachable_sinv [OF assms(1)] winv_D(3) [OF _ assms(2)] by (simp add: sinv_def)
  then have sok: "sets_ok {} (hosts (sw s)) db" and cok: "cpus_ok (hosts (sw s)) db"
    by (simp_all add: dinv_def)
  obtain p where "p \<in> set (availHosts db)" "h_ip (hosts (sw s) p) = x" "getTier (hosts (sw s) p) = t"
    using cpus_ok_D(3) [OF cok assms(3)] by blast
  with avail_iff [OF sok] dinv_host [OF inv] show ?thesis by blast
qed

theorem offered_cpu_has_available_host_witness:
  "\<exists>p\<in>set (allHosts (db_of ''x'' (sw demo_server))). h_ip (hosts (sw demo_server) p) = demo_ip \<and>
    h_dprop (hosts (sw demo_server) p) = ''x'' \<and> h_state (hosts (sw demo_server) p) = StateAvail \<and>
    getTier (hosts (sw demo_server) p) = 3"
proof -
  have "map_find ''x'' (dbDb (sw demo_server)) \<noteq> None" "demo_ip \<in> set (tier_cpus 3 (db_of ''x'' (sw demo_server)))"
    by code_simp+
  then show ?thesis
    by (intro offered_cpu_has_available_host [OF demo_server_reachable]) (auto simp: db_of_def)
qed

section \<open>Requests\<close>

text \<open>
  C5. A host request is always answered.  If the property has no unassigned cpu the answer is
  0.0.0.0 and nothing changes; otherwise the answer is the address of an available host in the
  highest tier that has a cpu, exactly one cpu of that host is gone from that tier and no other cpu
  moved, and the socket is recorded as holding it (unless the socket already held one).
\<close>

theorem host_request_answered:
  assumes "reachable s"
  shows "\<exists>x w'. HostReq_handle e d sk s = Some (Sputs_to (inet_ntoa x) sk (s\<lparr>sw := w'\<rparr>)) \<and>
    (if no_cpus d (sw s) then x = 0 \<and> w' = sw s else cpu_taken d sk x (sw s) w')"
proof -
  have "winv (sw s)" using reachable_sinv [OF assms] by (simp add: sinv_def)
  from take_cpu_ok [OF this, of e d sk] show ?thesis
    by (force simp: HostReq_handle_def)
qed

theorem host_request_answered_witness:
  "\<not> no_cpus ''x'' (sw demo_server) \<and>
    (\<exists>x w'. HostReq_handle demo_env ''x'' 7 demo_server = Some (Sputs_to (inet_ntoa x) 7 (demo_server\<lparr>sw := w'\<rparr>)) \<and>
      cpu_taken ''x'' 7 x (sw demo_server) w')"
proof -
  have "\<not> no_cpus ''x'' (sw demo_server)" by code_simp
  with host_request_answered [OF demo_server_reachable, of demo_env "''x''" 7] show ?thesis by simp
qed

text \<open>
  C6. When a client closes its socket, its cpu comes back: exactly one copy of its address is
  appended to the tier of its host if the host is available, and none if it is not; the socket holds
  no cpu and no property any more.
\<close>

theorem release_returns_cpu:
  assumes "winv w" and "map_find sk (sock2DpropDb w) = Some d"
  shows "\<exists>x w'. map_find sk (assignedCpus (db_of d w)) = Some x \<and> DmucsDb_releaseCpu e sk w = Some w' \<and>
    winv w' \<and> map_find sk (sock2DpropDb w') = None \<and> map_find sk (assignedCpus (db_of d w')) = None \<and>
    (\<forall>t. tier_cpus t (db_of d w') = tier_cpus t (db_of d w) @
      (if list_ex (\<lambda>p. h_ip (hosts w p) = x \<and> getTier (hosts w p) = t) (availHosts (db_of d w)) then [x] else []))"
proof (rule release_world [OF assms, of e])
  fix db x w'
  assume db: "map_find d (dbDb w) = Some db" and r: "DmucsDb_releaseCpu e sk w = Some w'"
    and rest: "map_find sk (assignedCpus db) = Some x" "winv w'"
    "assignedCpus (db_of d w') = map_erase sk (assignedCpus db)"
    "\<And>t. tier_cpus t (db_of d w') = tier_cpus t db @
      (if \<exists>p\<in>set (availHosts db). h_ip (hosts w p) = x \<and> getTier (hosts w p) = t then [x] else [])"
  have "sock2DpropDb w' = map_erase sk (sock2DpropDb w)" using release_ok [OF assms(1), of e sk] r by auto
  moreover have "db_of d w = db" using db by (simp add: db_of_def)
  ultimately show ?thesis using r rest by (auto simp: list_ex_iff map_find_erase)
qed

theorem release_returns_cpu_witness:
  "\<exists>w. map_find 7 (sock2DpropDb w) = Some ''x'' \<and>
    (\<exists>x w'. map_find 7 (assignedCpus (db_of ''x'' w)) = Some x \<and> DmucsDb_releaseCpu demo_env 7 w = Some w' \<and>
    winv w' \<and> map_find 7 (sock2DpropDb w') = None \<and> map_find 7 (assignedCpus (db_of ''x'' w')) = None \<and>
    (\<forall>t. tier_cpus t (db_of ''x'' w') = tier_cpus t (db_of ''x'' w) @
      (if list_ex (\<lambda>p. h_ip (hosts w p) = x \<and> getTier (hosts w p) = t) (availHosts (db_of ''x'' w)) then [x] else [])))"
proof -
  obtain x w where w: "take_cpu demo_env ''x'' 7 demo_world = Some (x, w)" "winv w"
    using take_cpu_ok [OF demo_winv, of demo_env "''x''" 7] by blast
  have "map_option (\<lambda>(x, w). map_find 7 (sock2DpropDb w)) (take_cpu demo_env ''x'' 7 demo_world) = Some (Some ''x'')"
    by code_simp
  with w(1) have "map_find 7 (sock2DpropDb w) = Some ''x''" by simp
  with release_returns_cpu [OF w(2) this, of demo_env] show ?thesis by blast
qed

text \<open>
  C7. A cpu stays with the client that holds it while the server does not serve that client's socket: no
  request of another client, no sweep and no statistics takes the assignment away.
\<close>

theorem held_cpu_is_kept:
  assumes "reachable s" and "holds sk d x (sw s)" and "unserved sk s s'"
  shows "holds sk d x (sw s')"
  by (rule holds_unserved [OF assms(3) reachable_sinv [OF assms(1)] assms(2)])

theorem held_cpu_is_kept_witness:
  "\<exists>s'. doSilentSearch 2000 demo_holder = Some s' \<and> holds 2 ''x'' demo_ip (sw s')"
proof -
  obtain s' where s': "doSilentSearch 2000 demo_holder = Some s'"
    using sweep_ok [OF reachable_sinv [OF demo_holder_reachable]] by blast
  with held_cpu_is_kept [OF demo_holder_reachable demo_holds(1) unserved.sweep [OF unserved.refl s']]
  show ?thesis by blast
qed

text \<open>
  C8. A client that holds a cpu and sends anything but another host request loses it for the others
  too: its socket is closed at once, but the cpu is not released, and as long as the address of the socket
  is not used again it stays assigned to a client that is gone, whatever the server does.
\<close>

theorem message_from_holder_loses_cpu:
  assumes "reachable s" and "sk \<in> set (fdList s)" and "holds sk d x (sw s)" and "file_ok e"
    and "parseMsg (peer s sk) buf = Some mo" and "\<And>cl d'. mo \<noteq> Some (HostReqMsg cl d')"
  shows "\<exists>s1. handleReq e sk (Some buf) s = Some s1 \<and> sk \<notin> set (fdList s1) \<and>
    (\<forall>s2. unaccepted sk s1 s2 \<longrightarrow> sk \<notin> set (fdList s2) \<and> holds sk d x (sw s2))"
proof -
  note s = reachable_sinv [OF assms(1)]
  obtain s1 where s1: "handleReq e sk (Some buf) s = Some s1"
    using handleReq_ok [OF s assms(2,4), of "Some buf"] assms(5) by (auto simp: req_ok_def)
  with message_keeps_cpu [OF s assms(2,4,5,6) s1 assms(3)] unaccepted_unserved holds_unserved show ?thesis by blast
qed

theorem message_from_holder_loses_cpu_witness:
  "\<exists>s1. handleReq demo_env 2 (Some ''junk'') demo_holder = Some s1 \<and> 2 \<notin> set (fdList s1) \<and>
    (\<forall>s2. unaccepted 2 s1 s2 \<longrightarrow> 2 \<notin> set (fdList s2) \<and> holds 2 ''x'' demo_ip (sw s2))"
  by (rule message_from_holder_loses_cpu [OF demo_holder_reachable _ demo_holds(1) demo_file_ok, where mo = None])
    (simp_all add: demo_holds(2) parseMsg_def strprefix_def)

section \<open>The threads\<close>

text \<open>
  C9. A handler that is interrupted by the sweep still ends: wherever the sweeps of the other thread come
  between the critical sections of a load report or a status message for a known host, and whatever
  their clock shows, nothing is undefined, the handler ends (15 of its actions are enough) and no host
  is added or lost.
\<close>

theorem interrupted_handler_finishes:
  assumes "winv w" and "knows w p" and "handler_acts p t as" and "15 \<le> mains us"
  shows "\<exists>w'. run_turns us (as, w) = Some ([], w') \<and> known_hosts w' = known_hosts w"
  using assms by (rule handler_interrupted)

theorem interrupted_handler_finishes_witness:
  "\<exists>w'. run_turns ([MainTurn, MainTurn, MainTurn, SweepTurn 1000] @ replicate 12 MainTurn)
      (load_acts demo_env 0 (Fin 9) (Fin 9) (Fin 1), sw demo_server) = Some ([], w') \<and>
    known_hosts w' = known_hosts (sw demo_server)"
proof -
  have "winv (sw demo_server)" by (rule demo_server_winv)
  moreover have "15 \<le> mains ([MainTurn, MainTurn, MainTurn, SweepTurn 1000] @ replicate 12 MainTurn)" by code_simp
  ultimately show ?thesis using interrupted_handler_finishes [OF _ demo_server_knows handler_actsI(1)] by blast
qed

text \<open>
  C10. The sweep disturbs no handler as long as it finds nobody silent: if every known host has reported
  within a minute of each sweep, a load report has the effect of \<open>load_report\<close>, in which it is one
  step, wherever the sweeps come, and so has a status message.
\<close>

theorem idle_sweeps_do_not_interfere:
  assumes "winv w" and "DmucsDb_getHost host d w = Inr p" and "15 \<le> mains us"
    and "\<And>t q. t \<in> sweep_times us \<Longrightarrow> q \<in> known_hosts w \<Longrightarrow> t - h_lastUpdate (hosts w q) \<le> 60"
    and "\<And>t. t \<in> sweep_times us \<Longrightarrow> t - now e \<le> 60"
  shows "\<exists>w1 w2. load_report e host a b c d w inst = Some (w1, inst) \<and> run_turns us (load_acts e p a b c, w) = Some ([], w1) \<and>
    status_report e host st d w inst = Some (w2, inst) \<and> run_turns us (status_acts st p, w) = Some ([], w2)"
proof -
  have k: "knows w p" using getHost_Inr [OF assms(1,2)] by blast
  have h: "handler_acts p (now e) (load_acts e p a b c)" "handler_acts p (now e) (status_acts st p)"
    by (rule handler_actsI)+
  have f: "fresh (sweep_times us) w" "\<And>t. t \<in> sweep_times us \<Longrightarrow> t - now e \<le> DMUCS_HOST_SILENT_TIME"
    using assms(4,5) by (auto simp: fresh_def seemsDown_def DMUCS_HOST_SILENT_TIME_def not_less)
  show ?thesis
    using handler_undisturbed [OF assms(1) k h(1) assms(3) f(2,1)] handler_undisturbed [OF assms(1) k h(2) assms(3) f(2,1)]
      load_report_acts [OF assms(2)] status_report_acts [OF assms(2)] by fastforce
qed

theorem idle_sweeps_do_not_interfere_witness:
  "\<exists>w1 w2. load_report demo_env demo_ip (Fin 9) (Fin 9) (Fin 1) ''x'' (sw demo_server) None = Some (w1, None) \<and>
    run_turns (SweepTurn 50 # replicate 15 MainTurn) (load_acts demo_env 0 (Fin 9) (Fin 9) (Fin 1), sw demo_server) = Some ([], w1) \<and>
    status_report demo_env demo_ip STATUS_UNAVAILABLE ''x'' (sw demo_server) None = Some (w2, None) \<and>
    run_turns (SweepTurn 50 # replicate 15 MainTurn) (status_acts STATUS_UNAVAILABLE 0, sw demo_server) = Some ([], w2)"
proof (rule idle_sweeps_do_not_interfere)
  let ?us = "SweepTurn 50 # replicate 15 MainTurn"
  show "winv (sw demo_server)" by (rule demo_server_winv)
  show "DmucsDb_getHost demo_ip ''x'' (sw demo_server) = Inr 0" by (rule demo_server_getHost)
  show "15 \<le> mains ?us" by code_simp
  have t: "t = 50" if "t \<in> sweep_times ?us" for t using that by (auto simp: sweep_times_def)
  show "t - now demo_env \<le> 60" if "t \<in> sweep_times ?us" for t using t [OF that] by (simp add: demo_env_def)
  have l: "list_all (\<lambda>(d, db). list_all (\<lambda>q. h_lastUpdate (hosts (sw demo_server) q) = 0) (allHosts db)) (dbDb (sw demo_server))"
    by code_simp
  show "t - h_lastUpdate (hosts (sw demo_server) q) \<le> 60" if "t \<in> sweep_times ?us" "q \<in> known_hosts (sw demo_server)" for t q
    using l that(2) t [OF that(1)] by (auto simp: known_hosts_def list_all_iff)
qed

text \<open>
  C11. A sweep that finds a silent host in the middle of its handler breaks the databases: in a reachable
  state there is an interleaving after which a host that was to be unavailable is in the sets of the
  silent and of the unavailable hosts, and one of a load report after which a host has more cpus on
  offer than it has.
\<close>

theorem sweep_in_between_breaks_invariant:
  "\<exists>s p us w1 us' w2 e a b c. reachable s \<and> knows (sw s) p \<and>
    run_turns us (status_acts STATUS_UNAVAILABLE p, sw s) = Some ([], w1) \<and>
    p \<in> set (silentHosts (dprop_db_of w1 p)) \<inter> set (unavailHosts (dprop_db_of w1 p)) \<and>
    run_turns us' (load_acts e p a b c, sw s) = Some ([], w2) \<and>
    h_ncpus (hosts w2 p) < int (count_list (tier_cpus (getTier (hosts w2 p)) (dprop_db_of w2 p)) (h_ip (hosts w2 p)))"
proof -
  obtain w1 where w1: "run_turns demo_down_turns (status_acts STATUS_UNAVAILABLE 0, sw demo_server) = Some ([], w1)"
    "silentHosts (dprop_db_of w1 0) = [0]" "unavailHosts (dprop_db_of w1 0) = [0]" using demo_down_race by blast
  obtain w2 where w2: "run_turns demo_report_turns (load_acts demo_env 0 (Fin 9) (Fin 9) (Fin 1), sw demo_server) = Some ([], w2)"
    "h_ncpus (hosts w2 0) = 2" "count_list (tier_cpus (getTier (hosts w2 0)) (dprop_db_of w2 0)) (h_ip (hosts w2 0)) = 4"
    using demo_report_race by blast
  have "0 \<in> set (silentHosts (dprop_db_of w1 0)) \<inter> set (unavailHosts (dprop_db_of w1 0))" using w1(2,3) by simp
  moreover have "h_ncpus (hosts w2 0) < int (count_list (tier_cpus (getTier (hosts w2 0)) (dprop_db_of w2 0)) (h_ip (hosts w2 0)))"
    using w2(2,3) by simp
  ultimately show ?thesis using demo_server_reachable demo_server_knows w1(1) w2(1) by blast
qed

section \<open>A compilation\<close>

text \<open>
  C12. A compilation asks for a cpu and gives it back, from both ends.  The server that serves the request of a
  connected \<open>gethost\<close> reads it whole and answers it, with 0.0.0.0 if its property has no cpu and with a cpu
  of the best tier otherwise.  \<open>gethost\<close> gives \<open>putenv\<close> a string that names that host (or none), and ends
  with the exit status of its command, or with 0 if its own signal handler was the first to wait for it, or with
  an error if it could not fork; but what the command finds in its environment is undefined, since the
  string is destroyed before the command starts.  The socket is closed when the command has ended, and once the
  server has served the closed socket every tier holds as many cpus of each host as before the request.
\<close>

theorem compilation_takes_and_returns_cpu:
  assumes "sinv s" and "sk \<in> set (fdList s)" and "map_find sk (sock2DpropDb (sw s)) = None"
    and "map_find sk (assignedCpus (db_of d (sw s))) = None"
    and "gethost_args default_opts args = Some (opts, cmd)" and "d = distingProp opts"
    and "prop_ok d" and "NUL \<notin> set d" and "my_address ce (n_hostname nw) = Some a"
    and "c_str (serverName opts) = CHR ''@'' # host" and "length host + 1 < BUFSIZE" and "host \<noteq> ''''"
    and "0 < serverPortNum opts" and "serverPortNum opts < 2 ^ 16" and "n_socket nw" and "n_resolves nw host"
    and "stream k = cstring_bytes (gethost_request a d)" and "serve e buf k sends sk s = Some s'"
    and "n_connect nw (tries st) host (of_int (serverPortNum opts)) =
      Some (fed c (cstring_bytes (snd (List.last (sent s')))) z)"
    and "timeout opts \<noteq> - 1" and "t \<le> timeout opts"
    and "stream k2 = []" and "ending k2 \<noteq> StillOpen"
  shows "(\<exists>x st'. sent s' = sent s @ [(sk, inet_ntoa x)] \<and>
      (if no_cpus d (sw s) then x = 0 \<and> sw s' = sw s else cpu_taken d sk x (sw s) (sw s')) \<and>
      gethost_program ce nw args stack [t] True child st = Some (case child of
          NoChild \<Rightarrow> EndError
        | Waited status \<Rightarrow>
            EndRan (''DISTCC_HOSTS='' @ (if x = 0 then '''' else getHostName ce x @ ''/100,lzo'')) None (status mod 256)
        | Reaped \<Rightarrow>
            EndRan (''DISTCC_HOSTS='' @ (if x = 0 then '''' else getHostName ce x @ ''/100,lzo'')) None 0, st') \<and>
      (child \<noteq> NoChild \<longrightarrow> finished st' =
        finished st @ [fed (put_bytes (cstring_bytes (gethost_request a d)) c) [] z])) \<and>
    (\<exists>s2. serve e2 buf2 k2 sends2 sk s' = Some s2 \<and> sinv s2 \<and> sk \<notin> set (fdList s2) \<and>
      map_find sk (sock2DpropDb (sw s2)) = None \<and>
      (\<forall>T y. count_list (tier_cpus T (db_of d (sw s2))) y = count_list (tier_cpus T (db_of d (sw s))) y))"
proof -
  have w: "winv (sw s)" using assms(1) by (simp add: sinv_def)
  have h: "handleReq e sk (Some (gethost_request a d)) s = Some s'"
    by (rule serve_cases [OF assms(18)]) (simp add: gethost_request_read [OF assms(7,8,17)])
  obtain x w1 where s': "s' = Sputs_to (inet_ntoa x) sk (s\<lparr>sw := w1\<rparr>)" and w1: "winv w1"
    and r: "if no_cpus d (sw s) then x = 0 \<and> w1 = sw s else cpu_taken d sk x (sw s) w1"
    by (rule gethost_request_handled [OF w assms(7) h])
  have "n_connect nw (tries st) host (of_int (serverPortNum opts)) = Some (fed c (cstring_bytes (inet_ntoa x)) z)"
    using assms(19) by (simp add: s' Sputs_to_def)
  note op = open_dmucs_connected [OF assms(10-16) this]
  let ?st' = "if child = NoChild then st\<lparr>tries := tries st + 1\<rparr>
    else hang_up (fed (put_string (gethost_request a d) c) [] z) (st\<lparr>tries := tries st + 1\<rparr>)"
  have g: "gethost_program ce nw args stack [t] True child st =
      Some (child_result (distcc_hosts (if x = 0 then '''' else getHostName ce x @ ''/100,lzo'')) child, ?st')"
    unfolding assms(6)
    by (rule gethost_program_connected [OF assms(5) op]) (use assms(9,20,21) in \<open>simp_all add: makeSocket_def\<close>)
  have f: "child \<noteq> NoChild \<longrightarrow>
      finished ?st' = finished st @ [fed (put_bytes (cstring_bytes (gethost_request a d)) c) [] z]"
    by (simp add: hang_up_def put_string_eq)
  have b: "sent s' = sent s @ [(sk, inet_ntoa x)]"
      "if no_cpus d (sw s) then x = 0 \<and> sw s' = sw s else cpu_taken d sk x (sw s) (sw s')"
    using r by (simp_all add: s' Sputs_to_def)
  show ?thesis
    using closed_socket_returns [OF assms(1-4) w1 r, of e2 "inet_ntoa x"]
    by (intro conjI exI [of _ x] exI [of _ ?st'] b f g [unfolded child_result_def distcc_hosts_def])
      (simp add: s' serve_hangup [OF assms(22,23)])
qed

theorem compilation_takes_and_returns_cpu_witness:
  "\<exists>s s' st' x s2. sinv s \<and> sw s = sw demo_server \<and>
    serve demo_env '''' (demo_stream (cstring_bytes (gethost_request demo_ip ''x'')) StillOpen) (Some [100]) 7 s = Some s' \<and>
    cpu_taken ''x'' 7 x (sw s) (sw s') \<and>
    gethost_program demo_env (demo_net (cstring_bytes (snd (List.last (sent s'))))) [''-t'', ''x'', ''cc'', ''a.c''] '''' [0] True
      (Waited 3) \<lparr>tries = 0, finished = []\<rparr> =
      Some (EndRan (''DISTCC_HOSTS='' @ (if x = 0 then '''' else ''host1/100,lzo'')) None 3, st') \<and>
    serve demo_env '''' (demo_stream '''' PeerClosed) None 7 s' = Some s2"
proof -
  obtain s where s: "sinv s" "7 \<in> set (fdList s)" "sw s = sw demo_server"
    by (rule demo_accepted) (rule that; assumption)
  have r: "req_ok (peer s 7) (Some (gethost_request demo_ip ''x''))"
    using gethost_parsed [of "''x''" "peer s 7" demo_ip] by (simp add: req_ok_def prop_ok_def c_isspace_def DPROP_MAX_STRLEN_def)
  obtain s' where s': "handleReq demo_env 7 (Some (gethost_request demo_ip ''x'')) s = Some s'"
    using handleReq_ok [OF s(1,2) demo_file_ok r] by blast
  have w: "map_find 7 (sock2DpropDb (sw s)) = None" "map_find 7 (assignedCpus (db_of ''x'' (sw s))) = None"
      "\<not> no_cpus ''x'' (sw s)"
    unfolding s(3) by code_simp+
  obtain opts where o': "gethost_args default_opts [''-t'', ''x'', ''cc'', ''a.c''] = Some (opts, [''cc'', ''a.c''])"
    "distingProp opts = ''x''" "c_str (serverName opts) = CHR ''@'' # ''localhost''" "serverPortNum opts = 9714" "timeout opts = 0"
    by (rule that [of "default_opts\<lparr>distingProp := ''x''\<rparr>"]) code_simp+
  let ?nw = "demo_net (cstring_bytes (snd (List.last (sent s'))))"
    and ?k = "demo_stream (cstring_bytes (gethost_request demo_ip ''x'')) StillOpen"
  have h: "prop_ok ''x''" "NUL \<notin> set ''x''" "my_address demo_env (n_hostname ?nw) = Some demo_ip"
      "length ''localhost'' + 1 < BUFSIZE" "''localhost'' \<noteq> ''''" "0 < serverPortNum opts" "serverPortNum opts < 2 ^ 16"
      "n_socket ?nw" "n_resolves ?nw ''localhost''" "timeout opts \<noteq> - 1" "0 \<le> timeout opts"
    using o' by (simp_all add: prop_ok_def c_isspace_def DPROP_MAX_STRLEN_def NUL_def BUFSIZE_def my_address_def demo_env_def demo_ip_def)
  have k: "stream ?k = cstring_bytes (gethost_request demo_ip ''x'')" "stream (demo_stream '''' PeerClosed) = ''''"
      "ending (demo_stream '''' PeerClosed) \<noteq> StillOpen"
    by (simp_all add: stream_def demo_stream_def)
  have "winv (sw s)" using s(1) by (simp add: sinv_def)
  from gethost_request_served [OF this h(1,2) k(1) s' answer_taken]
  have sv: "serve demo_env '''' ?k (Some [100]) 7 s = Some s'" .
  have c: "n_connect ?nw (tries \<lparr>tries = 0, finished = []\<rparr>) ''localhost'' (of_int (serverPortNum opts)) =
      Some (fed nullconn (cstring_bytes (snd (List.last (sent s')))) PeerClosed)" by simp
  note all = compilation_takes_and_returns_cpu [where child = "Waited 3" and stack = "''''" and ?sends2.0 = None and ?buf2.0 = "''''"
      and ?e2.0 = demo_env, OF s(1,2) w(1,2) o'(1) o'(2) [symmetric] h(1-3) o'(3) h(4-9) k(1) sv c h(10,11) k(2,3)]
  have n: "getHostName demo_env x = ''host1''" for x by (simp add: getHostName_def demo_env_def)
  from conjunct1 [OF all] w(3) obtain x st' where "cpu_taken ''x'' 7 x (sw s) (sw s')"
    "gethost_program demo_env ?nw [''-t'', ''x'', ''cc'', ''a.c''] '''' [0] True (Waited 3) \<lparr>tries = 0, finished = []\<rparr> =
      Some (EndRan (''DISTCC_HOSTS='' @ (if x = 0 then '''' else ''host1/100,lzo'')) None 3, st')"
    by (auto simp: n)
  with s(1,3) sv conjunct2 [OF all] show ?thesis by blast
qed

section \<open>The start and the monitor\<close>

text \<open>
  C13. The port given to the server: a port from 1 to 65535 is the one it binds, and if the socket
  comes up the server starts with no host, watching its socket; a larger number is cut down to 16
  bits; for port 0 it does not come up; a negative number makes it dereference a null pointer.
\<close>

theorem server_binds_its_port:
  assumes "- (2 ^ 31) \<le> p" and "p < 2 ^ 31"
    and "n_hostname nw = Some h" and "n_socket nw" and "n_bind nw (of_int p) = Some port" and "legal_fd fd"
  shows "\<exists>sk sv. server_main nw [''-p'', string_of_int p] fd st =
      (if p < 0 then None else if p = 0 then Some (SvNoSocket, st) else Some (SvUp sk sv, st)) \<and>
    (0 < p \<longrightarrow> sk_port sk = port \<and> sk_kind sk = PM_SERVER \<and> sk_sktname sk = '''' \<and>
      sw sv = DmucsDb_new \<and> fdList sv = [] \<and> listener sv = fd \<and> sinv sv)"
proof -
  have mode: "server_args default_server_opts [''-p'', string_of_int p] = Some (default_server_opts\<lparr>so_port := p\<rparr>)"
    "svrstr p = Some (''s'' @ string_of_int p)"
    using server_args_port [OF assms(1,2)] svrstr_fits [OF assms(1,2)] by simp_all
  consider "p < 0" | "p = 0" | "0 < p" by linarith
  then show ?thesis
  proof cases
    case 1
    then show ?thesis using mode mode_port_negative [of p "CHR ''s''"] by (simp add: server_main_def Sopen_def)
  next
    case 2
    then show ?thesis
      using mode mode_port_digits [of 0 None "CHR ''s''"] by (simp add: server_main_def Sopen_def string_of_int_def)
  next
    case 3
    obtain sv where sv: "server_start fd = Some sv"
      using assms(6) by (auto simp: server_start_def Smaskset_def)
    have "Sopen_server nw (nat p) None st = Some (Some (makeSocket (case n_getenv nw ''PMSHARE'' of Some x \<Rightarrow> x | None \<Rightarrow> h)
        (Some '''') PM_SERVER\<lparr>sk_port := port\<rparr>), st)"
      using 3 assms(3,4,5) by (simp add: Sopen_server_def Let_def)
    then show ?thesis
      using 3 mode mode_port_digits [of p None "CHR ''s''"] assms(2) sv sinv_start [OF sv]
      by (auto simp: server_main_def Sopen_def string_of_int_def makeSocket_def server_start_def)
  qed
qed

theorem server_binds_its_port_witness:
  "\<exists>sk sv. server_main (demo_net '''') [''-p'', string_of_int 9714] 3 \<lparr>tries = 0, finished = []\<rparr> =
     Some (SvUp sk sv, \<lparr>tries = 0, finished = []\<rparr>) \<and> sk_port sk = 9714"
  using server_binds_its_port [of 9714 "demo_net ''''" "''here''" 9714 3 "\<lparr>tries = 0, finished = []\<rparr>"]
  by (simp add: legal_fd_def FD_SETSIZE_def) metis

text \<open>
  C14. What the monitor prints is what the databases hold: when the server has answered a monitor request
  and the text reaches the monitor, the monitor shows, for each distinguishing property, its tiers with
  the number of free cpus of each host, and the known hosts by their state (for properties without
  white space, counts that fit an \<open>int\<close>, and a text that fits the monitor's buffer).
\<close>

theorem monitor_shows_databases:
  assumes "handleReq e sk (Some ''monitor'') s = Some s'"
    and "\<And>d db. (d, db) \<in> set (dbDb (sw s)) \<Longrightarrow> db_printable db"
    and "length (snd (List.last (sent s'))) + 3 \<le> RESULT_MAX_SIZE"
    and "c_str (serverName opts) = CHR ''@'' # host" and "length host + 1 < BUFSIZE" and "host \<noteq> ''''"
    and "0 < serverPortNum opts" and "serverPortNum opts < 2 ^ 16" and "n_socket nw" and "n_resolves nw host"
    and "n_connect nw (tries st) host (of_int (serverPortNum opts)) =
      Some (fed c (cstring_bytes (snd (List.last (sent s')))) z)"
  shows "\<exists>buf st'. monitor_round e' nw opts resultStr st =
      Some (MonShown (concat (map (\<lambda>(d, db). db_shown e' (hosts (sw s)) db) (dbDb (sw s))) @ NL), buf, st') \<and>
    sw s' = sw s"
proof -
  have "parseMsg (peer s sk) ''monitor'' = Some (Some (MonitorReqMsg (peer s sk) ''''))"
    by (simp add: parseMsg_def strprefix_def)
  with assms(1) have "MonitorReq_handle sk s = Some s'" by (simp add: handleReq_def)
  then have s': "sent s' = sent s @ [(sk, DmucsDb_serialize (sw s))]" "sw s' = sw s"
    by (auto simp: MonitorReq_handle_def removeFd_def Sputs_to_def c_str_serialize)
  let ?w = "sw s" and ?txt = "DmucsDb_serialize (sw s)"
  have f: "fits_buf RESULT_MAX_SIZE ?txt" using assms(3) by (simp add: s' fits_buf_def cstr_serialize)
  have "clientPortStr opts = CHR ''c'' # digits10 (serverPortNum opts)"
    using assms(7) by (simp add: clientPortStr_def string_of_int_def)
  then have "Sopen nw (Some (c_str (serverName opts))) (clientPortStr opts) st =
      Some (Sopen_clientport nw host (Some '''') (of_int (serverPortNum opts)) st)"
    using Sopen_at_port [OF assms(7,8,5)] assms(4) by simp
  then have sk: "Sopen nw (Some (c_str (serverName opts))) (clientPortStr opts) st =
      Some (Some (makeSocket host (Some '''') PM_CLIENT\<lparr>sk_port := of_int (serverPortNum opts),
        sk_conn := fed c (cstring_bytes ?txt) z\<rparr>), st\<lparr>tries := tries st + 1\<rparr>)"
    using assms(6,9,10,11) by (simp add: Sopen_clientport_def s')
  have "parseResults e' (cstr ?txt) = Some (concat (map (\<lambda>(d, db). db_shown e' (hosts ?w) db) (dbDb ?w)) @ NL)"
    using parseResults_serialize [OF assms(2)] by (simp add: cstr_serialize)
  from monitor_round_text [OF sk _ _ f this, of c z resultStr] show ?thesis using s' by (auto simp: makeSocket_def)
qed

theorem monitor_shows_databases_witness:
  "\<exists>buf st'. monitor_round demo_env (demo_net (cstring_bytes demo_text)) default_opts '''' \<lparr>tries = 0, finished = []\<rparr> =
      Some (MonShown (''*** '' @ [CHR 0x27] @ ''x'' @ [CHR 0x27] @ '' hosts:'' @ NL @
        ''Tier 3: host1/2 '' @ NL @ ''Avail: host1 '' @ NL @ NL), buf, st')"
proof -
  have "c_str (serverName default_opts) = CHR ''@'' # ''localhost''"
    "0 < serverPortNum default_opts" "serverPortNum default_opts < 2 ^ 16"
    by code_simp+
  moreover have "length demo_text + 3 \<le> RESULT_MAX_SIZE" by code_simp
  ultimately show ?thesis
    using monitor_shows_databases [OF demo_asked_handled(1), where opts = default_opts and host = "''localhost''"
      and nw = "demo_net (cstring_bytes demo_text)" and c = nullconn and z = PeerClosed and e' = demo_env
      and resultStr = "''''" and st = "\<lparr>tries = 0, finished = []\<rparr>"] demo_printable
    by (simp add: demo_asked_handled(2) demo_shown BUFSIZE_def)
qed

section \<open>Hosts\<close>

text \<open>
  C15. A load report from a known host returns; the host has the new load averages (divided by its
  number of cpus), the tier they give, the time of the report, and its state follows: an available
  host whose tier falls to 0 becomes overloaded, a silent host or an overloaded one whose tier is not
  0 any more becomes available, an unavailable host stays unavailable.  No other host changes.
\<close>

theorem load_report_effect:
  assumes "winv w" and "DmucsDb_getHost a d w = Inr p"
  shows "\<exists>w'. load_report e a l1 l5 l10 d w inst = Some (w', inst) \<and> winv w' \<and>
    (let h = hosts w p; T = report_tier h l1 l5 l10; h' = hosts w' p
     in getTier h' = T \<and> h_lastUpdate h' = now e \<and> h_ldavg1 h' = new_avgs h l1 \<and>
        h_ldavg5 h' = new_avgs h l5 \<and> h_ldavg10 h' = new_avgs h l10 \<and>
        h_state h' = revived (report_state h T) T \<and> h_ip h' = h_ip h \<and> h_ncpus h' = h_ncpus h) \<and>
    (\<forall>q. q \<noteq> p \<longrightarrow> hosts w' q = hosts w q)"
proof -
  let ?w0 = "resolve_name e p w"
  obtain w1 w' where w': "load_report e a l1 l5 l10 d w inst = Some (w', inst)" "winv w'"
    and r: "reported (now e) p l1 l5 l10 ?w0 w1" and f: "world_frame p w1 w'"
    and h': "hosts w' p = (hosts w1 p)\<lparr>h_state :=
      (if h_state (hosts w1 p) = StateSilent \<or> (h_state (hosts w1 p) = StateOverloaded \<and> getTier (hosts w1 p) \<noteq> 0)
       then StateAvail else h_state (hosts w1 p))\<rparr>"
    using load_report_known [OF assms] by blast
  have h1: "hosts w1 = (hosts ?w0)(p := report_host (now e) l1 l5 l10 (hosts ?w0 p))"
    using r by (simp add: reported_def)
  have t: "report_tier (hosts ?w0 p) l1 l5 l10 = report_tier (hosts w p) l1 l5 l10"
    "new_avgs (hosts ?w0 p) = new_avgs (hosts w p)"
    "report_state (hosts ?w0 p) = report_state (hosts w p)"
    by (simp_all add: report_tier_def new_avgs_def report_state_def fun_eq_iff resolve_name_def
        DmucsHost_getName_def Let_def getTier_def)
  have "hosts w' q = hosts w q" if "q \<noteq> p" for q
    using that f h1 by (simp add: world_frame_def resolve_name_def)
  moreover have "getTier (hosts w' p) = getTier (hosts w1 p)" by (simp add: h' getTier_def)
  ultimately show ?thesis
    using w' h1 h'
    by (intro exI [of _ w'], simp add: Let_def revived_def t) (simp add: report_host_def set_ldavgs_def t)
qed

theorem load_report_effect_witness:
  "\<exists>w'. load_report demo_env demo_ip (Fin 9) (Fin 9) (Fin 9) ''x'' demo_world None = Some (w', None) \<and>
    h_state (hosts w' 0) = StateOverloaded"
proof -
  have "revived (report_state (hosts demo_world 0) (report_tier (hosts demo_world 0) (Fin 9) (Fin 9) (Fin 9)))
      (report_tier (hosts demo_world 0) (Fin 9) (Fin 9) (Fin 9)) = StateOverloaded" by code_simp
  with load_report_effect [OF demo_winv demo_getHost, of demo_env "Fin 9" "Fin 9" "Fin 9" None]
  show ?thesis by (auto simp: Let_def)
qed

text \<open>
  C16. \<open>updateTier\<close> keeps the cpus with their host: the unassigned cpus of the host are all in its
  new tier afterwards, as many as there were in the old one, unless the host leaves the available
  state, in which case none is left; the cpus of other hosts stay where they are.
\<close>

theorem updateTier_moves_cpus:
  assumes "winv w" and "knows w p"
  shows "\<exists>w'. updateTier t p l1 l5 l10 w = Some w' \<and> winv w' \<and>
    (\<forall>s x. count_list (tier_cpus s (dprop_db_of w' p)) x =
      (if x = h_ip (hosts w p)
       then (if h_state (hosts w' p) = StateAvail \<and> s = getTier (hosts w' p)
             then count_list (tier_cpus (getTier (hosts w p)) (dprop_db_of w p)) x else 0)
       else count_list (tier_cpus s (dprop_db_of w p)) x))"
  using updateTier_ok [OF assms, of t l1 l5 l10] by (auto simp: reported_def)

theorem updateTier_moves_cpus_witness:
  "\<exists>w'. updateTier 50 0 (Fin 2) (Fin 2) (Fin (1/2)) demo_world = Some w' \<and> winv w' \<and>
    count_list (tier_cpus 2 (dprop_db_of w' 0)) demo_ip = 2"
proof -
  have e: "map_option (\<lambda>w'. h_state (hosts w' 0) = StateAvail \<and> getTier (hosts w' 0) = 2)
      (updateTier 50 0 (Fin 2) (Fin 2) (Fin (1/2)) demo_world) = Some True"
    "count_list (tier_cpus (getTier (hosts demo_world 0)) (dprop_db_of demo_world 0)) demo_ip = 2"
    "h_ip (hosts demo_world 0) = demo_ip" by code_simp+
  from updateTier_moves_cpus [OF demo_winv demo_knows, of 50 "Fin 2" "Fin 2" "Fin (1/2)"] e
  show ?thesis by force
qed

text \<open>
  C17. The events of a host implement its state machine: each of \<open>avail\<close>, \<open>unavail\<close>, \<open>silent\<close> and
  \<open>overloaded\<close> either is ignored and changes nothing, or moves the host to the state the transition
  table names, with all its cpus in its tier if that state is available and none otherwise, and
  nothing else of the world changed.
\<close>

theorem events_follow_transitions:
  assumes "winv w" and "knows w p"
  shows "event_result (avail_target (h_state (hosts w p)) (getTier (hosts w p))) p w (DmucsHost_avail p w) \<and>
    event_result (unavail_target (h_state (hosts w p))) p w (DmucsHost_unavail p w) \<and>
    event_result (silent_target (h_state (hosts w p))) p w (DmucsHost_silent p w) \<and>
    event_result (overloaded_target (h_state (hosts w p))) p w (DmucsHost_overloaded p w)"
  using avail_event [OF assms] unavail_event [OF assms] silent_event [OF assms] overloaded_event [OF assms]
  by blast

theorem events_follow_transitions_witness:
  "\<exists>w'. DmucsHost_unavail 0 demo_world = Some w' \<and> moved 0 StateUnavail demo_world w'"
proof -
  have "h_state (hosts demo_world 0) = StateAvail" by code_simp
  with events_follow_transitions [OF demo_winv demo_knows] show ?thesis by (simp add: event_result_def)
qed

text \<open>
  C18. The sweep for silent hosts returns and does exactly what it should: the known hosts that were
  last heard of more than 60 seconds ago go from available or overloaded to silent, no other host
  changes, and the lists of hosts, the assignments and the statistics stay.
\<close>

theorem sweep_silences_exactly:
  assumes "winv w"
  shows "\<exists>w'. DmucsDb_handleSilentHosts t w = Some w' \<and> winv w' \<and> quiet w w' \<and>
    (\<forall>p. hosts w' p = (if p \<in> known_hosts w \<and> 60 < t - h_lastUpdate (hosts w p)
      then (hosts w p)\<lparr>h_state := silenced (h_state (hosts w p))\<rparr> else hosts w p))"
  using handleSilentHosts_ok [OF assms, of t]
  by (auto simp: sweep_hosts_def seemsDown_def DMUCS_HOST_SILENT_TIME_def)

theorem sweep_silences_exactly_witness:
  "\<exists>w'. DmucsDb_handleSilentHosts 1000 demo_world = Some w' \<and> h_state (hosts w' 0) = StateSilent"
proof -
  have "0 \<in> known_hosts demo_world" using knows_iff [OF demo_winv] demo_knows by simp
  moreover have "h_state (hosts demo_world 0) = StateAvail" "h_lastUpdate (hosts demo_world 0) = 0"
    by code_simp+
  ultimately show ?thesis using sweep_silences_exactly [OF demo_winv, of 1000] by auto
qed

section \<open>The PortMaster\<close>

text \<open>
  C19. The PortMaster implements the directory: for each kind of request, from a client the firewall
  lets in, the connection is answered and closed, the bytes of the answer and the table afterwards
  are those of the abstract directory step, and nothing else changes (when the first waiting client
  does not wait for the server that is announced).
\<close>

theorem portmaster_implements_directory:
  assumes "request_fits r" and "e \<noteq> SelectError" and "\<not> firewall s c"
    and "\<And>nm. request_server r = Some nm \<Longrightarrow> cwhd s = [] \<or> cw_sktname (hd (cwhd s)) \<noteq> nm"
  shows "\<exists>s' c'. spm_accept env (fed c (request_bytes r) e) s = Some (True, s') \<and>
    phd s' = fst (dir_step r (phd s)) \<and> cwhd s' = cwhd s \<and> spmfwhd s' = spmfwhd s \<and> hostaddr s' = hostaddr s \<and>
    sclosed s' = sclosed s @ [c'] \<and> cid c' = cid c \<and>
    out c' = out c @ put16 PM_OK @ snd (dir_step r (phd s))"
  using request_handled [OF assms(1,2,3), of env] assms(4) unfolding handled_def by blast

theorem portmaster_implements_directory_witness:
  "\<exists>s' c'. spm_accept demo_pm_env (fed nullconn (request_bytes (Register ''talk'' 4711)) PeerClosed) demo_pm = Some (True, s') \<and>
    phd s' = [\<lparr>pt_sktname = ''talk'', pt_sharehost = None, pt_port = 4711\<rparr>] \<and> sclosed s' = [c'] \<and>
    out c' = put16 PM_OK @ put16 PM_OK"
  using portmaster_implements_directory [of "Register ''talk'' 4711" PeerClosed demo_pm nullconn demo_pm_env]
  by (simp add: pt_look_def pt_enter_def del: request_bytes.simps) blast

text \<open>
  C20. Whatever bytes the clients send: after the PortMaster has served the connections \<open>cs\<close>, one after the
  other, the names in its table are all different, and the connections it has closed and those in the list of
  waiting clients are exactly these connections, each of them once: none is lost, and none is closed twice, or
  closed and still waiting.
\<close>

theorem portmaster_invariant:
  assumes "spm_history env cs s"
  shows "distinct (map pt_sktname (phd s)) \<and>
    mset (map cid (sclosed s) @ map (\<lambda>w. cid (cw_client w)) (cwhd s)) = mset (map cid cs) \<and>
    distinct (map cid (sclosed s) @ map (\<lambda>w. cid (cw_client w)) (cwhd s))"
  using spm_history_inv [OF assms] by (simp add: spm_inv_def names_ok_def names_def conns_def conn_ids_def)

theorem portmaster_invariant_witness:
  "\<exists>s. spm_history demo_pm_env [demo_caller, demo_waiter] s \<and> length (sclosed s) = 1 \<and> length (cwhd s) = 1 \<and>
    distinct (map pt_sktname (phd s)) \<and>
    mset (map cid (sclosed s) @ map (\<lambda>w. cid (cw_client w)) (cwhd s)) = {#cid demo_caller, cid demo_waiter#}"
proof (rule demo_busy_history)
  fix s
  assume h: "spm_history demo_pm_env [demo_caller, demo_waiter] s" and c: "map cid (sclosed s) = [0]"
    "map (\<lambda>w. (cw_sktname w, cid (cw_client w))) (cwhd s) = [(''b'', 1)]"
  have "length (sclosed s) = 1" "length (cwhd s) = 1"
    using arg_cong [OF c(1), of length] arg_cong [OF c(2), of length] by simp_all
  with portmaster_invariant [OF h] h show ?thesis by auto
qed

text \<open>
  C21. A round of the PortMaster accounts for the connection it serves, whatever arrives on it: if the
  round returns, exactly that connection has been added to the closed or the waiting ones, and names
  that were different stay different.
\<close>

theorem portmaster_accounts_for_connections:
  assumes "spm_accept env c s = Some (go, s')" and "cid c \<notin> set (conn_ids s)"
  shows "mset (conn_ids s') = add_mset (cid c) (mset (conn_ids s)) \<and> (names_ok s \<longrightarrow> names_ok s')"
  using spm_accept_accounted [OF assms(1)] assms(2) by (simp add: conns_def)

theorem portmaster_accounts_for_connections_witness:
  "\<exists>s'. spm_accept demo_pm_env (fed nullconn '''' PeerClosed) demo_pm = Some (True, s') \<and>
    mset (conn_ids s') = {#0#}"
proof -
  have a: "spm_accept demo_pm_env (fed nullconn '''' PeerClosed) demo_pm =
      Some (True, demo_pm\<lparr>sclosed := [fed nullconn '''' PeerClosed]\<rparr>)"
    by (simp add: spm_accept_def event_loop.simps)
  from portmaster_accounts_for_connections [OF a] a show ?thesis by (simp add: conn_ids_def)
qed

text \<open>
  C22. When a server is registered for which the first of the waiting clients waits: if all of them
  wait for it, they all get its port and their connections are closed; if one waits for another
  server, the loop over the waiting clients never ends and the PortMaster hangs.
\<close>

theorem registration_with_waiting_clients:
  assumes "fits_buf BUFSIZE nm" and "e \<noteq> SelectError" and "\<not> firewall s c" and "pt_look (cstr nm) (phd s) = None"
    and "cwhd s \<noteq> []" and "cw_sktname (hd (cwhd s)) = cstr nm"
  shows "if list_all (\<lambda>w. cw_sktname w = cstr nm) (cwhd s)
    then (\<exists>s' c'. spm_accept env (fed c (request_bytes (Register nm port)) e) s = Some (True, s') \<and>
      phd s' = pt_enter (cstr nm) (None, port) (phd s) \<and> cwhd s' = [] \<and>
      sclosed s' = sclosed s @ map (\<lambda>w. put_bytes (put16 PM_OK @ put16 port) (cw_client w)) (cwhd s) @ [c'] \<and>
      out c' = out c @ put16 PM_OK @ put16 PM_OK)
    else spm_accept env (fed c (request_bytes (Register nm port)) e) s = None"
  by (rule register_waiters [OF assms])

theorem registration_with_waiting_clients_witness:
  "spm_accept demo_pm_env (fed nullconn (request_bytes (Register ''a'' 5)) PeerClosed)
     (demo_pm\<lparr>cwhd := [\<lparr>cw_client = nullconn\<lparr>cid := 1\<rparr>, cw_sktname = ''a''\<rparr>,
        \<lparr>cw_client = nullconn\<lparr>cid := 2\<rparr>, cw_sktname = ''b''\<rparr>]\<rparr>) = None"
  using registration_with_waiting_clients [of "''a''" PeerClosed "demo_pm\<lparr>cwhd := [\<lparr>cw_client = nullconn\<lparr>cid := 1\<rparr>, cw_sktname = ''a''\<rparr>,
        \<lparr>cw_client = nullconn\<lparr>cid := 2\<rparr>, cw_sktname = ''b''\<rparr>]\<rparr>" nullconn demo_pm_env 5]
  by (simp add: pt_look_def del: request_bytes.simps)

text \<open>
  C23. One byte is enough to stop the PortMaster: a client that sends half of an event and then
  closes the connection (or falls silent) makes it loop (or wait) for ever.
\<close>

theorem half_event_stops_portmaster:
  assumes "\<not> firewall s c" and "e = PeerClosed \<or> e = StillOpen"
  shows "spm_accept env (fed c [b] e) s = None"
  by (rule half_event_hangs [OF assms])

theorem half_event_stops_portmaster_witness:
  "spm_accept demo_pm_env (fed nullconn [CHR ''x''] PeerClosed) demo_pm = None"
  by (rule half_event_stops_portmaster) simp_all

text \<open>
  C24. A server is in the table as soon as its port has been read: one that goes away without the
  final acknowledgement stays there, although nobody listens on its port.
\<close>

theorem unacknowledged_server_stays:
  assumes "fits_buf BUFSIZE nm" and "e \<noteq> SelectError" and "\<not> firewall s c" and "pt_look (cstr nm) (phd s) = None"
  shows "\<exists>s'. spm_accept env (fed c (put16 PM_SERVER_EV @ cstring_bytes nm @ put16 port) e) s = Some (True, s') \<and>
    phd s' = pt_enter (cstr nm) (None, port) (phd s) \<and> cwhd s' = cwhd s"
  by (rule register_unfinished [OF assms])

theorem unacknowledged_server_stays_witness:
  "\<exists>s'. spm_accept demo_pm_env (fed nullconn (put16 PM_SERVER_EV @ cstring_bytes ''a'' @ put16 5) PeerClosed) demo_pm =
      Some (True, s') \<and> phd s' = pt_enter ''a'' (None, 5) [] \<and> cwhd s' = []"
  using unacknowledged_server_stays [of "''a''" PeerClosed demo_pm nullconn demo_pm_env 5] by (simp add: pt_look_def)

text \<open>
  C25. The rule that is to let the PortMaster's own host through the firewall does so only when each
  byte of its address is below 128 (or 255, which acts as a wild card): the bytes are kept in signed
  characters.
\<close>

theorem firewall_own_host:
  assumes "length addr = 4" and "length pre = 2" and "spm_fopen env fwfile = Some ''''" and "fwfile \<noteq> ''''"
    and "peeraddr c = Some (pre @ addr)"
  shows "firewall (spm_start env (Some addr) fwfile) c \<longleftrightarrow>
    \<not> list_all (\<lambda>b. (of_char b :: int) < 128 \<or> (of_char b :: int) = 255) addr"
proof -
  have "spmfwhd (spm_start env (Some addr) fwfile) = [[- 1, - 1] @ hostaddr_init addr]"
    using assms(3,4) by (simp add: spm_start_def firewall_init_def Let_def fw_lines.simps fgets_def)
  with assms(5) own_host_match [OF assms(1,2)] show ?thesis by (simp add: firewall_def)
qed

theorem firewall_own_host_witness:
  "firewall (spm_start demo_pm_env (Some [CHR 0xC0, CHR 0x0A, CHR 0x01, CHR 0x02]) ''fw'')
     (nullconn\<lparr>peeraddr := Some [CHR 0x00, CHR 0x50, CHR 0xC0, CHR 0x0A, CHR 0x01, CHR 0x02]\<rparr>)"
  using firewall_own_host [of "[CHR 0xC0, CHR 0x0A, CHR 0x01, CHR 0x02]" "[CHR 0x00, CHR 0x50]" demo_pm_env "''fw''"
    "nullconn\<lparr>peeraddr := Some [CHR 0x00, CHR 0x50, CHR 0xC0, CHR 0x0A, CHR 0x01, CHR 0x02]\<rparr>"]
  by (simp add: of_char_def demo_pm_env_def)

text \<open>
  C26. An unknown host that the hosts-info file lists is added: it is known under its property,
  available, and its cpus are all unassigned in the tier of its power index; one that the file does
  not list is not added.
\<close>

theorem createHost_adds_listed_host:
  assumes "winv w" and "\<not> DmucsDb_haveHost a d w" and "file_ok e" and "inst_ok inst"
    and "HostsFile_getInstance e inst = Some hf" and "getDataForHost e a hf = Some ((found, n, pix), hf')"
  shows "\<exists>r w'. createHost e a d w inst = Some (r, w', Some hf') \<and>
    (if found then host_added a d n pix w w' else w' = w)"
proof -
  have "0 \<le> n"
    using getDataForHost_ok [OF assms(3), of hf a] getInstance_ok [OF assms(3,4)] assms(5,6) by auto
  from addNewHost_ok [OF assms(1,2) this, of pix] assms(5,6) show ?thesis
    by (auto simp: createHost_def)
qed

theorem createHost_adds_listed_host_witness:
  "\<exists>r w' hf. createHost demo_env demo_ip ''x'' DmucsDb_new None = Some (r, w', Some hf) \<and>
    host_added demo_ip ''x'' 2 3 DmucsDb_new w'"
proof -
  have f: "\<not> DmucsDb_haveHost demo_ip ''x'' DmucsDb_new"
    by (simp add: DmucsDb_haveHost_def DmucsDb_new_def)
  have "map_option fst (Option.bind (HostsFile_getInstance demo_env None) (getDataForHost demo_env demo_ip))
      = Some (True, 2, 3)" by code_simp
  then obtain hf hf' where "HostsFile_getInstance demo_env None = Some hf"
    "getDataForHost demo_env demo_ip hf = Some ((True, 2, 3), hf')"
    by (auto simp: bind_eq_Some_conv)
  from createHost_adds_listed_host [OF winv_new f demo_file_ok _ this] show ?thesis
    by (auto simp: inst_ok_def)
qed

text \<open>
  C27. A host that goes down and comes up again while one of its cpus is assigned ends up with more
  unassigned cpus than it has: the way back adds all its cpus again, and the release adds the
  assigned one once more.
\<close>

theorem down_up_release_overcommits:
  assumes w: "winv w" and k: "knows w p" and st: "h_state (hosts w p) = StateAvail"
    and t: "getTier (hosts w p) \<noteq> 0" and s: "map_find sk (sock2DpropDb w) = Some (h_dprop (hosts w p))"
    and a: "map_find sk (assignedCpus (dprop_db_of w p)) = Some (h_ip (hosts w p))"
  shows "\<exists>w1 w2 w3. DmucsHost_unavail p w = Some w1 \<and> DmucsHost_avail p w1 = Some w2 \<and>
    DmucsDb_releaseCpu e sk w2 = Some w3 \<and>
    count_list (tier_cpus (getTier (hosts w p)) (db_of (h_dprop (hosts w p)) w3)) (h_ip (hosts w p))
      = nat (h_ncpus (hosts w p)) + 1"
proof -
  let ?d = "h_dprop (hosts w p)" and ?T = "getTier (hosts w p)" and ?x = "h_ip (hosts w p)"
  obtain w1 w2 where w1: "DmucsHost_unavail p w = Some w1" and w2: "DmucsHost_avail p w1 = Some w2"
    and W2: "winv w2" and fr: "world_frame p w w2" and h2: "hosts w2 p = (hosts w p)\<lparr>h_state := StateAvail\<rparr>"
    and c2: "count_list (tier_cpus ?T (dprop_db_of w2 p)) ?x = nat (h_ncpus (hosts w p))"
    by (rule down_up [OF w k st t])
  have T2: "getTier (hosts w2 p) = ?T" by (simp add: h2 getTier_def)
  have k2: "knows w2 p" by (rule knows_frame [OF fr k])
  obtain db db2 where db: "map_find ?d (dbDb w) = Some db" and db2: "map_find ?d (dbDb w2) = Some db2"
    and r: "same_rest db db2"
    using fr k by (auto simp: knows_def world_frame_def)
  have s2: "map_find sk (sock2DpropDb w2) = Some ?d" using s fr by (simp add: world_frame_def)
  have d2: "db_of ?d w2 = db2" "dprop_db_of w2 p = db2" "dprop_db_of w p = db"
    using db db2 h2 by (simp_all add: db_of_def dprop_db_of_def)
  have cnt: "count_list (tier_cpus ?T db2) ?x = nat (h_ncpus (hosts w p))"
    using c2 d2(2) by simp
  have sok2: "sets_ok {} (hosts w2) db2" using winv_D(3) [OF W2 db2] by (simp add: dinv_def)
  have p2: "p \<in> set (availHosts db2)"
    using avail_iff [OF sok2, of p] k2 db2 h2 by (auto simp: knows_def)
  obtain w3 where w3: "DmucsDb_releaseCpu e sk w2 = Some w3"
    "tier_cpus ?T (db_of ?d w3) = tier_cpus ?T db2 @ [?x]"
  proof (rule release_world [OF W2 s2, of e])
    fix db' x w' assume d: "map_find ?d (dbDb w2) = Some db'" and as: "map_find sk (assignedCpus db') = Some x"
      and rel: "DmucsDb_releaseCpu e sk w2 = Some w'"
      and tc: "\<And>t. tier_cpus t (db_of ?d w') = tier_cpus t db' @
        (if \<exists>p\<in>set (availHosts db'). h_ip (hosts w2 p) = x \<and> getTier (hosts w2 p) = t then [x] else [])"
    have e: "db' = db2" using d db2 by simp
    then have "x = ?x" using as a r d2(3) by (simp add: same_rest_def)
    then have "\<exists>p\<in>set (availHosts db'). h_ip (hosts w2 p) = x \<and> getTier (hosts w2 p) = ?T"
      using p2 e h2 T2 by (intro bexI [of _ p]) simp_all
    with tc [of ?T] rel e \<open>x = ?x\<close> that show thesis by simp
  qed
  with w1 w2 cnt show ?thesis by auto
qed

theorem down_up_release_overcommits_witness:
  "\<exists>x w w1 w2 w3. take_cpu demo_env ''x'' 7 demo_world = Some (x, w) \<and>
    DmucsHost_unavail 0 w = Some w1 \<and> DmucsHost_avail 0 w1 = Some w2 \<and>
    DmucsDb_releaseCpu demo_env 7 w2 = Some w3 \<and> h_ncpus (hosts w 0) = 2 \<and>
    count_list (tier_cpus 3 (db_of ''x'' w3)) demo_ip = 3"
proof -
  obtain x w where w: "take_cpu demo_env ''x'' 7 demo_world = Some (x, w)" "winv w"
    using take_cpu_ok [OF demo_winv, of demo_env "''x''" 7] by blast
  have e: "map_option (\<lambda>(x, w). (map_find 7 (sock2DpropDb w), map_find 7 (assignedCpus (dprop_db_of w 0)),
      h_state (hosts w 0), getTier (hosts w 0), h_dprop (hosts w 0), h_ip (hosts w 0), h_ncpus (hosts w 0),
      map (\<lambda>(d, db). (d, allHosts db)) (dbDb w)))
    (take_cpu demo_env ''x'' 7 demo_world) =
    Some (Some ''x'', Some demo_ip, StateAvail, 3, ''x'', demo_ip, 2, [(''x'', [0])])" by code_simp
  have k: "knows w 0"
    using e w(1) unfolding knows_iff [OF w(2)] known_hosts_def by force
  show ?thesis
    using down_up_release_overcommits [OF w(2) k, of 7 demo_env] e w(1) by auto
qed

text \<open>
  C28. A hosts-info file that is written line by line (blank lines, comments, entries of a machine, a number of
  cpus and a power index, and entries in which one of the numbers is missing) is read as it was meant: each address has the
  number of cpus and the power index of the first entry that names it.  Comments, blank lines and machines that the name
  service does not know are skipped, and nothing is read from the first faulty entry on.
\<close>

theorem first_hosts_entry_wins:
  assumes "hosts_text e = Some (file_text ls)" and "list_all line_ok ls"
  shows "\<exists>m. readFileIntoDb e = Some m \<and> (\<forall>a. map_find a m = map_of (listed e ls) a)"
  by (rule readFileIntoDb_text [OF assms])

theorem first_hosts_entry_wins_witness:
  "\<exists>m. readFileIntoDb demo_names = Some m \<and> map_find 67305985 m = Some (2, 3) \<and>
    map_find 33620225 m = Some (8, 9) \<and> map_find 16777343 m = None"
  using first_hosts_entry_wins [OF demo_lines_ok] by (auto simp: demo_listed)

section \<open>Text and clients\<close>

text \<open>
  C29. The server understands a host request: whatever address and distinguishing property (a word
  of at most 64 characters, or none) \<open>gethost\<close> sends, the server parses a host request for that
  property.
\<close>

theorem gethost_request_understood:
  assumes "prop_ok d"
  shows "parseMsg cl (gethost_request a d) = Some (Some (HostReqMsg cl d))"
  by (rule gethost_parsed [OF assms])

theorem gethost_request_understood_witness:
  "parseMsg 9 (gethost_request 16777343 ''solaris'') = Some (Some (HostReqMsg 9 ''solaris''))"
  by (rule gethost_request_understood) code_simp

text \<open>
  C30. The server understands a load report: it gets the address and the property \<open>loadavg\<close> sent,
  and each load average rounded to two decimals and then to a \<open>float\<close>.
\<close>

theorem loadavg_request_understood:
  assumes "prop_ok d" and "load_string (Fin x) (Fin y) (Fin z) = Some ldStr"
    and "0 \<le> x" and "0 \<le> y" and "0 \<le> z"
  shows "parseMsg cl (loadavg_request a ldStr d) =
    Some (Some (LdAvgMsg cl a (cents x) (cents y) (cents z) d))"
  by (rule loadavg_parsed [OF assms])

theorem loadavg_request_understood_witness:
  "parseMsg 9 (loadavg_request 16777343 '' 0.50 1.25 2.00'' '''') =
    Some (Some (LdAvgMsg 9 16777343 (cents (1/2)) (cents (5/4)) (cents 2) ''''))"
  by (rule loadavg_request_understood; code_simp)

section \<open>Programs and the PortMaster\<close>

text \<open>
  C31. \<open>Sopen\<close> finds a server: let the PortMaster of a host know the server, and let \<open>Sopen\<close> be
  connected to that PortMaster, so that it reads what the PortMaster answers to the bytes that \<open>Sopen\<close>
  writes.  Then \<open>Sopen\<close> goes on to connect to the port in the PortMaster's table, on the server's own
  host if the table names one.
\<close>

theorem sopen_finds_server:
  assumes "pt_find nm (phd s) = Some p" and "cstr nm = nm" and "nm \<noteq> ''''" and "CHR ''@'' \<notin> set nm"
    and "take 1 nm \<noteq> ''$''" and "length nm + length host + 3 < BUFSIZE" and "host \<noteq> ''''"
    and "\<And>h. pt_sharehost p = Some h \<Longrightarrow> fits_buf BUFSIZE h"
    and "\<not> firewall s c" and "out c = ''''" and "e \<noteq> SelectError" and "e' \<noteq> SelectError"
    and "n_socket nw" and "n_resolves nw host"
  shows "\<exists>s' c'. spm_accept env (fed c (request_bytes (Lookup nm)) e) s = Some (True, s') \<and>
    sclosed s' = sclosed s @ [c'] \<and>
    (let nw' = answering nw (tries st) host (fed cc (out c') e') in
      Sopen nw' (Some (nm @ ''@'' @ host)) ''c'' st =
        Some (Sopen_clientport nw' (case pt_sharehost p of Some h \<Rightarrow> if cstr h = '''' then host else cstr h | None \<Rightarrow> host)
          (Some nm) (pt_port p) (talked (fed (put_bytes (request_bytes (Lookup nm)) cc) [] e') st)))"
proof -
  have fit: "request_fits (Lookup nm)" using assms(2,6) by (simp add: fits_buf_def BUFSIZE_def)
  have "snd (dir_step (Lookup nm) (phd s)) = port_reply p"
    by (rule pt_look_port_reply [OF assms(2,1)])
  with request_handled [OF fit assms(11,9), of env] assms(10)
  obtain s' c' where h: "spm_accept env (fed c (request_bytes (Lookup nm)) e) s = Some (True, s')"
    "sclosed s' = sclosed s @ [c']" "out c' = put16 PM_OK @ port_reply p"
    unfolding handled_def by auto
  have "length nm + length host + 1 < BUFSIZE" using assms(6) by simp
  note found = Sopen_client_found [OF assms(3,4,5) this assms(7) _ _ assms(12,8),
    where st = st and c = cc and nw = "answering nw (tries st) host (fed cc (out c') e')"]
  have "let nw' = answering nw (tries st) host (fed cc (out c') e') in
      Sopen nw' (Some (nm @ ''@'' @ host)) ''c'' st =
        Some (Sopen_clientport nw' (case pt_sharehost p of Some h \<Rightarrow> if cstr h = '''' then host else cstr h | None \<Rightarrow> host)
          (Some nm) (pt_port p) (talked (fed (put_bytes (request_bytes (Lookup nm)) cc) [] e') st))"
    unfolding Let_def by (rule found) (use assms(13,14) h(3) in simp_all)
  with h(1,2) show ?thesis by blast
qed

theorem sopen_finds_server_witness:
  "\<exists>s' c'. spm_accept demo_pm_env (fed nullconn (request_bytes (Lookup ''a'')) PeerClosed) demo_pm2 = Some (True, s') \<and>
    sclosed s' = [c'] \<and>
    (let nw' = answering (demo_net '''') 0 ''h'' (fed nullconn (out c') PeerClosed) in
      Sopen nw' (Some ''a@h'') ''c'' \<lparr>tries = 0, finished = []\<rparr> =
        Some (Sopen_clientport nw' ''pc'' (Some ''a'') 5
          (talked (fed (put_bytes (request_bytes (Lookup ''a'')) nullconn) [] PeerClosed) \<lparr>tries = 0, finished = []\<rparr>)))"
  using sopen_finds_server [of "''a''" demo_pm2 "\<lparr>pt_sktname = ''a'', pt_sharehost = Some ''pc'', pt_port = 5\<rparr>" "''h''" nullconn
    PeerClosed PeerClosed "demo_net ''''" demo_pm_env
    "\<lparr>tries = 0, finished = []\<rparr>" nullconn]
  by (simp del: request_bytes.simps)

text \<open>
  C32. \<open>Sopen\<close> registers a server: the PortMaster of the host, given what \<open>Sopen\<close> writes, enters the
  name with the port the socket is bound to, and \<open>Sopen\<close> gives the socket; if the name is already in
  the table, the table stays and \<open>Sopen\<close> gives the null pointer.
\<close>

theorem sopen_registers_server:
  assumes "cstr nm = nm" and "nm \<noteq> ''''" and "CHR ''@'' \<notin> set nm" and "take 1 nm \<noteq> ''$''" and "length nm + 3 \<le> BUFSIZE"
    and "\<not> firewall s c" and "out c = ''''" and "e \<noteq> SelectError" and "e' \<noteq> SelectError" and "cwhd s = []"
    and "n_socket nw" and "n_hostname nw = Some host" and "n_getenv nw ''PMSHARE'' = None" and "host \<noteq> ''''"
    and "n_resolves nw host" and "n_bind nw 0 = Some port"
  shows "\<exists>s' c' c2 sk. spm_accept env (fed c (request_bytes (Register nm port)) e) s = Some (True, s') \<and>
    sclosed s' = sclosed s @ [c'] \<and>
    Sopen (answering nw (tries st) host (fed cc (out c') e')) (Some nm) ''s'' st = Some (sk, talked c2 st) \<and>
    (if pt_look nm (phd s) = None
     then phd s' = pt_enter nm (None, port) (phd s) \<and> out c2 = out cc @ request_bytes (Register nm port) \<and>
       sk = Some (makeSocket host (Some nm) PM_SERVER\<lparr>sk_port := port\<rparr>)
     else phd s' = phd s \<and> sk = None)"
proof -
  have fit: "request_fits (Register nm port)" using assms(1,5) by (simp add: fits_buf_def)
  let ?a = "if pt_look nm (phd s) = None then PM_OK else PM_SORRY"
  have a: "snd (dir_step (Register nm port) (phd s)) = put16 ?a"
    "fst (dir_step (Register nm port) (phd s)) = (if pt_look nm (phd s) = None then pt_enter nm (None, port) (phd s) else phd s)"
    using assms(1) by (simp_all split: option.split)
  with request_handled [OF fit assms(8,6), of env] assms(7,10)
  obtain s' c' where h: "spm_accept env (fed c (request_bytes (Register nm port)) e) s = Some (True, s')"
    "sclosed s' = sclosed s @ [c']" "out c' = put16 PM_OK @ put16 ?a"
    "phd s' = (if pt_look nm (phd s) = None then pt_enter nm (None, port) (phd s) else phd s)"
    unfolding handled_def by auto
  have "?a = PM_OK \<or> ?a = PM_SORRY" by simp
  from Sopen_server_answered [OF assms(2,3,4) _ _ _ assms(14) _ _ assms(9) this, where st = st and c = cc and port = port
    and nw = "answering nw (tries st) host (fed cc (out c') e')"] assms(11,12,13,15,16) h(3)
  obtain c2 where "Sopen (answering nw (tries st) host (fed cc (out c') e')) (Some nm) ''s'' st =
      Some (if ?a = PM_OK then Some (makeSocket host (Some nm) PM_SERVER\<lparr>sk_port := port\<rparr>) else None, talked c2 st)"
    "?a = PM_OK \<longrightarrow> out c2 = out cc @ request_bytes (Register nm port)"
    by auto
  with h(1,2,4) show ?thesis by (cases "pt_look nm (phd s) = None") (auto simp del: request_bytes.simps)
qed

theorem sopen_registers_server_witness:
  "\<exists>s' c' c2. spm_accept demo_pm_env (fed nullconn (request_bytes (Register ''a'' 4711)) PeerClosed) demo_pm = Some (True, s') \<and>
    sclosed s' = [c'] \<and> phd s' = pt_enter ''a'' (None, 4711) [] \<and> out c2 = request_bytes (Register ''a'' 4711) \<and>
    Sopen (answering (demo_net '''') 0 ''here'' (fed nullconn (out c') PeerClosed)) (Some ''a'') ''s'' \<lparr>tries = 0, finished = []\<rparr> =
      Some (Some (makeSocket ''here'' (Some ''a'') PM_SERVER\<lparr>sk_port := 4711\<rparr>), talked c2 \<lparr>tries = 0, finished = []\<rparr>)"
  using sopen_registers_server [of "''a''" demo_pm nullconn PeerClosed PeerClosed
    "demo_net ''''" "''here''" 4711 demo_pm_env "\<lparr>tries = 0, finished = []\<rparr>" nullconn]
  by (simp add: pt_look_def del: request_bytes.simps) metis

text \<open>
  C33. The client programs reach the server that \<open>-s\<close> names, whatever was named before it: the text
  they hand to \<open>Sopen\<close>, with the mode made from the port number, makes it connect directly to that
  host and port, without a PortMaster.
\<close>

theorem clients_reach_named_server:
  assumes "list_all (\<lambda>c. c \<noteq> CHR 0x00) nm" and "take 1 (serverName opts) = ''@''"
    and "0 < serverPortNum opts" and "serverPortNum opts < 2 ^ 16" and "length nm + 1 < BUFSIZE"
  shows "Sopen nw (Some (c_str (serverName (set_server nm opts)))) (clientPortStr (set_server nm opts)) st =
    Some (Sopen_clientport nw nm (Some '''') (of_int (serverPortNum opts)) st)"
proof -
  have "c_str (serverName (set_server nm opts)) = CHR ''@'' # nm"
    using assms(1,2) by (auto simp: set_server_def put_at_def c_str_def list_all_iff)
  moreover have "clientPortStr (set_server nm opts) = CHR ''c'' # digits10 (serverPortNum opts)"
    using assms(3) by (simp add: clientPortStr_def string_of_int_def set_server_def)
  ultimately show ?thesis using Sopen_at_port [OF assms(3,4,5)] by simp
qed

theorem clients_reach_named_server_witness:
  "Sopen (demo_net '''') (Some (c_str (serverName (set_server ''b'' (set_server ''mulberry'' default_opts)))))
     (clientPortStr (set_server ''b'' (set_server ''mulberry'' default_opts))) \<lparr>tries = 0, finished = []\<rparr> =
   Some (Sopen_clientport (demo_net '''') ''b'' (Some '''') 9714 \<lparr>tries = 0, finished = []\<rparr>)"
proof -
  have "take 1 (serverName (set_server ''mulberry'' default_opts)) = ''@''" by code_simp
  from clients_reach_named_server [OF _ this, of "''b''" "demo_net ''''" "\<lparr>tries = 0, finished = []\<rparr>"] show ?thesis
    by (simp add: set_server_def default_opts_def SERVER_PORT_NUM_def BUFSIZE_def)
qed

section \<open>The sockets library\<close>

text \<open>
  C34. What \<open>Sgets\<close> returns and stores depends only on the bytes of the stream and on how it ends,
  not on the pieces in which the bytes arrive; so does the rest of the stream.
\<close>

theorem sgets_ignores_packets:
  assumes "sk_type s \<noteq> PM_SERVER" and "sk_type t \<noteq> PM_SERVER" and "2 < maxbuf"
    and "stream s = stream t" and "ending s = ending t"
  shows "map_option (\<lambda>(ok, b, r). (ok, b, map_option stream r)) (Sgets buf maxbuf (Some s)) =
    map_option (\<lambda>(ok, b, r). (ok, b, map_option stream r)) (Sgets buf maxbuf (Some t))"
proof -
  have n: "0 < maxbuf - 2" using assms(3) by simp
  show ?thesis
    using Sgets_loop_spec [OF assms(1) n, of "[]"] Sgets_loop_spec [OF assms(2) n, of "[]"]
    unfolding Sgets_def gets_result_def Let_def assms(4,5) option.case
    by (auto split: if_splits)
qed

theorem sgets_ignores_packets_witness:
  "map_option (\<lambda>(ok, b, r). (ok, b, map_option stream r))
     (Sgets (replicate 8 NUL) 8 (Some \<lparr>sk_type = PM_CLIENT, queue = ''a'', coming = [''b'', [NUL]], ending = StillOpen, backlog = 0\<rparr>)) =
   map_option (\<lambda>(ok, b, r). (ok, b, map_option stream r))
     (Sgets (replicate 8 NUL) 8 (Some \<lparr>sk_type = PM_ACCEPT, queue = ''ab'' @ [NUL], coming = [], ending = StillOpen, backlog = 0\<rparr>))"
  by (rule sgets_ignores_packets) (simp_all add: stream_def)

text \<open>
  C35. A string that \<open>Sputs\<close> writes, whatever pieces \<open>send\<close> takes it in, is the string \<open>Sgets\<close> finds
  at the other end, if the buffer has room for it and 2 bytes more; the bytes behind it are left in
  the stream.
\<close>

theorem sputs_sgets_roundtrip:
  assumes "\<forall>x\<in>set sends. 0 \<le> x" and "int (length (cstring_bytes str)) \<le> sum_list sends"
    and "sk_type s \<noteq> PM_SERVER" and "length (cstr str) + 3 \<le> maxbuf" and "length buf = maxbuf"
  shows "\<exists>out sends'. Sputs True sends str = Some (out, sends') \<and>
    (stream s = out @ rest \<longrightarrow>
      (\<exists>buf' s'. Sgets buf maxbuf (Some s) = Some (True, buf', Some s') \<and> cstr buf' = cstr str \<and>
        stream s' = rest))"
proof -
  obtain sends' where p: "Sputs True sends str = Some (cstring_bytes str, sends')"
    using Sputs_all [OF assms(1,2)] by blast
  moreover have "\<exists>buf' s'. Sgets buf maxbuf (Some s) = Some (True, buf', Some s') \<and> cstr buf' = cstr str \<and>
      stream s' = rest" if "stream s = cstring_bytes str @ rest"
    using Sgets_short [OF assms(3) that assms(4)] by blast
  ultimately show ?thesis by blast
qed

theorem sputs_sgets_roundtrip_witness:
  "\<exists>out sends'. Sputs True [2, 0, 5] ''abc'' = Some (out, sends') \<and>
    (stream \<lparr>sk_type = PM_CLIENT, queue = ''a'', coming = [''bc'', [NUL]], ending = StillOpen, backlog = 0\<rparr> = out @ [] \<longrightarrow>
      (\<exists>buf' s'. Sgets (replicate 8 NUL) 8 (Some \<lparr>sk_type = PM_CLIENT, queue = ''a'', coming = [''bc'', [NUL]],
          ending = StillOpen, backlog = 0\<rparr>) = Some (True, buf', Some s') \<and> cstr buf' = cstr ''abc'' \<and>
        stream s' = []))"
  by (rule sputs_sgets_roundtrip) (simp_all add: cstring_bytes_def cstr_def NUL_def)

text \<open>
  C36. \<open>Sreadbytes\<close> returns the bytes that were asked for if the stream holds so many; it returns
  fewer only after a receive error; otherwise it never returns, in particular not when the peer has
  closed the connection.
\<close>

theorem sreadbytes_outcomes:
  "if buflen \<le> length (stream s) then
     (\<exists>s'. Sreadbytes (Some s) buflen = Some (int buflen, take buflen (stream s), Some s') \<and>
       stream s' = drop buflen (stream s))
   else if ending s = RecvError \<or> ending s = SelectError then
     (\<exists>s'. Sreadbytes (Some s) buflen = Some (int (length (stream s)), stream s, Some s') \<and> stream s' = [])
   else Sreadbytes (Some s) buflen = None"
  using readbytes_spec [of "[]" buflen s] by (auto simp: Sreadbytes_def readbytes_result_def split: if_splits)

section \<open>The terminal colours and the examples\<close>

text \<open>
  C37. The colour variables have their type: after \<open>rdcolor\<close>, whatever file it finds, for whatever
  terminal, there are 31 variables and 8 copies, every pointer among them that is not null points to a C
  string and no variable is null; so \<open>rdcputs\<close> writes the colour of every index of the table.
\<close>

theorem color_variables_are_strings:
  assumes "colors_typed s" and "i < ncolor"
  shows "colors_typed (fst (rdcolor fop env term s)) \<and>
    (\<exists>t. NUL \<notin> set t \<and> col_vars (fst (rdcolor fop env term s)) ! i = Some t \<and>
      rdcputs (fst (rdcolor fop env term s)) ([CHR 0xAD, CHR ''X''] @ string_of_int (int i)) = Some t)"
proof -
  let ?s = "fst (rdcolor fop env term s)"
  have t: "colors_typed ?s" "rdcolor_done ?s" using rdcolor_typed [OF assms(1)] by blast+
  then have "col_vars ?s ! i \<in> set (col_vars ?s)" using assms(2) by (simp add: colors_typed_def)
  then obtain v where "col_vars ?s ! i = Some v" "NUL \<notin> set v"
    using t unfolding colors_typed_def by (metis UnCI option.exhaust)
  with t rdcputs_color [OF t(2) assms(2)] show ?thesis by auto
qed

theorem color_variables_are_strings_witness:
  "colors_typed (fst (rdcolor (\<lambda>f. Some (''t:'' @ [NEWLINE] @ ''  RED '' @ [CHR 0x5C] @ ''e[31m'' @ [NEWLINE])) None (Some ''t'') color_init)) \<and>
   (\<exists>t. NUL \<notin> set t \<and> col_vars (fst (rdcolor (\<lambda>f. Some (''t:'' @ [NEWLINE] @ ''  RED '' @ [CHR 0x5C] @ ''e[31m'' @ [NEWLINE])) None (Some ''t'') color_init)) ! 1 = Some t \<and>
     rdcputs (fst (rdcolor (\<lambda>f. Some (''t:'' @ [NEWLINE] @ ''  RED '' @ [CHR 0x5C] @ ''e[31m'' @ [NEWLINE])) None (Some ''t'') color_init))
       ([CHR 0xAD, CHR ''X''] @ string_of_int (int 1)) = Some t)"
  by (rule color_variables_are_strings) (simp_all add: ncolor_31)

text \<open>
  C38. A colour file is read back: in a file of entries that are written as the header of \<open>rdcolor.c\<close> says
  (a terminal's name, then a line for each colour with its escapes), \<open>rdcolor\<close> finds the first entry for
  the terminal and sets exactly its colours and the copies; when there is none every colour is empty and
  the copies are left as they were.
\<close>

theorem written_colors_are_read_back:
  assumes "fop ''rdcolor.dat'' = Some (color_file es)" and "list_all entry_ok es"
  shows "rdcolor fop env (Some w) s = (case map_of es w of
      Some ds \<Rightarrow> (copy_colors (define_colors ds (color_defaults s)), env)
    | None \<Rightarrow> (color_defaults s, env))"
  using assms by (rule rdcolor_file)

theorem written_colors_are_read_back_witness:
  "map (\<lambda>i. col_vars (fst (rdcolor (\<lambda>f. Some (color_file [(''vt100'', [(1, ''x'')]), (''xterm'', [(1, [CHR 0x1B] @ ''[31m''), (30, [CHR 0x1B, CHR 0x5C])])]))
     None (Some ''xterm'') color_init)) ! i) [0, 1, 30] = [Some '''', Some ([CHR 0x1B] @ ''[31m''), Some [CHR 0x1B, CHR 0x5C]]"
proof -
  have "list_all entry_ok [(''vt100'', [(1, ''x'')]), (''xterm'', [(1, [CHR 0x1B] @ ''[31m''), (30, [CHR 0x1B, CHR 0x5C])])]"
    by code_simp
  note written_colors_are_read_back [where fop = "\<lambda>f. Some (color_file [(''vt100'', [(1, ''x'')]),
      (''xterm'', [(1, [CHR 0x1B] @ ''[31m''), (30, [CHR 0x1B, CHR 0x5C])])])" and env = None and w = "''xterm''"
      and s = color_init, OF HOL.refl this]
  then

  show ?thesis by (simp add: copy_colors_def define_colors_def color_defaults_def ncolor_31)
qed

text \<open>
  C39. The conversation server keeps the order of the messages: every state it can reach is a state of an
  abstract conversation in which everybody has a mailbox and a message goes to all but who said it; and
  of two clients, what the later one has heard from others is the end of what the earlier one has heard.
\<close>

theorem talk_messages_in_order:
  assumes "talk_reach s"
  shows "\<exists>evs ms. chat_run evs = (tk_id s, ms) \<and> list_all2 in_mailbox (tk_clients s) ms \<and> sorted_wrt in_order ms"
  using talk_reach_chats [OF assms] chat_in_order unfolding chatting_def by blast

theorem talk_messages_in_order_witness:
  "\<exists>(s :: talk) evs ms. length (tk_clients s) = 2 \<and> out (acc_conn (tk_clients s ! 0)) = wire (0, ''hi'') \<and>
    chat_run evs = (tk_id s, ms) \<and> list_all2 in_mailbox (tk_clients s) ms \<and> sorted_wrt in_order ms"
proof -
  obtain s where r: "talk_reach s" and
    v: "map (\<lambda>a. (acc_id a, out (acc_conn a))) (tk_clients s) = [(1, wire (0, ''hi'')), (2, wire (0, ''hi''))]"
    using demo_talk_reached by (elim exE conjE)
  have n: "length (tk_clients s) = 2" using arg_cong [OF v, of length] by simp
  then have w: "out (acc_conn (tk_clients s ! 0)) = wire (0, ''hi'')"
    using arg_cong [OF v, of "\<lambda>l. snd (l ! 0)"] by simp
  obtain evs ms where o: "chat_run evs = (tk_id s, ms)" "list_all2 in_mailbox (tk_clients s) ms" "sorted_wrt in_order ms"
    using talk_messages_in_order [OF r] by blast
  show ?thesis
    by (rule exI [of _ s], rule exI [of _ evs], rule exI [of _ ms]) (intro conjI n w o)
qed

text \<open>
  C40. A message travels from one client to all others: when a user types a line (without blanks at its
  end, and neither \<open>q\<close> nor \<open>Q\<close>), the client sends it; the server, given these bytes on the client's
  socket, prints it after the client's number, and sends it with that number to every other client, not to the one it came
  from; and a client that is given those bytes prints the number and the line without the blanks at its
  start.
\<close>

theorem talk_message_travels:
  assumes l: "typed_line l" "tty_text (tc_tty c) = l @ NEWLINE # later" "tc_skt c = Some sk" "sk_conn sk = fed k [] StillOpen"
    and s: "tk_clients s = as @ a # bs" "list_all silent_talker as" "list_all silent_talker bs" "tk_waiting s = []"
      "0 < fst (Smaskwait sel (tk_mask s))" "0 < acc_id a" "acc_id a < 2147483648"
    and a: "acc_conn a = fed ka (cstring_bytes (''m'' @ l)) StillOpen"
    and d: "tc_skt d = Some skb" "sk_conn skb = fed kb (wire (acc_id a, stpblk l)) StillOpen"
  shows "\<exists>c' s' d'. client_round nw sel c = Some (True, c') \<and>
      tc_skt c' = Some (sk\<lparr>sk_conn := put_bytes (cstring_bytes (''m'' @ l)) (sk_conn sk)\<rparr>) \<and>
    talk_round sel s = Some (True, s') \<and>
      tk_clients s' = map (say_to (acc_id a, stpblk l)) as @ a\<lparr>acc_conn := fed ka [] StillOpen\<rparr> # map (say_to (acc_id a, stpblk l)) bs \<and>
      tk_printed s' = tk_printed s @ [NEWLINE] @ ''client#'' @ string_of_int (acc_id a) @ '': '' @ stpblk l @ [NEWLINE] @ TALK_PROMPT \<and>
    client_round nw sel d = Some (True, d') \<and>
      tc_printed d' = tc_printed d @ [NEWLINE] @ ''client'' @ string_of_int (acc_id a) @ '' '' @ stpblk l @ [NEWLINE] @ CLIENT_PROMPT"
proof -
  have len: "length (stpblk l) \<le> length l" by (simp add: stpblk_def length_dropWhile_le)
  have nul: "NUL \<notin> set l" "NUL \<notin> set (stpblk l)" "length l + 16 \<le> TALK_BUFSIZE"
    using l(1) by (auto simp: typed_line_def stpblk_def dest: set_dropWhileD)
  have say: "sayable (acc_id a, stpblk l)" using nul len s(6,7) by (simp add: sayable_def)
  obtain c' where "client_round nw sel c = Some (True, c')"
    "tc_skt c' = Some (sk\<lparr>sk_conn := put_bytes (cstring_bytes (''m'' @ l)) (sk_conn sk)\<rparr>)"
    using client_sends [OF l, of nw sel] by blast
  moreover obtain s' where "talk_round sel s = Some (True, s')"
    "tk_clients s' = map (say_to (acc_id a, stpblk l)) as @ a\<lparr>acc_conn := fed ka [] StillOpen\<rparr> # map (say_to (acc_id a, stpblk l)) bs"
    "tk_printed s' = tk_printed s @ [NEWLINE] @ ''client#'' @ string_of_int (acc_id a) @ '': '' @ stpblk l @ [NEWLINE] @ TALK_PROMPT"
    using message_relayed [OF s(1-5), of ka l "[]" StillOpen] a nul say by auto
  moreover obtain d' where "client_round nw sel d = Some (True, d')"
    "tc_printed d' = tc_printed d @ [NEWLINE] @ ''client'' @ string_of_int (acc_id a) @ '' '' @ stpblk l @ [NEWLINE] @ CLIENT_PROMPT"
    using client_prints [OF d say _ , of nw sel] nul(3) len s(6) by auto
  ultimately show ?thesis by blast
qed

theorem talk_message_travels_witness:
  "\<exists>c' s' d'. client_round (demo_net '''') demo_sel (demo_client (''hi'' @ [NEWLINE]) (demo_talker 4)) = Some (True, c') \<and>
    talk_round demo_sel (demo_listening (''hi'')) = Some (True, s') \<and>
    map (\<lambda>a. out (acc_conn a)) (tk_clients s') = ['''', ''m1 hi'' @ [NUL]] \<and>
    tk_printed s' = [NEWLINE] @ ''client#1: hi'' @ [NEWLINE] @ TALK_PROMPT \<and>
    client_round (demo_net '''') demo_sel (demo_client '''' (fed (demo_talker 4) (wire (1, ''hi'')) StillOpen)) = Some (True, d') \<and>
    tc_printed d' = CLIENT_PROMPT @ [NEWLINE] @ ''client1 hi'' @ [NEWLINE] @ CLIENT_PROMPT"
proof -
  have q: "fed (demo_talker n) [] StillOpen = demo_talker n" for n by (simp add: fed_def demo_talker_def)
  have hi: "typed_line ''hi''" "stpblk ''hi'' = ''hi''" "string_of_int 1 = ''1''" "wire (1, ''hi'') = ''m1 hi'' @ [NUL]"
    by code_simp+
  have k: "tc_skt (demo_client x y) = Some \<lparr>sk_conn = y, sk_port = 5, sk_kind = PM_CLIENT, sk_sktname = TALK_SERVER, sk_hostname = ''h''\<rparr>"
    "tc_printed (demo_client x y) = CLIENT_PROMPT" "tty_text (tc_tty (demo_client x y)) = x" for x y
    by (simp_all add: demo_client_def client_start_def)
  show ?thesis
    using talk_message_travels [where l = "''hi''" and c = "demo_client (''hi'' @ [NEWLINE]) (demo_talker 4)" and later = "[]"
      and k = "demo_talker 4" and s = "demo_listening ''hi''" and as = "[]" and ka = "demo_talker 4" and nw = "demo_net ''''" and sel = demo_sel
      and a = "\<lparr>acc_id = 1, acc_conn = fed (demo_talker 4) (cstring_bytes ''mhi'') StillOpen\<rparr>"
      and bs = "[\<lparr>acc_id = 2, acc_conn = demo_talker 5\<rparr>]" and kb = "demo_talker 4"
      and d = "demo_client '''' (fed (demo_talker 4) (wire (1, ''hi'')) StillOpen)", OF hi(1) _ k(1) _ _ _ _ _ _ _ _ _ k(1)]
    by (auto simp: q hi k demo_listening_def silent_talker_def demo_talker_def say_to_def Smaskwait_def demo_sel_def to_short_def)
qed

end
